(* ===== verification/Prelude.thy ===== *)
theory Prelude
  imports Complex_Main "HOL-Library.Word"
begin

text \<open>
  What the components of the model share: the Go machine integers, Go errors as values, the
  two ways of sequencing fallible code (pure, and threading a state), the entropy source
  read by \<open>crypto/rand\<close>, and the collections the component proofs are stated with.
\<close>

section \<open>Machine integers and byte strings\<close>

type_synonym byte = "8 word"
type_synonym u8 = "8 word"
type_synonym u16 = "16 word"
type_synonym u32 = "32 word"
type_synonym u64 = "64 word"
type_synonym bytes = "byte list"

text \<open>A Go string is a sequence of bytes; HOL characters are bytes too.\<close>

definition byte_of_char :: "char \<Rightarrow> byte" where
  "byte_of_char c = of_nat (of_char c)"

definition char_of_byte :: "byte \<Rightarrow> char" where
  "char_of_byte b = char_of (unat b)"

abbreviation bytes_of_string :: "string \<Rightarrow> bytes" where
  "bytes_of_string s \<equiv> map byte_of_char s"

abbreviation string_of_bytes :: "bytes \<Rightarrow> string" where
  "string_of_bytes b \<equiv> map char_of_byte b"

lemma of_char_less_256: "(of_char c :: nat) < 256"
  by (metis nat_of_char_less_256)

lemma char_of_byte_of_char [simp]: "char_of_byte (byte_of_char c) = c"
  using of_char_less_256 [of c]
  by (simp add: char_of_byte_def byte_of_char_def unat_of_nat take_bit_nat_def)

lemma byte_of_char_of_byte [simp]: "byte_of_char (char_of_byte b) = b"
proof -
  have "unat b < 256" using unsigned_less [of b] by simp
  then show ?thesis
    by (simp add: char_of_byte_def byte_of_char_def)
qed

lemma string_of_bytes_of_string [simp]: "string_of_bytes (bytes_of_string s) = s"
  by (simp add: comp_def)

lemma bytes_of_string_of_bytes [simp]: "bytes_of_string (string_of_bytes b) = b"
  by (simp add: comp_def)


lemma inj_byte_of_char: "inj byte_of_char"
  by (rule injI) (metis char_of_byte_of_char)

lemma bytes_of_string_inject [simp]: "bytes_of_string s = bytes_of_string t \<longleftrightarrow> s = t"
  by (metis string_of_bytes_of_string)

section \<open>Go errors as values\<close>

text \<open>
  A Go \<open>error\<close> is a sentinel (\<open>store.ErrNotFound\<close>, \<open>io.EOF\<close>, \<open>context.Canceled\<close>), a message
  made by \<open>errors.New\<close> or \<open>fmt.Errorf\<close> without \<open>%w\<close>, or a message that wraps another error.
  A message keeps the constant part of its format string; the interpolated values are left
  out. \<open>Panic\<close> is a run-time panic of the Go code.
\<close>

datatype err =
    ErrNotFound
  | EOF
  | Canceled
  | Err string
  | Wrap string err
  | Panic string

text \<open>\<open>errors.Is\<close>: the chain of wrapped errors reaches the sentinel.\<close>

fun errors_Is :: "err \<Rightarrow> err \<Rightarrow> bool" where
  "errors_Is (Wrap m e) t = (Wrap m e = t \<or> errors_Is e t)"
| "errors_Is e t = (e = t)"

text \<open>The result of a fallible computation, and its sequencing (\<open>if err != nil { return err }\<close>).\<close>

type_synonym 'a res = "err + 'a"

definition bindE :: "'a res \<Rightarrow> ('a \<Rightarrow> 'b res) \<Rightarrow> 'b res" where
  "bindE r f = (case r of Inl e \<Rightarrow> Inl e | Inr x \<Rightarrow> f x)"

definition wrapE :: "string \<Rightarrow> 'a res \<Rightarrow> 'a res" where
  "wrapE m r = (case r of Inl e \<Rightarrow> Inl (Wrap m e) | Inr x \<Rightarrow> Inr x)"

definition is_ok :: "'a res \<Rightarrow> bool" where
  "is_ok r = (case r of Inl _ \<Rightarrow> False | Inr _ \<Rightarrow> True)"

named_theorems res_simps "evaluation and inversion of fallible computations"

lemma bindE_simps [simp]: "bindE (Inl e) f = Inl e" "bindE (Inr x) f = f x"
  by (simp_all add: bindE_def)

lemma wrapE_simps [simp]: "wrapE m (Inl e) = Inl (Wrap m e)" "wrapE m (Inr x) = Inr x"
  by (simp_all add: wrapE_def)

lemma is_ok_simps [simp]: "\<not> is_ok (Inl e)" "is_ok (Inr x)"
  by (simp_all add: is_ok_def)

lemma bindE_Inr_iff [res_simps]: "bindE r f = Inr y \<longleftrightarrow> (\<exists>x. r = Inr x \<and> f x = Inr y)"
  by (cases r) auto

lemma bindE_Inl_iff [res_simps]:
  "bindE r f = Inl e \<longleftrightarrow> r = Inl e \<or> (\<exists>x. r = Inr x \<and> f x = Inl e)"
  by (cases r) auto

lemma wrapE_Inr_iff [res_simps]: "wrapE m r = Inr y \<longleftrightarrow> r = Inr y"
  by (cases r) auto

lemma wrapE_Inl_iff [res_simps]: "wrapE m r = Inl e \<longleftrightarrow> (\<exists>e'. r = Inl e' \<and> e = Wrap m e')"
  by (cases r) auto

lemma is_ok_iff: "is_ok r \<longleftrightarrow> (\<exists>x. r = Inr x)"
  by (cases r) auto

lemma errors_Is_not_found_simps [simp]:
  "errors_Is ErrNotFound ErrNotFound"
  "\<not> errors_Is (Err m) ErrNotFound"
  "errors_Is (Wrap m e) ErrNotFound \<longleftrightarrow> errors_Is e ErrNotFound"
  by simp_all

text \<open>
  Code that fails and changes a state: the result beside the new state. \<open>seqE\<close> passes
  the value and the state on, and stops at the first error with the state reached so far.
\<close>

type_synonym ('a, 's) run = "'a res \<times> 's"

definition seqE :: "('a, 's) run \<Rightarrow> ('a \<Rightarrow> 's \<Rightarrow> ('b, 's) run) \<Rightarrow> ('b, 's) run" where
  "seqE m k = (case m of (Inl e, s) \<Rightarrow> (Inl e, s) | (Inr x, s) \<Rightarrow> k x s)"

lemma seqE_simps [simp]: "seqE (Inl e, s) k = (Inl e, s)" "seqE (Inr x, s) k = k x s"
  by (simp_all add: seqE_def)

lemma seqE_Inr_iff [res_simps]:
  "seqE m k = (Inr y, t) \<longleftrightarrow> (\<exists>x s. m = (Inr x, s) \<and> k x s = (Inr y, t))"
  by (auto simp: seqE_def split: prod.splits sum.splits)

lemma seqE_cases:
  obtains (fail) e s where "m = (Inl e, s)" "seqE m k = (Inl e, s)"
    | (ok) x s where "m = (Inr x, s)" "seqE m k = k x s"
  by (cases m, cases "fst m") (auto simp: seqE_def split: sum.splits)

definition mapE :: "('a \<Rightarrow> 'b) \<Rightarrow> 'a res \<Rightarrow> 'b res" where
  "mapE f r = bindE r (\<lambda>x. Inr (f x))"

lemma mapE_simps [simp]: "mapE f (Inl e) = Inl e" "mapE f (Inr x) = Inr (f x)"
  by (simp_all add: mapE_def)

section \<open>Entropy\<close>

text \<open>
  \<open>crypto/rand\<close> is a supply of bytes: a read of \<open>n\<close> bytes takes the next \<open>n\<close>, and fails
  when the source cannot give them.
\<close>

type_synonym entropy = bytes

definition rand_read :: "nat \<Rightarrow> entropy \<Rightarrow> (bytes, entropy) run" where
  "rand_read n r = (if n \<le> length r then (Inr (take n r), drop n r) else (Inl (Err ''rand''), r))"

lemma rand_read_Inr:
  "rand_read n r = (Inr b, r') \<longleftrightarrow> n \<le> length r \<and> b = take n r \<and> r' = drop n r"
  by (simp add: rand_read_def eq_commute)

lemma rand_read_length: "rand_read n r = (Inr b, r') \<Longrightarrow> length b = n"
  by (simp add: rand_read_Inr)

lemma rand_read_ok: "n \<le> length r \<Longrightarrow> rand_read n r = (Inr (take n r), drop n r)"
  by (simp add: rand_read_def)

section \<open>Lists used as tables\<close>

lemma filter_le_antimono:
  "sorted_wrt (<) (map f xs) \<Longrightarrow> sorted_wrt (<) (map f (filter P xs))"
  by (induction xs) auto

lemma map_of_filter_key: "x \<in> set (filter (\<lambda>r. f r = k) xs) \<longleftrightarrow> x \<in> set xs \<and> f x = k"
  by simp

lemma find_Some_iff_distinct:
  "distinct (map f xs) \<Longrightarrow> find (\<lambda>r. f r = k) xs = Some x \<longleftrightarrow> x \<in> set xs \<and> f x = k"
  by (induction xs) auto

lemma find_append:
  "find P (xs @ ys) = (case find P xs of None \<Rightarrow> find P ys | Some x \<Rightarrow> Some x)"
  by (induction xs) auto

lemma find_None_key: "find (\<lambda>r. f r = k) xs = None \<longleftrightarrow> k \<notin> f ` set xs"
  by (induction xs) auto

lemma sorted_wrt_less_append_last:
  "sorted_wrt (<) (xs @ [y]) \<longleftrightarrow> sorted_wrt (<) xs \<and> (\<forall>x \<in> set xs. x < (y::'a::linorder))"
  by (simp add: sorted_wrt_append)

end
