(* ===== verification/Golib.thy ===== *)
theory Golib
  imports Prelude
begin

text \<open>
  What the program uses of the Go standard library: \<open>encoding/hex\<close>, \<open>encoding/binary\<close>,
  \<open>strings\<close>, the decimal conversions of \<open>fmt\<close> and \<open>strconv\<close>, and \<open>encoding/base64\<close>. \<open>strings\<close>
  functions are modelled on ASCII text: a non-ASCII byte is left as it is.
\<close>

section \<open>strings\<close>

definition lower_char :: "char \<Rightarrow> char" where
  "lower_char c = (let n = (of_char c :: nat) in if 65 \<le> n \<and> n \<le> 90 then char_of (n + 32) else c)"

definition strings_ToLower :: "string \<Rightarrow> string" where
  "strings_ToLower s = map lower_char s"

definition is_space :: "char \<Rightarrow> bool" where
  "is_space c = (let n = (of_char c :: nat) in n = 32 \<or> (9 \<le> n \<and> n \<le> 13))"

definition strings_TrimSpace :: "string \<Rightarrow> string" where
  "strings_TrimSpace s = rev (dropWhile is_space (rev (dropWhile is_space s)))"

fun strings_HasPrefix :: "string \<Rightarrow> string \<Rightarrow> bool" where
  "strings_HasPrefix s [] = True"
| "strings_HasPrefix [] (p # ps) = False"
| "strings_HasPrefix (c # cs) (p # ps) = (c = p \<and> strings_HasPrefix cs ps)"

definition strings_TrimPrefix :: "string \<Rightarrow> string \<Rightarrow> string" where
  "strings_TrimPrefix s p = (if strings_HasPrefix s p then drop (length p) s else s)"

lemma HasPrefix_append [simp]: "strings_HasPrefix (p @ s) p"
  by (induction p) auto

lemma HasPrefix_iff: "strings_HasPrefix s p \<longleftrightarrow> (\<exists>t. s = p @ t)"
  by (induction s p rule: strings_HasPrefix.induct) auto

lemma TrimPrefix_append [simp]: "strings_TrimPrefix (p @ s) p = s"
  by (simp add: strings_TrimPrefix_def)

lemma length_ToLower [simp]: "length (strings_ToLower s) = length s"
  by (simp add: strings_ToLower_def)

lemma lower_char_idem [simp]: "lower_char (lower_char c) = lower_char c"
  by (auto simp: lower_char_def Let_def)

lemma ToLower_idem [simp]: "strings_ToLower (strings_ToLower s) = strings_ToLower s"
  by (simp add: strings_ToLower_def)

lemma TrimSpace_no_space:
  assumes "\<forall>c \<in> set s. \<not> is_space c"
  shows "strings_TrimSpace s = s"
proof -
  have "dropWhile is_space t = t" if "\<forall>c \<in> set t. \<not> is_space c" for t
    using that by (cases t) auto
  from this [of s] this [of "rev s"] assms show ?thesis by (simp add: strings_TrimSpace_def)
qed

section \<open>encoding/hex\<close>

definition hex_val :: "char \<Rightarrow> nat option" where
  "hex_val c = (let n = (of_char c :: nat) in
     if 48 \<le> n \<and> n \<le> 57 then Some (n - 48)
     else if 97 \<le> n \<and> n \<le> 102 then Some (n - 87)
     else if 65 \<le> n \<and> n \<le> 70 then Some (n - 55)
     else None)"

definition hex_digit :: "nat \<Rightarrow> char" where
  "hex_digit n = (if n < 10 then char_of (48 + n) else char_of (87 + n))"

fun hex_EncodeToString :: "bytes \<Rightarrow> string" where
  "hex_EncodeToString [] = []"
| "hex_EncodeToString (b # bs) =
     hex_digit (unat b div 16) # hex_digit (unat b mod 16) # hex_EncodeToString bs"

fun hex_DecodeString :: "string \<Rightarrow> bytes res" where
  "hex_DecodeString [] = Inr []"
| "hex_DecodeString [c] =
     (if hex_val c = None then Inl (Err ''encoding/hex: invalid byte'')
      else Inl (Err ''encoding/hex: odd length hex string''))"
| "hex_DecodeString (a # b # s) =
     (case (hex_val a, hex_val b) of
        (Some x, Some y) \<Rightarrow>
          bindE (hex_DecodeString s) (\<lambda>bs. Inr (of_nat (16 * x + y) # bs))
      | _ \<Rightarrow> Inl (Err ''encoding/hex: invalid byte''))"

definition is_hex :: "char \<Rightarrow> bool" where
  "is_hex c = (hex_val c \<noteq> None)"

definition is_lower_hex :: "char \<Rightarrow> bool" where
  "is_lower_hex c = (is_hex c \<and> lower_char c = c)"

lemma hex_val_less: "hex_val c = Some n \<Longrightarrow> n < 16"
  by (auto simp: hex_val_def Let_def split: if_splits)

lemma hex_val_digit [simp]: "n < 16 \<Longrightarrow> hex_val (hex_digit n) = Some n"
  by (auto simp: hex_val_def hex_digit_def Let_def)

lemma is_hex_digit [simp]: "n < 16 \<Longrightarrow> is_hex (hex_digit n)"
  by (simp add: is_hex_def)

lemma lower_hex_digit [simp]: "n < 16 \<Longrightarrow> lower_char (hex_digit n) = hex_digit n"
  by (auto simp: lower_char_def hex_digit_def Let_def)

lemma unat_byte_div_16 [simp]: "unat (b :: byte) div 16 < 16"
proof -
  have "unat b < 16 * 16" using unsigned_less [of b, where 'a = nat] by simp
  then show ?thesis by (rule less_mult_imp_div_less)
qed

lemma of_nat_div_mod_16 [simp]:
  "(of_nat (16 * (unat (b :: byte) div 16) + unat b mod 16) :: byte) = b"
  by (simp only: mult_div_mod_eq) simp

lemma length_hex_Encode [simp]: "length (hex_EncodeToString b) = 2 * length b"
  by (induction b) auto

lemma hex_Decode_Encode [simp]: "hex_DecodeString (hex_EncodeToString b) = Inr b"
proof (induction b)
  case (Cons x b)
  then show ?case using of_nat_div_mod_16 [of x] by (simp del: of_nat_div_mod_16)
qed simp

lemma hex_Encode_inject [simp]: "hex_EncodeToString a = hex_EncodeToString b \<longleftrightarrow> a = b"
  by (metis hex_Decode_Encode sum.inject(2))

lemma hex_Encode_lower: "c \<in> set (hex_EncodeToString b) \<Longrightarrow> is_lower_hex c"
  by (induction b) (auto simp: is_lower_hex_def)

lemma hex_Decode_length: "hex_DecodeString s = Inr b \<Longrightarrow> length s = 2 * length b"
  by (induction s arbitrary: b rule: hex_DecodeString.induct)
     (auto simp: res_simps split: option.splits if_splits)

lemma hex_Decode_ok_iff:
  "is_ok (hex_DecodeString s) \<longleftrightarrow> even (length s) \<and> (\<forall>c \<in> set s. is_hex c)"
proof (induction s rule: hex_DecodeString.induct)
  case (3 a b s)
  show ?case
  proof (cases "hex_val a \<noteq> None \<and> hex_val b \<noteq> None")
    case True
    then obtain x y where xy: "hex_val a = Some x" "hex_val b = Some y" by auto
    with "3.IH" [OF refl xy] show ?thesis
      by (cases "hex_DecodeString s") (auto simp: is_hex_def)
  next
    case False
    then show ?thesis by (auto simp: is_hex_def split: option.splits)
  qed
qed (auto simp: is_hex_def)

lemma is_lower_hex_not_space: "is_lower_hex c \<Longrightarrow> \<not> is_space c"
  by (auto simp: is_lower_hex_def is_hex_def hex_val_def is_space_def Let_def split: if_splits)

lemma lower_hex_val: "hex_val (lower_char c) = hex_val c"
  by (auto simp: hex_val_def lower_char_def Let_def)

lemma ToLower_lower_hex: "\<forall>c \<in> set s. is_lower_hex c \<Longrightarrow> strings_ToLower s = s"
  by (induction s) (auto simp: strings_ToLower_def is_lower_hex_def)

lemma hex_digit_val: "hex_val c = Some n \<Longrightarrow> hex_digit n = lower_char c"
proof -
  assume "hex_val c = Some n"
  then have "char_of (of_char (hex_digit n) :: nat) = lower_char c"
    by (auto simp: hex_val_def hex_digit_def lower_char_def Let_def split: if_splits)
  then show ?thesis by simp
qed

lemma hex_Encode_Decode:
  "hex_DecodeString s = Inr b \<Longrightarrow> hex_EncodeToString b = strings_ToLower s"
proof (induction s arbitrary: b rule: hex_DecodeString.induct)
  case (3 x y s)
  from "3.prems" obtain m n bs where mn: "hex_val x = Some m" "hex_val y = Some n"
    and bs: "hex_DecodeString s = Inr bs" and b: "b = of_nat (16 * m + n) # bs"
    by (auto simp: res_simps split: option.splits)
  from mn have lt: "m < 16" "n < 16" by (auto dest: hex_val_less)
  then have "16 * m + n < 256" by simp
  then have "unat (of_nat (16 * m + n) :: byte) = 16 * m + n"
    by (simp only: unat_of_nat) simp
  with lt mn "3.IH" [OF refl mn bs] b show ?case
    by (simp add: hex_digit_val strings_ToLower_def)
qed (auto simp: strings_ToLower_def split: if_splits)

section \<open>encoding/binary\<close>

definition put_be32 :: "u32 \<Rightarrow> bytes" where
  "put_be32 x = [ucast (drop_bit 24 x), ucast (drop_bit 16 x), ucast (drop_bit 8 x), ucast x]"

definition put_be16 :: "u16 \<Rightarrow> bytes" where
  "put_be16 x = [ucast (drop_bit 8 x), ucast x]"

definition be32 :: "bytes \<Rightarrow> u32" where
  "be32 b = word_of_nat (unat (b ! 3) + 256 * unat (b ! 2) + 65536 * unat (b ! 1) + 16777216 * unat (b ! 0))"

definition le32 :: "bytes \<Rightarrow> u32" where
  "le32 b = word_of_nat (unat (b ! 0) + 256 * unat (b ! 1) + 65536 * unat (b ! 2) + 16777216 * unat (b ! 3))"

text \<open>The Go conversion \<open>int32(x)\<close> of an unsigned value, as an integer.\<close>

definition int32_of :: "u32 \<Rightarrow> int" where
  "int32_of x = sint x"

lemma int32_of_range: "- (2 ^ 31) \<le> int32_of x \<and> int32_of x < 2 ^ 31"
  using sint_range_size [of x] by (simp add: int32_of_def word_size)

lemma int32_of_inject [simp]: "int32_of x = int32_of y \<longleftrightarrow> x = y"
  by (auto simp: int32_of_def intro: signed_word_eqI)

lemma length_put_be32 [simp]: "length (put_be32 x) = 4"
  by (simp add: put_be32_def)

lemma unat_put_be32:
  "unat (put_be32 x ! 0) = unat x div 16777216"
  "unat (put_be32 x ! 1) = unat x div 65536 mod 256"
  "unat (put_be32 x ! 2) = unat x div 256 mod 256"
  "unat (put_be32 x ! 3) = unat x mod 256"
  using unsigned_less [of x, where 'a = nat]
  by (simp_all add: put_be32_def unsigned_ucast_eq unsigned_drop_bit_eq drop_bit_eq_div
      take_bit_eq_mod unat_div_distrib div_le_dividend less_mult_imp_div_less)

lemma digits_256:
  "n mod 256 + 256 * (n div 256 mod 256) + 65536 * (n div 65536 mod 256) + 16777216 * (n div 16777216) = (n :: nat)"
proof -
  have e: "n div 65536 = n div 256 div 256" "n div 16777216 = n div 256 div 256 div 256"
    by (simp_all add: div_mult2_eq [symmetric])
  define a where "a = n div 256"
  define b where "b = a div 256"
  have "n = 256 * a + n mod 256" "a = 256 * b + a mod 256" "b = 256 * (b div 256) + b mod 256"
    unfolding a_def b_def by simp_all
  then show ?thesis unfolding e a_def [symmetric] b_def [symmetric] by linarith
qed

lemma be32_put_be32 [simp]: "be32 (put_be32 x) = x"
  unfolding be32_def unat_put_be32 digits_256 by simp

lemma unat_put_be16:
  "unat (put_be16 x ! 0) = unat x div 256" "unat (put_be16 x ! 1) = unat x mod 256"
  using unsigned_less [of x, where 'a = nat]
  by (simp_all add: put_be16_def unsigned_ucast_eq unsigned_drop_bit_eq drop_bit_eq_div
      take_bit_eq_mod unat_div_distrib div_le_dividend less_mult_imp_div_less)

lemma length_put_be16 [simp]: "length (put_be16 x) = 2"
  by (simp add: put_be16_def)

lemma put_be16_inject [simp]: "put_be16 x = put_be16 y \<longleftrightarrow> x = y"
proof
  assume e: "put_be16 x = put_be16 y"
  have "unat x = unat y"
    using unat_put_be16 [of x] unat_put_be16 [of y] e by (metis div_mult_mod_eq)
  then show "x = y" by (rule word_unat_eq_iff [THEN iffD2])
qed simp

lemma put_be32_inject [simp]: "put_be32 x = put_be32 y \<longleftrightarrow> x = y"
  by (metis be32_put_be32)

end
