(* ===== verification/Gotext.thy ===== *)
theory Gotext
  imports Golib
begin

text \<open>
  Decimal text (\<open>fmt\<close>'s \<open>%d\<close>, \<open>strconv.ParseInt\<close> and \<open>strconv.Atoi\<close>) and
  \<open>encoding/base64\<close> with the standard alphabet.
\<close>

section \<open>Decimal numbers\<close>

definition dec_digit :: "nat \<Rightarrow> char" where
  "dec_digit n = char_of (48 + n)"

definition dec_val :: "char \<Rightarrow> nat option" where
  "dec_val c = (let n = (of_char c :: nat) in if 48 \<le> n \<and> n \<le> 57 then Some (n - 48) else None)"

fun dec_nat :: "nat \<Rightarrow> string" where
  "dec_nat n = (if n < 10 then [dec_digit n] else dec_nat (n div 10) @ [dec_digit (n mod 10)])"

declare dec_nat.simps [simp del]

text \<open>\<open>fmt.Sprintf("%d", i)\<close>.\<close>

definition fmt_d :: "int \<Rightarrow> string" where
  "fmt_d i = (if i < 0 then CHR ''-'' # dec_nat (nat (- i)) else dec_nat (nat i))"

fun parse_dec :: "nat \<Rightarrow> string \<Rightarrow> nat option" where
  "parse_dec acc [] = Some acc"
| "parse_dec acc (c # s) =
     (case dec_val c of None \<Rightarrow> None | Some d \<Rightarrow> parse_dec (10 * acc + d) s)"

text \<open>
  \<open>strconv.ParseInt(s, 10, 64)\<close>, which is also \<open>strconv.Atoi\<close> on a 64-bit platform: the value
  beside the error. On a syntax error the value is 0, out of range it is the nearest bound.
\<close>

definition strconv_ParseInt :: "string \<Rightarrow> int \<times> err option" where
  "strconv_ParseInt s =
     (let (neg, ds) = (case s of
            [] \<Rightarrow> (False, [])
          | c # cs \<Rightarrow> if c = CHR ''-'' then (True, cs) else if c = CHR ''+'' then (False, cs) else (False, s))
      in if ds = [] then (0, Some (Err ''invalid syntax''))
         else case parse_dec 0 ds of
           None \<Rightarrow> (0, Some (Err ''invalid syntax''))
         | Some n \<Rightarrow>
             if neg then
               (if int n \<le> 2 ^ 63 then (- int n, None) else (- (2 ^ 63), Some (Err ''value out of range'')))
             else
               (if int n < 2 ^ 63 then (int n, None) else (2 ^ 63 - 1, Some (Err ''value out of range''))))"

lemma dec_val_digit [simp]: "d < 10 \<Longrightarrow> dec_val (dec_digit d) = Some d"
  by (simp add: dec_val_def dec_digit_def Let_def)

lemma parse_dec_append:
  "parse_dec acc (s @ t) = (case parse_dec acc s of None \<Rightarrow> None | Some n \<Rightarrow> parse_dec n t)"
  by (induction acc s rule: parse_dec.induct) (auto split: option.splits)

lemma parse_dec_nat: "parse_dec 0 (dec_nat n) = Some n"
proof (induction n rule: dec_nat.induct)
  case (1 n)
  show ?case
  proof (cases "n < 10")
    case True
    then show ?thesis by (subst dec_nat.simps) simp
  next
    case False
    with "1" show ?thesis by (subst dec_nat.simps) (simp add: parse_dec_append)
  qed
qed

lemma dec_nat_chars: "c \<in> set (dec_nat n) \<Longrightarrow> dec_val c \<noteq> None"
proof (induction n rule: dec_nat.induct)
  case (1 n)
  show ?case
  proof (cases "n < 10")
    case True
    with "1.prems" show ?thesis by (subst (asm) dec_nat.simps) simp
  next
    case False
    with "1.prems" have "c \<in> set (dec_nat (n div 10)) \<or> c = dec_digit (n mod 10)"
      by (subst (asm) dec_nat.simps) auto
    with "1.IH" False show ?thesis by auto
  qed
qed

lemma dec_nat_not_Nil [simp]: "dec_nat n \<noteq> []"
  by (subst dec_nat.simps) simp

lemma dec_nat_inject [simp]: "dec_nat m = dec_nat n \<longleftrightarrow> m = n"
  by (metis parse_dec_nat option.inject)

lemma dec_nat_hd_not_minus: "dec_nat n \<noteq> CHR ''-'' # s"
proof
  assume "dec_nat n = CHR ''-'' # s"
  then have "dec_val (CHR ''-'') \<noteq> None" using dec_nat_chars [of "CHR ''-''" n] by simp
  then show False by (simp add: dec_val_def Let_def)
qed

lemma fmt_d_inject [simp]: "fmt_d i = fmt_d j \<longleftrightarrow> i = j"
  using dec_nat_hd_not_minus by (auto simp: fmt_d_def eq_nat_nat_iff) (metis dec_nat_hd_not_minus)+

lemma fmt_d_no_bar: "CHR ''|'' \<notin> set (fmt_d i)"
proof -
  have "CHR ''|'' \<notin> set (dec_nat n)" for n
    using dec_nat_chars [of "CHR ''|''" n] by (auto simp: dec_val_def Let_def)
  then show ?thesis by (simp add: fmt_d_def)
qed

lemma ParseInt_fmt_d:
  assumes "- (2 ^ 63) \<le> i" and "i < 2 ^ 63"
  shows "strconv_ParseInt (fmt_d i) = (i, None)"
proof (cases "i < 0")
  case True
  with assms show ?thesis
    by (simp add: strconv_ParseInt_def fmt_d_def parse_dec_nat)
next
  case False
  obtain c cs where c: "dec_nat (nat i) = c # cs" by (cases "dec_nat (nat i)") auto
  then have "dec_val c \<noteq> None" using dec_nat_chars [of c "nat i"] by simp
  then have "c \<noteq> CHR ''-''" "c \<noteq> CHR ''+''" by (auto simp: dec_val_def Let_def)
  with False assms c parse_dec_nat [of "nat i"] show ?thesis
    by (simp add: strconv_ParseInt_def fmt_d_def)
qed

section \<open>encoding/base64\<close>

definition b64_digit :: "nat \<Rightarrow> char" where
  "b64_digit n =
     (if n < 26 then char_of (65 + n) else if n < 52 then char_of (71 + n)
      else if n < 62 then char_of (n - 4) else if n = 62 then CHR ''+'' else CHR ''/'')"

definition b64_val :: "char \<Rightarrow> nat option" where
  "b64_val c = (let n = (of_char c :: nat) in
     if 65 \<le> n \<and> n \<le> 90 then Some (n - 65)
     else if 97 \<le> n \<and> n \<le> 122 then Some (n - 71)
     else if 48 \<le> n \<and> n \<le> 57 then Some (n + 4)
     else if n = 43 then Some 62 else if n = 47 then Some 63 else None)"

fun b64_Encode :: "bytes \<Rightarrow> string" where
  "b64_Encode [] = []"
| "b64_Encode [x] =
     (let n = unat x * 16 in [b64_digit (n div 64), b64_digit (n mod 64), CHR ''='', CHR ''=''])"
| "b64_Encode [x, y] =
     (let n = (unat x * 256 + unat y) * 4 in
      [b64_digit (n div 4096), b64_digit (n div 64 mod 64), b64_digit (n mod 64), CHR ''=''])"
| "b64_Encode (x # y # z # bs) =
     (let n = unat x * 65536 + unat y * 256 + unat z in
      b64_digit (n div 262144) # b64_digit (n div 4096 mod 64) #
      b64_digit (n div 64 mod 64) # b64_digit (n mod 64) # b64_Encode bs)"

text \<open>
  The decoder skips carriage returns and newlines, and ignores the unused low bits of the
  last digit. \<open>padded\<close> is \<open>StdEncoding\<close>, the other case \<open>RawStdEncoding\<close>.
\<close>

definition b64_last1 :: "nat \<Rightarrow> nat \<Rightarrow> bytes" where
  "b64_last1 a b = [of_nat ((a * 64 + b) div 16)]"

definition b64_last2 :: "nat \<Rightarrow> nat \<Rightarrow> nat \<Rightarrow> bytes" where
  "b64_last2 a b c = (let n = (a * 4096 + b * 64 + c) div 4 in [of_nat (n div 256), of_nat n])"

fun b64_groups :: "bool \<Rightarrow> string \<Rightarrow> bytes res" where
  "b64_groups padded [] = Inr []"
| "b64_groups padded [a] = Inl (Err ''illegal base64 data'')"
| "b64_groups padded [a, b] =
     (case (b64_val a, b64_val b) of
        (Some m, Some n) \<Rightarrow> if padded then Inl (Err ''illegal base64 data'') else Inr (b64_last1 m n)
      | _ \<Rightarrow> Inl (Err ''illegal base64 data''))"
| "b64_groups padded [a, b, c] =
     (case (b64_val a, b64_val b, b64_val c) of
        (Some m, Some n, Some p) \<Rightarrow>
          if padded then Inl (Err ''illegal base64 data'') else Inr (b64_last2 m n p)
      | _ \<Rightarrow> Inl (Err ''illegal base64 data''))"
| "b64_groups padded (a # b # c # d # s) =
     (case (b64_val a, b64_val b, b64_val c, b64_val d) of
        (Some m, Some n, Some p, Some q) \<Rightarrow>
          bindE (b64_groups padded s) (\<lambda>bs.
            let v = m * 262144 + n * 4096 + p * 64 + q in
            Inr (of_nat (v div 65536) # of_nat (v div 256) # of_nat v # bs))
      | (Some m, Some n, Some p, None) \<Rightarrow>
          if padded \<and> d = CHR ''='' \<and> s = [] then Inr (b64_last2 m n p)
          else Inl (Err ''illegal base64 data'')
      | (Some m, Some n, None, _) \<Rightarrow>
          if padded \<and> c = CHR ''='' \<and> d = CHR ''='' \<and> s = [] then Inr (b64_last1 m n)
          else Inl (Err ''illegal base64 data'')
      | _ \<Rightarrow> Inl (Err ''illegal base64 data''))"

definition b64_Decode :: "bool \<Rightarrow> string \<Rightarrow> bytes res" where
  "b64_Decode padded s = b64_groups padded (filter (\<lambda>c. c \<noteq> CHR 0x0A \<and> c \<noteq> CHR 0x0D) s)"

lemma b64_val_digit [simp]: "n < 64 \<Longrightarrow> b64_val (b64_digit n) = Some n"
  by (auto simp: b64_val_def b64_digit_def Let_def)

lemma b64_val_pad [simp]: "b64_val CHR ''='' = None"
  by (simp add: b64_val_def Let_def)

lemma b64_val_newline: "b64_val CHR 0x0A = None" "b64_val CHR 0x0D = None"
  by (simp_all add: b64_val_def Let_def)

lemma b64_digit_not_newline [simp]:
  "n < 64 \<Longrightarrow> b64_digit n \<noteq> CHR 0x0A" "n < 64 \<Longrightarrow> b64_digit n \<noteq> CHR 0x0D"
  by (metis b64_val_digit b64_val_newline option.distinct(1))+

lemma unat_byte_less [simp]: "unat (b :: byte) < 256"
  using unsigned_less [of b, where 'a = nat] by simp

lemma byte_of_nat_eq: "(of_nat n :: byte) = b \<longleftrightarrow> n mod 256 = unat b"
proof -
  have "(of_nat n :: byte) = b \<longleftrightarrow> unat (of_nat n :: byte) = unat b"
    by (simp only: word_unat_eq_iff)
  then show ?thesis by (simp only: unat_of_nat) simp
qed

lemma base64_split:
  fixes n :: nat
  shows "n div 262144 * 262144 + n div 4096 mod 64 * 4096 + n div 64 mod 64 * 64 + n mod 64 = n"
    and "n div 4096 * 4096 + n div 64 mod 64 * 64 + n mod 64 = n"
proof -
  define a b c where "a = n div 64" and "b = a div 64" and "c = b div 64"
  have q: "n div 64 = a" "n div 4096 = b" "n div 262144 = c"
    by (simp_all add: a_def b_def c_def div_mult2_eq [symmetric])
  have "n = a * 64 + n mod 64" "a = b * 64 + a mod 64" "b = c * 64 + b mod 64"
    unfolding a_def b_def c_def by (simp_all only: div_mult_mod_eq)
  then show "n div 262144 * 262144 + n div 4096 mod 64 * 4096 + n div 64 mod 64 * 64 + n mod 64 = n"
    and "n div 4096 * 4096 + n div 64 mod 64 * 64 + n mod 64 = n"
    unfolding q by linarith+
qed

lemma base64_triple:
  fixes a b c :: nat
  assumes "a < 256" "b < 256" "c < 256"
  shows "(a * 65536 + b * 256 + c) div 65536 = a"
    and "(a * 65536 + b * 256 + c) div 256 mod 256 = b"
    and "(a * 65536 + b * 256 + c) mod 256 = c"
    and "(a * 65536 + b * 256 + c) div 262144 < 64"
    and "(a * 256 + b) * 4 div 4096 < 64" and "a * 16 div 64 < 64"
proof -
  show "(a * 65536 + b * 256 + c) div 65536 = a"
    by (rule div_nat_eqI) (use assms in simp_all)
  have "(a * 65536 + b * 256 + c) div 256 = a * 256 + b"
    by (rule div_nat_eqI) (use assms in simp_all)
  then show "(a * 65536 + b * 256 + c) div 256 mod 256 = b" using assms by simp
  have "(a * 65536 + b * 256 + c) mod 256 = (c + 256 * (a * 256 + b)) mod 256"
    by (simp add: algebra_simps)
  then show "(a * 65536 + b * 256 + c) mod 256 = c" using assms by (simp only: mod_mult_self2 mod_less)
  show "(a * 65536 + b * 256 + c) div 262144 < 64"
    by (rule less_mult_imp_div_less) (use assms in simp)
  show "(a * 256 + b) * 4 div 4096 < 64"
    by (rule less_mult_imp_div_less) (use assms in simp)
  show "a * 16 div 64 < 64"
    by (rule less_mult_imp_div_less) (use assms in simp)
qed

lemmas base64_byte_bounds =
  base64_triple(4-6) [OF unat_byte_less unat_byte_less unat_byte_less]

lemma b64_last1_Encode:
  "b64_last1 (unat (x :: byte) * 16 div 64) (unat x * 16 mod 64) = [x]"
proof -
  have "unat x * 16 div 64 * 64 + unat x * 16 mod 64 = unat x * 16" by (rule div_mult_mod_eq)
  then show ?thesis by (simp only: b64_last1_def byte_of_nat_eq list.inject) simp
qed

lemma b64_last2_Encode:
  fixes x y :: byte
  defines "n \<equiv> (unat x * 256 + unat y) * 4"
  shows "b64_last2 (n div 4096) (n div 64 mod 64) (n mod 64) = [x, y]"
proof -
  have v: "(n div 4096 * 4096 + n div 64 mod 64 * 64 + n mod 64) div 4 = unat x * 256 + unat y"
    by (simp only: base64_split) (simp add: n_def)
  have "(unat x * 256 + unat y) div 256 = unat x"
    by (rule div_nat_eqI) (use unat_byte_less [of y] in simp_all)
  then show ?thesis
    by (simp only: b64_last2_def Let_def v byte_of_nat_eq list.inject) simp
qed

lemma base64_triple_bytes:
  fixes x y z :: byte
  shows "of_nat ((unat x * 65536 + unat y * 256 + unat z) div 65536) = x"
    and "of_nat ((unat x * 65536 + unat y * 256 + unat z) div 256) = y"
    and "of_nat (unat x * 65536 + unat y * 256 + unat z) = z"
  by (simp_all only: byte_of_nat_eq base64_triple unat_byte_less mod_less)

lemma b64_Encode_chars:
  "c \<in> set (b64_Encode b) \<Longrightarrow> c \<noteq> CHR 0x0A \<and> c \<noteq> CHR 0x0D"
proof (induction b rule: b64_Encode.induct)
  case (2 x)
  then show ?case using base64_byte_bounds(3) [of x]
    by (auto simp only: b64_Encode.simps Let_def list.set insert_iff empty_iff
        b64_digit_not_newline mod_less_divisor zero_less_numeral)
next
  case (3 x y)
  then show ?case using base64_byte_bounds(2) [of x y]
    by (auto simp only: b64_Encode.simps Let_def list.set insert_iff empty_iff
        b64_digit_not_newline mod_less_divisor zero_less_numeral)
next
  case (4 x y z bs)
  then show ?case using base64_byte_bounds(1) [of x y z]
    by (auto simp only: b64_Encode.simps Let_def list.set insert_iff empty_iff
        b64_digit_not_newline mod_less_divisor zero_less_numeral) 
qed simp

lemma b64_groups_Encode: "b64_groups True (b64_Encode b) = Inr b"
proof (induction b rule: b64_Encode.induct)
  case (2 x)
  show ?case
    by (simp only: b64_Encode.simps Let_def b64_groups.simps b64_val_digit base64_byte_bounds
        b64_val_pad mod_less_divisor zero_less_numeral option.case prod.case b64_last1_Encode
        simp_thms if_True)
next
  case (3 x y)
  show ?case
    by (simp only: b64_Encode.simps Let_def b64_groups.simps b64_val_digit base64_byte_bounds
        b64_val_pad mod_less_divisor zero_less_numeral option.case prod.case b64_last2_Encode
        simp_thms if_True)
next
  case (4 x y z bs)
  then show ?case
    by (simp only: b64_Encode.simps Let_def b64_groups.simps b64_val_digit base64_byte_bounds
        mod_less_divisor zero_less_numeral option.case prod.case bindE_simps base64_split
        base64_triple_bytes)
qed simp

lemma b64_Decode_Encode [simp]: "b64_Decode True (b64_Encode b) = Inr b"
proof -
  have "filter (\<lambda>c. c \<noteq> CHR 0x0A \<and> c \<noteq> CHR 0x0D) (b64_Encode b) = b64_Encode b"
    using b64_Encode_chars by (simp add: filter_id_conv)
  then show ?thesis by (simp add: b64_Decode_def b64_groups_Encode)
qed

end
