(* ===== verification/Secret.thy ===== *)
theory Secret
  imports Gotext
begin

text \<open>
  Authenticated encryption of database columns (\<open>internal/secret/secret.go\<close>) and the choice of the
  cipher at start-up (\<open>cmd/cylon/common.go\<close>). AES and GCM are parameters: \<open>aes_lib\<close> holds
  \<open>aes.NewCipher\<close>, the block function and \<open>cipher.NewGCM\<close>; an \<open>aead\<close> is the sealed-box interface
  the code calls.
\<close>

type_synonym block = bytes

record aead =
  NonceSize :: nat
  Seal :: "bytes \<Rightarrow> bytes \<Rightarrow> bytes \<Rightarrow> bytes"
  Open :: "bytes \<Rightarrow> bytes \<Rightarrow> bytes \<Rightarrow> bytes res"

record aes_lib =
  aes_NewCipher :: "bytes \<Rightarrow> block res"
  block_Encrypt :: "block \<Rightarrow> bytes \<Rightarrow> bytes"
  cipher_NewGCM :: "block \<Rightarrow> aead res"

definition secret_prefix :: string where
  "secret_prefix = ''v1:''"

definition keyLen :: nat where
  "keyLen = 32"

text \<open>The \<open>aead\<close> field is nil in a pass-through cipher.\<close>

record cipher =
  c_aead :: "aead option"
  c_enabled :: bool

definition decodeKey :: "string \<Rightarrow> bytes res" where
  "decodeKey s =
     (let b64 = (case b64_Decode True s of
                   Inr b \<Rightarrow> if length b = keyLen then Some b else None
                 | Inl _ \<Rightarrow> None);
          raw = (case b64_Decode False s of
                   Inr b \<Rightarrow> if length b = keyLen then Some b else None
                 | Inl _ \<Rightarrow> None);
          rest = (case b64 of
                    Some b \<Rightarrow> Inr b
                  | None \<Rightarrow> (case raw of
                      Some b \<Rightarrow> Inr b
                    | None \<Rightarrow> Inl (Err ''secret: CYLON_DB_KEY must be a 32-byte key (64 hex chars or base64)'')))
      in if length s = 2 * keyLen then
           (case hex_DecodeString s of Inr b \<Rightarrow> Inr b | Inl _ \<Rightarrow> rest)
         else rest)"

definition secret_New :: "aes_lib \<Rightarrow> string \<Rightarrow> cipher res" where
  "secret_New L key =
     (if key = [] then Inl (Err ''secret: no key configured'')
      else bindE (decodeKey key) (\<lambda>raw.
           bindE (wrapE ''creating aes cipher'' (aes_NewCipher L raw)) (\<lambda>blk.
           bindE (wrapE ''creating gcm'' (cipher_NewGCM L blk)) (\<lambda>a.
           Inr \<lparr>c_aead = Some a, c_enabled = True\<rparr>))))"

definition NewInsecureDisabled :: cipher where
  "NewInsecureDisabled = \<lparr>c_aead = None, c_enabled = False\<rparr>"

definition Encrypt :: "cipher \<Rightarrow> string \<Rightarrow> bytes \<Rightarrow> entropy \<Rightarrow> (string, entropy) run" where
  "Encrypt c plaintext aad r =
     (if \<not> c_enabled c then (Inr plaintext, r)
      else case c_aead c of
        None \<Rightarrow> (Inl (Panic ''nil aead''), r)
      | Some a \<Rightarrow>
          (case rand_read (NonceSize a) r of
             (Inl e, r') \<Rightarrow> (Inl (Wrap ''reading nonce'' e), r')
           | (Inr nonce, r') \<Rightarrow>
               (let ct = nonce @ Seal a nonce (bytes_of_string plaintext) aad
                in (Inr (secret_prefix @ b64_Encode ct), r'))))"

definition Decrypt :: "cipher \<Rightarrow> string \<Rightarrow> bytes \<Rightarrow> string res" where
  "Decrypt c stored aad =
     (if \<not> strings_HasPrefix stored secret_prefix then
        (if c_enabled c then Inl (Err ''secret: value is not encrypted but a key is configured'')
         else Inr stored)
      else if \<not> c_enabled c
      then Inl (Err ''secret: value is encrypted but no key is configured (set CYLON_DB_KEY)'')
      else case c_aead c of
        None \<Rightarrow> Inl (Panic ''nil aead'')
      | Some a \<Rightarrow>
          bindE (wrapE ''decoding ciphertext''
                   (b64_Decode True (strings_TrimPrefix stored secret_prefix))) (\<lambda>raw.
          (let ns = NonceSize a in
           if length raw < ns then Inl (Err ''ciphertext too short'')
           else bindE (wrapE ''decrypting'' (Open a (take ns raw) (drop ns raw) aad)) (\<lambda>pt.
                Inr (string_of_bytes pt)))))"

text \<open>\<open>newCipher\<close>: an unset key gives the pass-through cipher, any other value must be a key.\<close>

definition newCipher :: "aes_lib \<Rightarrow> string \<Rightarrow> cipher res" where
  "newCipher L key = (if key = [] then Inr NewInsecureDisabled else secret_New L key)"

section \<open>The contract of a sealed box, and what the cipher makes of it\<close>

text \<open>Opening what was sealed with the same nonce and associated data gives the plaintext.\<close>

definition aead_ok :: "aead \<Rightarrow> bool" where
  "aead_ok a = (\<forall>n p d. length n = NonceSize a \<longrightarrow> Open a n (Seal a n p d) d = Inr p)"

text \<open>A sealed box does not open under other associated data.\<close>

definition aead_binds :: "aead \<Rightarrow> bool" where
  "aead_binds a = (\<forall>n p d d'. d \<noteq> d' \<longrightarrow> \<not> is_ok (Open a n (Seal a n p d) d'))"

text \<open>The values a cipher stores so that it can read them back.\<close>

definition protects :: "cipher \<Rightarrow> string \<Rightarrow> bool" where
  "protects c p =
     (case c_aead c of
        Some a \<Rightarrow> c_enabled c \<and> aead_ok a
      | None \<Rightarrow> \<not> c_enabled c \<and> \<not> strings_HasPrefix p secret_prefix)"

locale column_cipher =
  fixes enc :: "string \<Rightarrow> bytes \<Rightarrow> entropy \<Rightarrow> (string, entropy) run"
    and dec :: "string \<Rightarrow> bytes \<Rightarrow> string res"
    and plain :: "string \<Rightarrow> bool"
  assumes dec_enc: "plain p \<Longrightarrow> enc p d r = (Inr s, r') \<Longrightarrow> dec s d = Inr p"
begin

lemma dec_enc_two:
  assumes "plain p" and "plain q" and "enc p d r = (Inr s, r1)" and "enc q d' r1 = (Inr t, r2)"
  shows "dec s d = Inr p \<and> dec t d' = Inr q"
  using assms dec_enc by blast

lemma enc_inject:
  assumes "plain p" and "plain q" and "enc p d r = (Inr s, r1)" and "enc q d r' = (Inr s, r2)"
  shows "p = q"
  using dec_enc [OF assms(1,3)] dec_enc [OF assms(2,4)] by simp

end

lemma Encrypt_enabled:
  assumes "c_enabled c" and "c_aead c = Some a" and "Encrypt c p d r = (Inr s, r')"
  obtains n where "length n = NonceSize a" "r = n @ r'"
    "s = secret_prefix @ b64_Encode (n @ Seal a n (bytes_of_string p) d)"
proof -
  from assms have "NonceSize a \<le> length r" "r' = drop (NonceSize a) r"
    "s = secret_prefix @ b64_Encode (take (NonceSize a) r @ Seal a (take (NonceSize a) r) (bytes_of_string p) d)"
    by (auto simp: Encrypt_def rand_read_def Let_def split: if_splits)
  then show ?thesis by (intro that [of "take (NonceSize a) r"]) auto
qed

lemma Decrypt_sealed:
  assumes "c_enabled c" and "c_aead c = Some a" and "length n = NonceSize a"
  shows "Decrypt c (secret_prefix @ b64_Encode (n @ ct)) d =
    bindE (wrapE ''decrypting'' (Open a n ct d)) (\<lambda>pt. Inr (string_of_bytes pt))"
  using assms by (simp add: Decrypt_def)

lemma Encrypt_disabled [simp]: "\<not> c_enabled c \<Longrightarrow> Encrypt c p d r = (Inr p, r)"
  by (simp add: Encrypt_def)

interpretation col: column_cipher "Encrypt c" "Decrypt c" "protects c" for c
proof unfold_locales
  fix p d r s r'
  assume p: "protects c p" and e: "Encrypt c p d r = (Inr s, r')"
  show "Decrypt c s d = Inr p"
  proof (cases "c_aead c")
    case None
    with p have "\<not> c_enabled c" "\<not> strings_HasPrefix p secret_prefix" by (auto simp: protects_def)
    with e show ?thesis by (simp add: Decrypt_def)
  next
    case (Some a)
    with p have en: "c_enabled c" and ok: "aead_ok a" by (auto simp: protects_def)
    obtain n where n: "length n = NonceSize a"
      and s: "s = secret_prefix @ b64_Encode (n @ Seal a n (bytes_of_string p) d)"
      using Encrypt_enabled [OF en Some e] by blast
    from ok n have "Open a n (Seal a n (bytes_of_string p) d) d = Inr (bytes_of_string p)"
      by (simp add: aead_ok_def)
    then show ?thesis by (simp add: s Decrypt_sealed [OF en Some n] comp_def)
  qed
qed

lemma Decrypt_unprefixed_enabled:
  "c_enabled c \<Longrightarrow> \<not> strings_HasPrefix s secret_prefix \<Longrightarrow> \<not> is_ok (Decrypt c s d)"
  by (simp add: Decrypt_def)

lemma Decrypt_prefixed_disabled:
  "\<not> c_enabled c \<Longrightarrow> strings_HasPrefix s secret_prefix \<Longrightarrow> \<not> is_ok (Decrypt c s d)"
  by (simp add: Decrypt_def)

lemma decodeKey_length: "decodeKey s = Inr b \<Longrightarrow> length b = 32"
  by (auto simp: decodeKey_def keyLen_def Let_def dest: hex_Decode_length
      split: sum.splits option.splits if_splits)

lemma decodeKey_hex:
  assumes "length s = 64" and "list_all is_hex s"
  shows "is_ok (decodeKey s)"
proof -
  have "is_ok (hex_DecodeString s)" using assms by (simp add: hex_Decode_ok_iff list_all_iff)
  then obtain b where "hex_DecodeString s = Inr b" by (auto simp: is_ok_iff)
  with assms(1) show ?thesis by (simp add: decodeKey_def keyLen_def)
qed

lemma secret_New_enabled: "secret_New L k = Inr c \<Longrightarrow> c_enabled c \<and> c_aead c \<noteq> None \<and> k \<noteq> []"
  by (auto simp: secret_New_def res_simps split: if_splits)

section \<open>A concrete sealed box\<close>

text \<open>
  A box that meets both contracts, used to show that the hypotheses below can hold: it writes the
  associated data in front of the plaintext, after its length in unary, and opens only when it
  finds the same there. It hides nothing.
\<close>

definition box_header :: "bytes \<Rightarrow> bytes" where
  "box_header d = replicate (length d) 1 @ [0] @ d"

definition box_aead :: aead where
  "box_aead = \<lparr>NonceSize = 2,
     Seal = (\<lambda>n p d. box_header d @ p),
     Open = (\<lambda>n c d. if take (length (box_header d)) c = box_header d
                     then Inr (drop (length (box_header d)) c)
                     else Inl (Err ''message authentication failed''))\<rparr>"

lemma takeWhile_header: "takeWhile (\<lambda>b. b = 1) (replicate n (1 :: byte) @ 0 # t) = replicate n 1"
  by (induction n) auto

lemma box_header_prefix: "take (length (box_header d')) (box_header d @ p) = box_header d' \<Longrightarrow> d = d'"
proof -
  assume a: "take (length (box_header d')) (box_header d @ p) = box_header d'"
  then obtain t where t: "box_header d @ p = box_header d' @ t"
    by (metis append_take_drop_id)
  have "takeWhile (\<lambda>b. b = 1) (box_header d @ p) = replicate (length d) 1"
    by (simp add: box_header_def takeWhile_header)
  moreover have "takeWhile (\<lambda>b. b = 1) (box_header d' @ t) = replicate (length d') 1"
    by (simp add: box_header_def takeWhile_header)
  ultimately have "length d = length d'" using t by (metis length_replicate)
  with t show ?thesis by (simp add: box_header_def)
qed

lemma box_aead_ok: "aead_ok box_aead"
  by (simp add: aead_ok_def box_aead_def)

lemma box_aead_binds: "aead_binds box_aead"
  unfolding aead_binds_def
proof (intro allI impI)
  fix n p d d' :: bytes
  assume "d \<noteq> d'"
  then have "take (length (box_header d')) (box_header d @ p) \<noteq> box_header d'"
    using box_header_prefix by blast
  then show "\<not> is_ok (Open box_aead n (Seal box_aead n p d) d')"
    by (simp only: box_aead_def aead.simps if_False is_ok_simps not_False_eq_True)
qed

definition box_cipher :: cipher where
  "box_cipher = \<lparr>c_aead = Some box_aead, c_enabled = True\<rparr>"

lemma box_cipher_protects: "protects box_cipher p"
  by (simp add: protects_def box_cipher_def box_aead_ok)

section \<open>Properties\<close>

text \<open>A column value that \<open>Encrypt\<close> stores is read back by \<open>Decrypt\<close> under the same associated
  data; with a key configured the stored form always carries the version prefix.\<close>

theorem encrypt_decrypt_roundtrip:
  assumes "protects c p" and "Encrypt c p d r = (Inr s, r')"
  shows "Decrypt c s d = Inr p \<and> (c_enabled c \<longrightarrow> strings_HasPrefix s ''v1:'')"
proof -
  have "strings_HasPrefix s ''v1:''" if "c_enabled c"
    using assms(2) that unfolding secret_prefix_def [symmetric]
    by (auto simp: Encrypt_def Let_def rand_read_def split: option.splits if_splits)
  then show ?thesis using col.dec_enc [OF assms] by blast
qed

theorem encrypt_decrypt_roundtrip_witness:
  "\<exists>s. Encrypt box_cipher ''secret'' [7] [3, 4, 5] = (Inr s, [5]) \<and> Decrypt box_cipher s [7] = Inr ''secret''"
proof -
  obtain s where s: "Encrypt box_cipher ''secret'' [7] [3, 4, 5] = (Inr s, [5])"
    by (simp add: Encrypt_def box_cipher_def box_aead_def rand_read_def Let_def)
  from encrypt_decrypt_roundtrip [OF box_cipher_protects s] s show ?thesis by blast
qed

text \<open>The cipher never guesses the mode a value was stored in. With a key configured a value
  without the prefix is an error, and without a key a value with the prefix is an error; so what
  one mode stores the other mode refuses to read.\<close>

theorem decrypt_fails_closed:
  "(c_enabled c \<and> \<not> strings_HasPrefix s ''v1:'' \<longrightarrow> \<not> is_ok (Decrypt c s d))
   \<and> (\<not> c_enabled c \<and> strings_HasPrefix s ''v1:'' \<longrightarrow> \<not> is_ok (Decrypt c s d))
   \<and> (c_enabled c \<and> Encrypt c p d r = (Inr s, r') \<longrightarrow> \<not> is_ok (Decrypt NewInsecureDisabled s d'))
   \<and> (c_enabled c \<and> Encrypt NewInsecureDisabled p d r = (Inr s, r') \<and> \<not> strings_HasPrefix p ''v1:''
        \<longrightarrow> \<not> is_ok (Decrypt c s d'))"
proof -
  have pre: "strings_HasPrefix s secret_prefix" if "c_enabled c" "Encrypt c p d r = (Inr s, r')"
    using that by (auto simp: Encrypt_def Let_def rand_read_def split: option.splits if_splits)
  have off: "\<not> c_enabled NewInsecureDisabled" by (simp add: NewInsecureDisabled_def)
  show ?thesis
    using Decrypt_unprefixed_enabled Decrypt_prefixed_disabled pre off
    unfolding secret_prefix_def [symmetric] by force
qed

theorem decrypt_fails_closed_witness:
  "\<not> is_ok (Decrypt box_cipher ''0011'' []) \<and> \<not> is_ok (Decrypt NewInsecureDisabled ''v1:AA=='' [])"
proof -
  have h: "c_enabled box_cipher" "\<not> c_enabled NewInsecureDisabled"
    "\<not> strings_HasPrefix ''0011'' ''v1:''" "strings_HasPrefix ''v1:AA=='' ''v1:''"
    by (simp_all add: box_cipher_def NewInsecureDisabled_def)
  show ?thesis
    using h decrypt_fails_closed [of box_cipher "''0011''"]
      decrypt_fails_closed [of NewInsecureDisabled "''v1:AA==''"] by blast
qed



text \<open>\<open>newCipher\<close> runs without encryption only when no key is configured; any key it accepts
  decodes to exactly 32 bytes and gives an encrypting cipher, and every other key is an error.\<close>

theorem new_cipher_modes:
  "newCipher L [] = Inr NewInsecureDisabled
   \<and> (k \<noteq> [] \<longrightarrow> newCipher L k = Inr c \<longrightarrow>
        c_enabled c \<and> c_aead c \<noteq> None \<and> (\<exists>raw. decodeKey k = Inr raw \<and> length raw = 32))
   \<and> (k \<noteq> [] \<longrightarrow> \<not> is_ok (decodeKey k) \<longrightarrow> \<not> is_ok (newCipher L k))"
proof -
  have "\<exists>raw. decodeKey k = Inr raw \<and> length raw = 32" if "secret_New L k = Inr c" for c
    using that decodeKey_length by (fastforce simp: secret_New_def res_simps split: if_splits)
  then show ?thesis
    using secret_New_enabled [of L k c]
    by (auto simp: newCipher_def is_ok_iff)
qed

theorem new_cipher_modes_witness:
  "\<exists>L c. newCipher L ''000102030405060708090a0b0c0d0e0f000102030405060708090a0b0c0d0e0f'' = Inr c
     \<and> c_enabled c"
proof -
  define L where "L = \<lparr>aes_NewCipher = Inr, block_Encrypt = (\<lambda>k b. b), cipher_NewGCM = (\<lambda>_. Inr box_aead)\<rparr>"
  define k where "k = ''000102030405060708090a0b0c0d0e0f000102030405060708090a0b0c0d0e0f''"
  have "is_ok (decodeKey k)"
    by (rule decodeKey_hex) (simp_all add: k_def is_hex_def hex_val_def)
  then obtain raw where raw: "decodeKey k = Inr raw" by (auto simp: is_ok_iff)
  have ne: "k \<noteq> []" by (simp add: k_def)
  with raw have n: "newCipher L k = Inr box_cipher"
    by (simp add: newCipher_def secret_New_def L_def box_cipher_def)
  with ne new_cipher_modes [of L k box_cipher] have "c_enabled box_cipher" by blast
  with n show ?thesis unfolding k_def by blast
qed

end
