(* ===== verification/Euid.thy ===== *)
theory Euid
  imports Gotext
begin

text \<open>
  EUI-64 identities (\<open>internal/euid/euid.go\<close>): normalisation of a configured EUI and generation of
  a fresh one from an optional prefix. A valid EUI is sixteen lower-case hex characters.
\<close>

definition euiLen :: nat where
  "euiLen = 8"

definition NormalizeEUI :: "string \<Rightarrow> string res" where
  "NormalizeEUI s0 =
     (let s = strings_ToLower (strings_TrimSpace s0) in
      if length s \<noteq> euiLen * 2 then Inl (Err ''eui must be 16 hex chars'')
      else case hex_DecodeString s of
             Inl e \<Rightarrow> Inl (Wrap ''eui is not valid hex'' e)
           | Inr _ \<Rightarrow> Inr s)"

text \<open>The leading bytes a prefix stands for, before the FFFE insertion.\<close>

definition eui_head :: "string \<Rightarrow> bytes res" where
  "eui_head prefix =
     (if prefix = [] then Inr []
      else if length prefix mod 2 \<noteq> 0 \<or> length prefix > euiLen * 2
      then Inl (Err ''eui prefix must be even-length hex up to 16 chars'')
      else wrapE ''eui prefix is not valid hex'' (hex_DecodeString prefix))"

definition GenerateEUI :: "string \<Rightarrow> entropy \<Rightarrow> (string, entropy) run" where
  "GenerateEUI prefix0 r =
     (let prefix = strings_ToLower (strings_TrimSpace prefix0) in
      case eui_head prefix of
        Inl e \<Rightarrow> (Inl e, r)
      | Inr head0 \<Rightarrow>
          let head = (if length head0 = 3 then head0 @ [0xFF, 0xFE] else head0);
              n = min euiLen (length head)
          in if n < euiLen then
               (case rand_read (euiLen - n) r of
                  (Inl e, r') \<Rightarrow> (Inl (Wrap ''reading random bytes for eui'' e), r')
                | (Inr tail, r') \<Rightarrow> (Inr (hex_EncodeToString (take n head @ tail)), r'))
             else (Inr (hex_EncodeToString (take n head)), r))"

text \<open>The form of a stored EUI.\<close>

definition valid_eui :: "string \<Rightarrow> bool" where
  "valid_eui s = (length s = 16 \<and> list_all is_lower_hex s)"

lemma lower_is_lower_hex [simp]: "is_lower_hex (lower_char c) \<longleftrightarrow> is_hex c"
  by (simp add: is_lower_hex_def is_hex_def lower_hex_val)

lemma ToLower_hex_iff [simp]:
  "list_all is_hex (strings_ToLower s) \<longleftrightarrow> list_all is_hex s"
  by (simp add: strings_ToLower_def list_all_iff is_hex_def lower_hex_val)

lemma list_all_lower_hex_ToLower:
  "list_all is_lower_hex (strings_ToLower s) \<longleftrightarrow> list_all is_hex s"
  by (simp add: strings_ToLower_def list_all_iff)

lemma NormalizeEUI_Inr_iff:
  "NormalizeEUI s = Inr t \<longleftrightarrow>
     t = strings_ToLower (strings_TrimSpace s) \<and> length (strings_TrimSpace s) = 16 \<and>
     list_all is_hex (strings_TrimSpace s)"
proof -
  define u where "u = strings_ToLower (strings_TrimSpace s)"
  have len: "length u = length (strings_TrimSpace s)" by (simp add: u_def)
  have hex: "list_all is_hex u \<longleftrightarrow> list_all is_hex (strings_TrimSpace s)" by (simp add: u_def)
  have "NormalizeEUI s = Inr t \<longleftrightarrow> t = u \<and> length u = 16 \<and> is_ok (hex_DecodeString u)"
    by (auto simp: NormalizeEUI_def euiLen_def u_def [symmetric] is_ok_def split: sum.splits)
  also have "\<dots> \<longleftrightarrow> t = u \<and> length u = 16 \<and> list_all is_hex u"
    by (auto simp: hex_Decode_ok_iff list_all_iff)
  finally show ?thesis by (simp add: len hex u_def [symmetric])
qed

lemma NormalizeEUI_valid: "NormalizeEUI s = Inr t \<Longrightarrow> valid_eui t"
  by (simp add: NormalizeEUI_Inr_iff valid_eui_def list_all_lower_hex_ToLower)

lemma valid_eui_trim [simp]: "valid_eui s \<Longrightarrow> strings_TrimSpace s = s"
  by (rule TrimSpace_no_space) (auto simp: valid_eui_def list_all_iff is_lower_hex_not_space)

lemma valid_eui_lower [simp]: "valid_eui s \<Longrightarrow> strings_ToLower s = s"
  by (rule ToLower_lower_hex) (auto simp: valid_eui_def list_all_iff)

lemma NormalizeEUI_of_valid: "valid_eui s \<Longrightarrow> NormalizeEUI s = Inr s"
  by (simp add: NormalizeEUI_Inr_iff) (auto simp: valid_eui_def list_all_iff is_lower_hex_def)

lemma valid_eui_Encode: "length b = 8 \<Longrightarrow> valid_eui (hex_EncodeToString b)"
  by (auto simp: valid_eui_def list_all_iff dest: hex_Encode_lower)

lemma valid_eui_fixpoint: "valid_eui s \<longleftrightarrow> NormalizeEUI s = Inr s"
  using NormalizeEUI_valid NormalizeEUI_of_valid by blast

lemma eui_head_length: "eui_head p = Inr h \<Longrightarrow> length p = 2 * length h \<and> length h \<le> 8"
  by (auto simp: eui_head_def euiLen_def res_simps dest: hex_Decode_length split: if_splits)

lemma eui_head_ok_iff:
  "is_ok (eui_head p) \<longleftrightarrow> even (length p) \<and> length p \<le> 16 \<and> list_all is_hex p"
proof (cases "p = []")
  case False
  have "is_ok (wrapE m r) = is_ok r" for m and r :: "bytes res" by (cases r) auto
  with False show ?thesis
    by (auto simp: eui_head_def euiLen_def hex_Decode_ok_iff list_all_iff odd_iff_mod_2_eq_one)
qed (simp add: eui_head_def)

text \<open>The head with the FFFE of a three-byte OUI inserted.\<close>

definition oui_expand :: "bytes \<Rightarrow> bytes" where
  "oui_expand h = (if length h = 3 then h @ [0xFF, 0xFE] else h)"

lemma oui_expand_length: "length h \<le> 8 \<Longrightarrow> length (oui_expand h) \<le> 8"
  by (simp add: oui_expand_def)

lemma GenerateEUI_Inr:
  assumes "GenerateEUI p r = (Inr e, r')"
  obtains h tail where
    "eui_head (strings_ToLower (strings_TrimSpace p)) = Inr h"
    "e = hex_EncodeToString (oui_expand h @ tail)" "length (oui_expand h @ tail) = 8"
    "r = tail @ r'"
proof -
  obtain h where h: "eui_head (strings_ToLower (strings_TrimSpace p)) = Inr h"
    using assms by (auto simp: GenerateEUI_def Let_def split: sum.splits)
  define k where "k = oui_expand h"
  have k8: "length k \<le> 8" using eui_head_length [OF h] by (simp add: k_def oui_expand_length)
  have g: "GenerateEUI p r =
     (if length k < 8 then
        (case rand_read (8 - length k) r of
           (Inl e, r') \<Rightarrow> (Inl (Wrap ''reading random bytes for eui'' e), r')
         | (Inr tail, r') \<Rightarrow> (Inr (hex_EncodeToString (k @ tail)), r'))
      else (Inr (hex_EncodeToString k), r))"
    using k8 by (simp add: GenerateEUI_def h euiLen_def oui_expand_def [symmetric] k_def [symmetric] min_def Let_def
        split: prod.splits sum.splits)
  show ?thesis
  proof (cases "length k < 8")
    case True
    with assms g have e: "e = hex_EncodeToString (k @ take (8 - length k) r)"
      and r': "r' = drop (8 - length k) r" and le: "8 - length k \<le> length r"
      by (auto simp: rand_read_def split: if_splits)
    show ?thesis
      by (rule that [of h "take (8 - length k) r"]) (use h e r' le k8 k_def in auto)
  next
    case False
    with assms g k8 have "e = hex_EncodeToString k" "r' = r" "length k = 8" by auto
    then show ?thesis by (intro that [of h "[]"]) (use h k_def in auto)
  qed
qed

lemma GenerateEUI_ok:
  assumes "is_ok (eui_head (strings_ToLower (strings_TrimSpace p)))" and "8 \<le> length r"
  shows "is_ok (fst (GenerateEUI p r))"
proof -
  obtain h where h: "eui_head (strings_ToLower (strings_TrimSpace p)) = Inr h"
    using assms(1) by (auto simp: is_ok_iff)
  have "rand_read (8 - n) r = (Inr (take (8 - n) r), drop (8 - n) r)" for n
    using assms(2) by (simp add: rand_read_ok)
  with h show ?thesis by (simp add: GenerateEUI_def euiLen_def Let_def)
qed

section \<open>Properties\<close>

text \<open>\<open>NormalizeEUI\<close> returns a string exactly when the trimmed input is sixteen hex
  characters, the result is the lower-cased trimmed input, and it is a fixed point: normalising a
  normalised EUI changes nothing.\<close>

theorem normalize_eui_canonical:
  "(NormalizeEUI s = Inr t \<longleftrightarrow>
      t = strings_ToLower (strings_TrimSpace s) \<and> length (strings_TrimSpace s) = 16 \<and>
      list_all is_hex (strings_TrimSpace s))
   \<and> (valid_eui u \<longleftrightarrow> NormalizeEUI u = Inr u)
   \<and> (NormalizeEUI s = Inr u \<longrightarrow> NormalizeEUI u = Inr u)"
  using NormalizeEUI_Inr_iff NormalizeEUI_valid valid_eui_fixpoint by blast

theorem normalize_eui_canonical_witness:
  "NormalizeEUI ''  0102030405060708 '' = Inr ''0102030405060708'' \<and>
   NormalizeEUI ''0102030405060708'' = Inr ''0102030405060708''"
proof -
  have n: "NormalizeEUI ''  0102030405060708 '' = Inr ''0102030405060708''" by code_simp
  with normalize_eui_canonical [of "''  0102030405060708 ''" "[]" "''0102030405060708''"]
  show ?thesis by blast
qed

text \<open>A generated EUI is sixteen lower-case hex characters, it begins with the given prefix
  (lower-cased), a six-character OUI prefix is followed by \<open>fffe\<close>, and a full sixteen-character
  prefix is returned as it is without reading any entropy.\<close>

theorem generate_eui_form:
  assumes "GenerateEUI p r = (Inr e, r')"
  shows "valid_eui e
    \<and> (\<exists>rest. e = strings_ToLower (strings_TrimSpace p) @ rest)
    \<and> (length (strings_TrimSpace p) = 6 \<longrightarrow>
         take 10 e = strings_ToLower (strings_TrimSpace p) @ ''fffe'')
    \<and> (length (strings_TrimSpace p) = 16 \<longrightarrow> e = strings_ToLower (strings_TrimSpace p) \<and> r' = r)"
proof -
  define q where "q = strings_ToLower (strings_TrimSpace p)"
  have lq: "length q = length (strings_TrimSpace p)" by (simp add: q_def)
  obtain h tail where h: "eui_head q = Inr h"
    and e: "e = hex_EncodeToString (oui_expand h @ tail)"
    and len: "length (oui_expand h @ tail) = 8" and r: "r = tail @ r'"
    using GenerateEUI_Inr [OF assms] q_def by metis
  have eq: "hex_EncodeToString h = q"
    using h hex_Encode_Decode [of q h]
    by (auto simp: eui_head_def res_simps q_def split: if_splits)
  have app: "hex_EncodeToString (a @ b) = hex_EncodeToString a @ hex_EncodeToString b" for a b
    by (induction a) auto
  have hq: "length q = 2 * length h" using eui_head_length [OF h] by simp
  have "\<exists>rest. e = q @ rest"
    by (auto simp: e app oui_expand_def eq)
  moreover have "take 10 e = q @ ''fffe''" if "length q = 6"
  proof -
    have "hex_EncodeToString [0xFF, 0xFE] = ''fffe''" by code_simp
    moreover have "length h = 3" using that hq by simp
    ultimately have "e = (q @ ''fffe'') @ hex_EncodeToString tail"
      by (simp add: e app oui_expand_def eq)
    then show ?thesis using that by simp
  qed
  moreover have "e = q \<and> r' = r" if "length q = 16"
  proof -
    have "length h = 8" using that hq by simp
    then have "tail = []" using len by (simp add: oui_expand_def)
    with \<open>length h = 8\<close> show ?thesis by (simp add: e r oui_expand_def eq)
  qed
  moreover have "valid_eui e" using valid_eui_Encode [OF len] by (simp only: e)
  ultimately show ?thesis unfolding q_def [symmetric] lq [symmetric] by blast
qed

theorem generate_eui_form_witness:
  "GenerateEUI ''AABBCC'' [1, 2, 3, 4] = (Inr ''aabbccfffe010203'', [4]) \<and>
   valid_eui ''aabbccfffe010203''"
proof -
  have g: "GenerateEUI ''AABBCC'' [1, 2, 3, 4] = (Inr ''aabbccfffe010203'', [4])" by code_simp
  then show ?thesis using generate_eui_form [OF g] by blast
qed

end
