(* ===== verification/Tables.thy ===== *)
theory Tables
  imports Secret Euid
begin

text \<open>
  The SQLite database the store works on (\<open>internal/db/migrations/0001_init.sql\<close>) and the \<open>Store\<close>
  that holds it (\<open>internal/store/store.go\<close>). A table is the list of its rows in rowid order; an
  \<open>AUTOINCREMENT\<close> table keeps the largest id it ever gave out. A column that may be NULL is an
  option. Writes are serialised by the store's mutex, so an operation is one step from a store to
  a store.

  The environment of an operation is part of the state: the clock reading, the entropy source, and
  the outcomes of the next SQL statements. \<open>db_faults\<close> lists them: \<open>None\<close> for a statement that
  runs, \<open>Some\<close> with the driver's message for one that fails (a cancelled context, a full disk);
  an empty list is a database that works.
\<close>

record gateway_row =
  g_eui :: string
  g_region :: string
  g_sub_band :: int
  g_connection_mode :: string
  g_created_at :: string
  g_updated_at :: string

record tag_row =
  tr_id :: int
  tr_dev_eui :: string
  tr_join_eui :: string
  tr_app_key :: string
  tr_class :: string
  tr_region :: string
  tr_sub_band :: int
  tr_default_dr :: int
  tr_fport :: int
  tr_payload_type :: string
  tr_payload_config :: "string option"
  tr_schedule :: "string option"
  tr_enabled :: int
  tr_created_at :: string
  tr_updated_at :: string

record session_row =
  sr_tag_id :: int
  sr_dev_addr :: "string option"
  sr_nwk_skey :: "string option"
  sr_app_skey :: "string option"
  sr_fcnt_up :: int
  sr_fcnt_down :: int
  sr_dev_nonce :: int
  sr_rx_delay :: "int option"
  sr_rx1_dr_offset :: "int option"
  sr_rx2_dr :: "int option"
  sr_rx2_freq :: "int option"
  sr_cflist :: "string option"
  sr_joined :: int
  sr_joined_at :: "string option"
  sr_updated_at :: string

record event_row =
  er_id :: int
  er_ts :: string
  er_tag_id :: "int option"
  er_direction :: string
  er_kind :: string
  er_freq :: "int option"
  er_dr :: "int option"
  er_fcnt :: "int option"
  er_fport :: "int option"
  er_rssi :: "rat option"
  er_snr :: "rat option"
  er_payload_hex :: "string option"
  er_decoded :: "string option"
  er_result :: "string option"

record store =
  db_gateway :: "gateway_row option"
  db_tags :: "tag_row list"
  db_tag_seq :: int
  db_sessions :: "session_row list"
  db_events :: "event_row list"
  db_event_seq :: int
  db_faults :: "string option list"
  st_cipher :: cipher
  st_clock :: string
  st_entropy :: entropy

text \<open>\<open>store.New\<close> over a freshly migrated database.\<close>

definition store_New :: "cipher \<Rightarrow> store" where
  "store_New c =
     \<lparr>db_gateway = None, db_tags = [], db_tag_seq = 0, db_sessions = [], db_events = [],
      db_event_seq = 0, db_faults = [], st_cipher = c, st_clock = [], st_entropy = []\<rparr>"

text \<open>One SQL statement: its fault, if the environment has one for it.\<close>

definition sql_stmt :: "store \<Rightarrow> (unit, store) run" where
  "sql_stmt st =
     (case db_faults st of
        [] \<Rightarrow> (Inr (), st)
      | None # fs \<Rightarrow> (Inr (), st\<lparr>db_faults := fs\<rparr>)
      | Some m # fs \<Rightarrow> (Inl (Err m), st\<lparr>db_faults := fs\<rparr>))"

text \<open>A statement whose error the code wraps in a message.\<close>

definition sql_wrap :: "string \<Rightarrow> store \<Rightarrow> (unit, store) run" where
  "sql_wrap m st = (let (r, st') = sql_stmt st in (wrapE m r, st'))"

definition nullable :: "string \<Rightarrow> string option" where
  "nullable s = (if s = [] then None else Some s)"

definition boolToInt :: "bool \<Rightarrow> int" where
  "boolToInt b = (if b then 1 else 0)"

text \<open>\<open>sql.NullString.String\<close> and \<open>sql.NullInt64.Int64\<close>: the zero value for NULL.\<close>

definition null_string :: "string option \<Rightarrow> string" where
  "null_string v = (case v of None \<Rightarrow> [] | Some s \<Rightarrow> s)"

definition null_int :: "int option \<Rightarrow> int" where
  "null_int v = (case v of None \<Rightarrow> 0 | Some i \<Rightarrow> i)"

lemma null_string_nullable [simp]: "null_string (nullable s) = s"
  by (simp add: null_string_def nullable_def)

lemma boolToInt_nonzero [simp]: "boolToInt b \<noteq> 0 \<longleftrightarrow> b" "boolToInt b = 0 \<longleftrightarrow> \<not> b"
  by (simp_all add: boolToInt_def)

text \<open>
  Two stores with the same tables: they differ in the environment only (faults, clock, entropy).
\<close>

definition same_db :: "store \<Rightarrow> store \<Rightarrow> bool" where
  "same_db s t =
     (db_gateway s = db_gateway t \<and> db_tags s = db_tags t \<and> db_tag_seq s = db_tag_seq t \<and>
      db_sessions s = db_sessions t \<and> db_events s = db_events t \<and> db_event_seq s = db_event_seq t \<and>
      st_cipher s = st_cipher t)"

lemma same_db_refl [simp, intro]: "same_db s s"
  by (simp add: same_db_def)

lemma same_db_trans [trans]: "same_db s t \<Longrightarrow> same_db t u \<Longrightarrow> same_db s u"
  by (simp add: same_db_def)

text \<open>A working database: every statement runs.\<close>

definition db_up :: "store \<Rightarrow> bool" where
  "db_up st = (\<forall>f \<in> set (db_faults st). f = None)"

lemma sql_stmt_cases:
  obtains (fault) m fs where "sql_stmt st = (Inl (Err m), st\<lparr>db_faults := fs\<rparr>)"
    | (runs) fs where "sql_stmt st = (Inr (), st\<lparr>db_faults := fs\<rparr>)"
      "set fs \<subseteq> set (db_faults st)"
proof (cases "db_faults st")
  case Nil
  then have "st\<lparr>db_faults := []\<rparr> = st" by simp
  with Nil show ?thesis by (intro runs [of "[]"]) (simp_all add: sql_stmt_def)
next
  case (Cons f fs)
  then show ?thesis
    by (cases f) (auto simp: sql_stmt_def intro: fault [of _ fs] runs [of fs])
qed

lemma sql_stmt_up:
  assumes "db_up st"
  obtains fs where "sql_stmt st = (Inr (), st\<lparr>db_faults := fs\<rparr>)" "db_up (st\<lparr>db_faults := fs\<rparr>)"
proof (cases "db_faults st")
  case Nil
  then have "st\<lparr>db_faults := []\<rparr> = st" by simp
  with Nil show ?thesis by (intro that [of "[]"]) (simp_all add: sql_stmt_def db_up_def)
next
  case (Cons f fs)
  with assms have "f = None" by (simp add: db_up_def)
  with Cons assms show ?thesis by (intro that [of fs]) (simp_all add: sql_stmt_def db_up_def)
qed

lemma sql_wrap_cases:
  obtains (fault) e fs where "sql_wrap m st = (Inl (Wrap m e), st\<lparr>db_faults := fs\<rparr>)"
      "\<not> errors_Is e ErrNotFound"
    | (runs) fs where "sql_wrap m st = (Inr (), st\<lparr>db_faults := fs\<rparr>)"
  by (cases st rule: sql_stmt_cases) (auto simp: sql_wrap_def)

lemma sql_wrap_up:
  assumes "db_up st"
  obtains fs where "sql_wrap m st = (Inr (), st\<lparr>db_faults := fs\<rparr>)" "db_up (st\<lparr>db_faults := fs\<rparr>)"
proof -
  obtain fs where "sql_stmt st = (Inr (), st\<lparr>db_faults := fs\<rparr>)" "db_up (st\<lparr>db_faults := fs\<rparr>)"
    using sql_stmt_up [OF assms] by blast
  then show ?thesis by (intro that [of fs]) (simp_all add: sql_wrap_def)
qed

text \<open>
  Reasoning step for an operation: a statement either fails, with the tables as they are, or runs.
\<close>

lemma seq_stmt:
  assumes "\<And>m fs. Q (Inl (Err m), st\<lparr>db_faults := fs\<rparr>)"
    and "\<And>fs. Q (k () (st\<lparr>db_faults := fs\<rparr>))"
  shows "Q (seqE (sql_stmt st) k)"
  by (cases st rule: sql_stmt_cases) (simp_all add: assms)

lemma seq_wrap:
  assumes "\<And>e fs. \<not> errors_Is e ErrNotFound \<Longrightarrow> Q (Inl (Wrap m e), st\<lparr>db_faults := fs\<rparr>)"
    and "\<And>fs. Q (k () (st\<lparr>db_faults := fs\<rparr>))"
  shows "Q (seqE (sql_wrap m st) k)"
  by (cases m st rule: sql_wrap_cases) (simp_all add: assms)

lemma seq_stmt_up:
  assumes "db_up st" and "\<And>fs. db_up (st\<lparr>db_faults := fs\<rparr>) \<Longrightarrow> Q (k () (st\<lparr>db_faults := fs\<rparr>))"
  shows "Q (seqE (sql_stmt st) k)"
  by (rule sql_stmt_up [OF assms(1)]) (simp add: assms)

lemma seq_wrap_up:
  assumes "db_up st" and "\<And>fs. db_up (st\<lparr>db_faults := fs\<rparr>) \<Longrightarrow> Q (k () (st\<lparr>db_faults := fs\<rparr>))"
  shows "Q (seqE (sql_wrap m st) k)"
  by (rule sql_wrap_up [OF assms(1), of m]) (simp add: assms)

lemma db_up_faults [simp]: "db_up (st\<lparr>db_tags := a\<rparr>) = db_up st" "db_up (st\<lparr>db_tag_seq := n\<rparr>) = db_up st"
  "db_up (st\<lparr>db_sessions := b\<rparr>) = db_up st" "db_up (st\<lparr>db_events := c\<rparr>) = db_up st"
  "db_up (st\<lparr>db_event_seq := n\<rparr>) = db_up st" "db_up (st\<lparr>st_entropy := r\<rparr>) = db_up st"
  "db_up (st\<lparr>db_gateway := g\<rparr>) = db_up st"
  by (simp_all add: db_up_def)

lemma same_db_faults [simp]: "same_db (st\<lparr>db_faults := fs\<rparr>) t \<longleftrightarrow> same_db st t"
  "same_db t (st\<lparr>db_faults := fs\<rparr>) \<longleftrightarrow> same_db t st"
  by (simp_all add: same_db_def)

lemma same_db_entropy [simp]: "same_db (st\<lparr>st_entropy := r\<rparr>) t \<longleftrightarrow> same_db st t"
  "same_db t (st\<lparr>st_entropy := r\<rparr>) \<longleftrightarrow> same_db t st"
  by (simp_all add: same_db_def)

section \<open>The invariant of the tables\<close>

text \<open>
  Rows are in rowid order and ids are never above the sequence of their table; device EUIs are
  unique; sessions are 1:1 with tags; an event refers to a tag that exists; counters are in
  range; and a joined session has its address and keys.
\<close>

definition session_ok :: "session_row \<Rightarrow> bool" where
  "session_ok s =
     (0 \<le> sr_dev_nonce s \<and> 0 \<le> sr_fcnt_up s \<and> 0 \<le> sr_fcnt_down s \<and> sr_fcnt_down s < 2 ^ 32 \<and>
      (sr_joined s \<noteq> 0 \<longrightarrow>
         sr_dev_addr s \<noteq> None \<and> sr_nwk_skey s \<noteq> None \<and> sr_app_skey s \<noteq> None))"

definition tags_inv :: "store \<Rightarrow> bool" where
  "tags_inv st =
     (0 \<le> db_tag_seq st \<and> sorted_wrt (<) (map tr_id (db_tags st)) \<and>
      (\<forall>r \<in> set (db_tags st). 1 \<le> tr_id r \<and> tr_id r \<le> db_tag_seq st) \<and>
      distinct (map tr_dev_eui (db_tags st)))"

definition sessions_inv :: "store \<Rightarrow> bool" where
  "sessions_inv st =
     (map sr_tag_id (db_sessions st) = map tr_id (db_tags st) \<and>
      (\<forall>s \<in> set (db_sessions st). session_ok s))"

definition events_inv :: "store \<Rightarrow> bool" where
  "events_inv st =
     (0 \<le> db_event_seq st \<and> sorted_wrt (<) (map er_id (db_events st)) \<and>
      (\<forall>e \<in> set (db_events st). 1 \<le> er_id e \<and> er_id e \<le> db_event_seq st) \<and>
      (\<forall>e \<in> set (db_events st). \<forall>t. er_tag_id e = Some t \<longrightarrow> t \<in> tr_id ` set (db_tags st)))"

definition store_inv :: "store \<Rightarrow> bool" where
  "store_inv st = (tags_inv st \<and> sessions_inv st \<and> events_inv st)"

lemma store_inv_same: "same_db s t \<Longrightarrow> store_inv s \<longleftrightarrow> store_inv t"
  by (simp add: same_db_def store_inv_def tags_inv_def sessions_inv_def events_inv_def)

lemma store_inv_New: "store_inv (store_New c)"
  by (simp add: store_inv_def tags_inv_def sessions_inv_def events_inv_def store_New_def)

lemma sorted_less_distinct: "sorted_wrt (<) (xs :: int list) \<Longrightarrow> distinct xs"
  by (induction xs) auto

lemma sorted_less_sort_key:
  "sorted_wrt (<) (map f xs :: int list) \<Longrightarrow> sort_key f xs = xs"
  by (rule sort_key_id_if_sorted) (auto intro: sorted_wrt_mono_rel [of _ "(<)"])

end
