(* ===== verification/GatewayRepo.thy ===== *)
theory GatewayRepo
  imports Tables
begin

text \<open>
  The single gateway row (\<open>internal/store/gateway.go\<close>): reading it, creating it, overriding its EUI,
  editing its settings, and the resolution of the EUI at start-up.
\<close>

definition gateway_Get :: "store \<Rightarrow> (gateway_row, store) run" where
  "gateway_Get st =
     seqE (sql_wrap ''querying gateway'' st) (\<lambda>_ st.
       case db_gateway st of
         None \<Rightarrow> (Inl ErrNotFound, st)
       | Some g \<Rightarrow> (Inr g, st))"

text \<open>
  The inserted row takes the column defaults of the migration. A second insert violates the
  primary key.
\<close>

definition gateway_create :: "string \<Rightarrow> store \<Rightarrow> (gateway_row, store) run" where
  "gateway_create eui st =
     (let now = st_clock st in
      seqE (sql_wrap ''inserting gateway'' st) (\<lambda>_ st.
        case db_gateway st of
          Some _ \<Rightarrow> (Inl (Wrap ''inserting gateway'' (Err ''UNIQUE constraint failed: gateway.id'')), st)
        | None \<Rightarrow>
            gateway_Get (st\<lparr>db_gateway := Some
              \<lparr>g_eui = eui, g_region = ''EU868'', g_sub_band = 2, g_connection_mode = ''cups'',
               g_created_at = now, g_updated_at = now\<rparr>\<rparr>)))"

definition SetEUI :: "string \<Rightarrow> store \<Rightarrow> (gateway_row, store) run" where
  "SetEUI eui st =
     (case NormalizeEUI eui of
        Inl e \<Rightarrow> (Inl e, st)
      | Inr neui \<Rightarrow>
          (case gateway_Get st of
             (Inl e, st) \<Rightarrow>
               if errors_Is e ErrNotFound then gateway_create neui st else (Inl e, st)
           | (Inr _, st) \<Rightarrow>
               let now = st_clock st in
               seqE (sql_wrap ''updating gateway eui'' st) (\<lambda>_ st.
                 gateway_Get (st\<lparr>db_gateway :=
                   map_option (\<lambda>g. g\<lparr>g_eui := neui, g_updated_at := now\<rparr>) (db_gateway st)\<rparr>))))"

definition UpdateConfig :: "string \<Rightarrow> int \<Rightarrow> string \<Rightarrow> store \<Rightarrow> (gateway_row, store) run" where
  "UpdateConfig region subBand mode st =
     (let now = st_clock st in
      seqE (sql_wrap ''updating gateway config'' st) (\<lambda>_ st.
        case db_gateway st of
          None \<Rightarrow> (Inl ErrNotFound, st)
        | Some g \<Rightarrow>
            gateway_Get (st\<lparr>db_gateway := Some (g\<lparr>g_region := region, g_sub_band := subBand,
              g_connection_mode := mode, g_updated_at := now\<rparr>)\<rparr>)))"

definition EnsureEUI :: "string \<Rightarrow> string \<Rightarrow> store \<Rightarrow> (gateway_row, store) run" where
  "EnsureEUI configured prefix st =
     (if configured \<noteq> [] then SetEUI configured st
      else case gateway_Get st of
        (Inr g, st) \<Rightarrow> (Inr g, st)
      | (Inl e, st) \<Rightarrow>
          if \<not> errors_Is e ErrNotFound then (Inl e, st)
          else (case GenerateEUI prefix (st_entropy st) of
                  (Inl e, r) \<Rightarrow> (Inl e, st\<lparr>st_entropy := r\<rparr>)
                | (Inr eui, r) \<Rightarrow> gateway_create eui (st\<lparr>st_entropy := r\<rparr>)))"

text \<open>The stored identity is a valid EUI whenever there is one.\<close>

definition gateway_inv :: "store \<Rightarrow> bool" where
  "gateway_inv st = (\<forall>g. db_gateway st = Some g \<longrightarrow> valid_eui (g_eui g))"

section \<open>Each operation, on every branch\<close>

lemma gateway_Get_cases:
  obtains (fault) e fs where "gateway_Get st = (Inl e, st\<lparr>db_faults := fs\<rparr>)" "\<not> errors_Is e ErrNotFound"
    | (none) fs where "db_gateway st = None" "gateway_Get st = (Inl ErrNotFound, st\<lparr>db_faults := fs\<rparr>)"
    | (some) g fs where "db_gateway st = Some g" "gateway_Get st = (Inr g, st\<lparr>db_faults := fs\<rparr>)"
proof (cases "''querying gateway''" st rule: sql_wrap_cases)
  case (fault e fs)
  then show ?thesis
    by (intro that(1) [of "Wrap ''querying gateway'' e" fs]) (simp_all add: gateway_Get_def)
next
  case (runs fs)
  then show ?thesis
    by (cases "db_gateway st") (auto simp: gateway_Get_def intro: that)
qed

lemma gateway_Get_up:
  assumes "db_up st"
  obtains fs where "gateway_Get st =
      (case db_gateway st of None \<Rightarrow> Inl ErrNotFound | Some g \<Rightarrow> Inr g, st\<lparr>db_faults := fs\<rparr>)"
    "db_up (st\<lparr>db_faults := fs\<rparr>)"
proof -
  obtain fs where "sql_wrap ''querying gateway'' st = (Inr (), st\<lparr>db_faults := fs\<rparr>)"
    "db_up (st\<lparr>db_faults := fs\<rparr>)"
    using sql_wrap_up [OF assms] by blast
  then show ?thesis
    by (intro that [of fs]) (simp_all add: gateway_Get_def split: option.splits)
qed

lemma gateway_Get_up_Some:
  assumes "db_up st" and "db_gateway st = Some g"
  shows "\<exists>fs. gateway_Get st = (Inr g, st\<lparr>db_faults := fs\<rparr>) \<and> db_up (st\<lparr>db_faults := fs\<rparr>)"
  by (rule gateway_Get_up [OF assms(1)]) (use assms(2) in auto)

lemma gateway_Get_up_None:
  assumes "db_up st" and "db_gateway st = None"
  shows "\<exists>fs. gateway_Get st = (Inl ErrNotFound, st\<lparr>db_faults := fs\<rparr>) \<and> db_up (st\<lparr>db_faults := fs\<rparr>)"
  by (rule gateway_Get_up [OF assms(1)]) (use assms(2) in auto)

lemma gateway_Get_same [simp]: "gateway_Get st = (r, st') \<Longrightarrow> same_db st st'"
  by (cases st rule: gateway_Get_cases) auto

lemma gateway_Get_db [simp]: "db_gateway (snd (gateway_Get st)) = db_gateway st"
  by (cases st rule: gateway_Get_cases) auto

lemma gateway_inv_frame [simp]:
  "gateway_inv (st\<lparr>db_faults := fs\<rparr>) \<longleftrightarrow> gateway_inv st"
  "gateway_inv (st\<lparr>st_entropy := r\<rparr>) \<longleftrightarrow> gateway_inv st"
  "gateway_inv (snd (gateway_Get st)) \<longleftrightarrow> gateway_inv st"
  by (simp_all add: gateway_inv_def)

lemma gateway_inv_Some: "db_gateway st = Some g \<Longrightarrow> gateway_inv st \<longleftrightarrow> valid_eui (g_eui g)"
  by (simp add: gateway_inv_def)

lemma gateway_inv_set [simp]:
  "gateway_inv (st\<lparr>db_gateway := Some g\<rparr>) \<longleftrightarrow> valid_eui (g_eui g)"
  by (simp add: gateway_inv_def)

lemma gateway_create_inv:
  assumes "valid_eui eui" and "gateway_inv st"
  shows "gateway_inv (snd (gateway_create eui st))"
  by (cases "''inserting gateway''" st rule: sql_wrap_cases)
    (use assms in \<open>auto simp: gateway_create_def Let_def split: option.splits\<close>)

lemma SetEUI_inv:
  assumes "gateway_inv st"
  shows "gateway_inv (snd (SetEUI eui st))"
proof (cases "NormalizeEUI eui")
  case (Inr neui)
  then have v: "valid_eui neui" by (rule NormalizeEUI_valid)
  show ?thesis
  proof (cases st rule: gateway_Get_cases)
    case (none fs)
    with assms v Inr show ?thesis by (simp add: SetEUI_def gateway_create_inv)
  next
    case (some g fs)
    show ?thesis
      by (cases "''updating gateway eui''" "st\<lparr>db_faults := fs\<rparr>" rule: sql_wrap_cases)
        (use assms v Inr some in \<open>auto simp: SetEUI_def Let_def\<close>)
  qed (use assms Inr in \<open>auto simp: SetEUI_def\<close>)
qed (use assms in \<open>simp add: SetEUI_def\<close>)

lemma UpdateConfig_inv:
  assumes "gateway_inv st"
  shows "gateway_inv (snd (UpdateConfig region sb mode st))"
  by (cases "''updating gateway config''" st rule: sql_wrap_cases)
    (use assms in \<open>auto simp: UpdateConfig_def Let_def gateway_inv_Some split: option.splits\<close>)

lemma GenerateEUI_valid: "GenerateEUI p r = (Inr e, r') \<Longrightarrow> valid_eui e"
  by (metis GenerateEUI_Inr valid_eui_Encode)

lemma EnsureEUI_inv:
  assumes "gateway_inv st"
  shows "gateway_inv (snd (EnsureEUI configured prefix st))"
proof (cases "configured = []")
  case True
  show ?thesis
  proof (cases st rule: gateway_Get_cases)
    case (none fs)
    show ?thesis
      by (use none True assms in \<open>auto simp: EnsureEUI_def gateway_create_inv GenerateEUI_valid
            split: prod.splits sum.splits\<close>)
  qed (use True assms in \<open>auto simp: EnsureEUI_def\<close>)
qed (use assms SetEUI_inv in \<open>simp add: EnsureEUI_def\<close>)

definition new_gateway_row :: "string \<Rightarrow> string \<Rightarrow> gateway_row" where
  "new_gateway_row eui now =
     \<lparr>g_eui = eui, g_region = ''EU868'', g_sub_band = 2, g_connection_mode = ''cups'',
      g_created_at = now, g_updated_at = now\<rparr>"

lemma gateway_create_up:
  assumes "db_up st" and "db_gateway st = None"
  obtains fs where "gateway_create eui st =
      (Inr (new_gateway_row eui (st_clock st)),
       st\<lparr>db_faults := fs, db_gateway := Some (new_gateway_row eui (st_clock st))\<rparr>)"
proof -
  obtain fs where w: "sql_wrap ''inserting gateway'' st = (Inr (), st\<lparr>db_faults := fs\<rparr>)"
    and up: "db_up (st\<lparr>db_faults := fs\<rparr>)"
    using sql_wrap_up [OF assms(1)] by blast
  define g where "g = new_gateway_row eui (st_clock st)"
  let ?st = "st\<lparr>db_faults := fs, db_gateway := Some g\<rparr>"
  have "db_up ?st" "db_gateway ?st = Some g" using up by (simp_all add: db_up_def)
  then obtain gs where "gateway_Get ?st = (Inr g, ?st\<lparr>db_faults := gs\<rparr>)"
    using gateway_Get_up_Some by blast
  with w assms(2) have "gateway_create eui st = (Inr g, ?st\<lparr>db_faults := gs\<rparr>)"
    by (simp add: gateway_create_def g_def new_gateway_row_def Let_def)
  then show ?thesis by (intro that [of gs]) (simp add: g_def)
qed

lemma gateway_create_stores:
  assumes "db_up st" and "db_gateway st = None"
  shows "\<exists>g st'. gateway_create eui st = (Inr g, st') \<and> g_eui g = eui \<and> db_gateway st' = Some g"
proof -
  obtain fs where "gateway_create eui st =
      (Inr (new_gateway_row eui (st_clock st)),
       st\<lparr>db_faults := fs, db_gateway := Some (new_gateway_row eui (st_clock st))\<rparr>)"
    using gateway_create_up [OF assms] by blast
  then show ?thesis by (simp add: new_gateway_row_def)
qed

lemma SetEUI_up:
  assumes "db_up st" and "NormalizeEUI eui = Inr n"
  shows "\<exists>g st'. SetEUI eui st = (Inr g, st') \<and> g_eui g = n \<and> db_gateway st' = Some g"
proof (cases "db_gateway st")
  case None
  then obtain fs where g: "gateway_Get st = (Inl ErrNotFound, st\<lparr>db_faults := fs\<rparr>)"
    and up: "db_up (st\<lparr>db_faults := fs\<rparr>)"
    using gateway_Get_up_None [OF assms(1)] by blast
  have "\<exists>g st'. gateway_create n (st\<lparr>db_faults := fs\<rparr>) = (Inr g, st') \<and> g_eui g = n \<and> db_gateway st' = Some g"
    by (rule gateway_create_stores [OF up]) (simp add: None)
  with g assms(2) show ?thesis by (simp add: SetEUI_def)
next
  case (Some g0)
  then obtain fs where g: "gateway_Get st = (Inr g0, st\<lparr>db_faults := fs\<rparr>)"
    and up: "db_up (st\<lparr>db_faults := fs\<rparr>)"
    using gateway_Get_up_Some [OF assms(1)] by blast
  obtain gs where w: "sql_wrap ''updating gateway eui'' (st\<lparr>db_faults := fs\<rparr>) = (Inr (), st\<lparr>db_faults := gs\<rparr>)"
    and up': "db_up (st\<lparr>db_faults := gs\<rparr>)"
    using sql_wrap_up [OF up] by auto
  define h where "h = g0\<lparr>g_eui := n, g_updated_at := st_clock st\<rparr>"
  let ?st = "st\<lparr>db_faults := gs, db_gateway := Some h\<rparr>"
  have "db_up ?st" "db_gateway ?st = Some h" using up' by (simp_all add: db_up_def)
  then obtain hs where "gateway_Get ?st = (Inr h, ?st\<lparr>db_faults := hs\<rparr>)"
    using gateway_Get_up_Some by blast
  with g w Some assms(2) show ?thesis by (simp add: SetEUI_def h_def)
qed

section \<open>Properties\<close>

text \<open>C26: start-up resolution of the gateway identity on a working database. A configured EUI is
  normalised and persisted whatever is stored; with none configured a stored gateway is returned
  unchanged; with neither, a fresh valid EUI is generated and persisted. In each case the returned
  row is the stored one.\<close>

theorem ensure_eui_precedence:
  assumes "db_up st" and "configured = [] \<or> is_ok (NormalizeEUI configured)"
    and "is_ok (eui_head (strings_ToLower (strings_TrimSpace prefix)))" and "8 \<le> length (st_entropy st)"
  shows "\<exists>g st'. EnsureEUI configured prefix st = (Inr g, st') \<and> db_gateway st' = Some g
    \<and> (configured \<noteq> [] \<longrightarrow> NormalizeEUI configured = Inr (g_eui g))
    \<and> (configured = [] \<and> db_gateway st \<noteq> None \<longrightarrow> db_gateway st = Some g)
    \<and> (configured = [] \<and> db_gateway st = None \<longrightarrow>
         fst (GenerateEUI prefix (st_entropy st)) = Inr (g_eui g) \<and> valid_eui (g_eui g))"
proof (cases "configured = []")
  case False
  with assms(2) obtain n where n: "NormalizeEUI configured = Inr n" by (auto simp: is_ok_iff)
  with SetEUI_up [OF assms(1) n] False show ?thesis by (auto simp: EnsureEUI_def)
next
  case True
  show ?thesis
  proof (cases "db_gateway st")
    case (Some g)
    with True gateway_Get_up_Some [OF assms(1) Some] show ?thesis by (auto simp: EnsureEUI_def)
  next
    case None
    then obtain fs where g: "gateway_Get st = (Inl ErrNotFound, st\<lparr>db_faults := fs\<rparr>)"
      and up: "db_up (st\<lparr>db_faults := fs\<rparr>)"
      using gateway_Get_up_None [OF assms(1)] by blast
    obtain e r where e: "GenerateEUI prefix (st_entropy st) = (Inr e, r)"
      using GenerateEUI_ok [OF assms(3,4)] by (metis is_ok_iff prod.collapse)
    have up': "db_up (st\<lparr>db_faults := fs, st_entropy := r\<rparr>)" using up by (simp add: db_up_def)
    have "\<exists>g st'. gateway_create e (st\<lparr>db_faults := fs, st_entropy := r\<rparr>) = (Inr g, st') \<and>
        g_eui g = e \<and> db_gateway st' = Some g"
      by (rule gateway_create_stores [OF up']) (simp add: None)
    with True g e None GenerateEUI_valid [OF e] show ?thesis
      by (auto simp: EnsureEUI_def)
  qed
qed

theorem ensure_eui_precedence_witness:
  "\<exists>g st'. EnsureEUI '' AABBCCDDEEFF0011'' [] (store_New NewInsecureDisabled\<lparr>st_entropy := [1,2,3,4,5,6,7,8]\<rparr>)
     = (Inr g, st') \<and> g_eui g = ''aabbccddeeff0011''"
proof -
  have n: "NormalizeEUI '' AABBCCDDEEFF0011'' = Inr ''aabbccddeeff0011''" by code_simp
  have "eui_head (strings_ToLower (strings_TrimSpace [])) = Inr []" by code_simp
  then have "\<exists>g st'. EnsureEUI '' AABBCCDDEEFF0011'' [] (store_New NewInsecureDisabled\<lparr>st_entropy := [1,2,3,4,5,6,7,8]\<rparr>)
     = (Inr g, st') \<and> NormalizeEUI '' AABBCCDDEEFF0011'' = Inr (g_eui g)"
    using ensure_eui_precedence [of "store_New NewInsecureDisabled\<lparr>st_entropy := [1,2,3,4,5,6,7,8]\<rparr>"
      "'' AABBCCDDEEFF0011''" "[]"] n
    by (auto simp: db_up_def store_New_def)
  with n show ?thesis by auto
qed

end
