(* ===== verification/TagRepo.thy ===== *)
theory TagRepo
  imports Tables
begin

text \<open>
  The tag repository (\<open>internal/store/tags.go\<close>): creating a tag with its session row in one
  transaction, reading tags with their AppKey decrypted, listing and deleting them.
\<close>

record tag =
  t_ID :: int
  t_DevEUI :: string
  t_JoinEUI :: string
  t_AppKey :: string
  t_Class :: string
  t_Region :: string
  t_SubBand :: int
  t_DefaultDR :: int
  t_FPort :: int
  t_PayloadType :: string
  t_PayloadConfig :: string
  t_Schedule :: string
  t_Enabled :: bool
  t_CreatedAt :: string
  t_UpdatedAt :: string

record new_tag =
  nt_DevEUI :: string
  nt_JoinEUI :: string
  nt_AppKey :: string
  nt_Class :: string
  nt_Region :: string
  nt_SubBand :: int
  nt_DefaultDR :: int
  nt_FPort :: int
  nt_PayloadType :: string
  nt_PayloadConfig :: string
  nt_Schedule :: string
  nt_Enabled :: bool

definition tagAAD :: "string \<Rightarrow> string \<Rightarrow> bytes" where
  "tagAAD devEUI column = bytes_of_string (''tag|'' @ devEUI @ ''|'' @ column)"

definition find_tag :: "int \<Rightarrow> store \<Rightarrow> tag_row option" where
  "find_tag tid st = find (\<lambda>r. tr_id r = tid) (db_tags st)"

text \<open>A scanned row, with its AppKey decrypted and NULL columns as empty strings.\<close>

definition scanTag :: "cipher \<Rightarrow> tag_row \<Rightarrow> tag res" where
  "scanTag c r =
     bindE (wrapE ''decrypting app_key'' (Decrypt c (tr_app_key r) (tagAAD (tr_dev_eui r) ''app_key''))) (\<lambda>appKey.
     Inr \<lparr>t_ID = tr_id r, t_DevEUI = tr_dev_eui r, t_JoinEUI = tr_join_eui r, t_AppKey = appKey,
          t_Class = tr_class r, t_Region = tr_region r, t_SubBand = tr_sub_band r,
          t_DefaultDR = tr_default_dr r, t_FPort = tr_fport r, t_PayloadType = tr_payload_type r,
          t_PayloadConfig = null_string (tr_payload_config r), t_Schedule = null_string (tr_schedule r),
          t_Enabled = (tr_enabled r \<noteq> 0), t_CreatedAt = tr_created_at r, t_UpdatedAt = tr_updated_at r\<rparr>)"

definition tags_Get :: "int \<Rightarrow> store \<Rightarrow> (tag, store) run" where
  "tags_Get tid st =
     seqE (sql_wrap ''scanning tag'' st) (\<lambda>_ st.
       case find_tag tid st of
         None \<Rightarrow> (Inl ErrNotFound, st)
       | Some r \<Rightarrow> (scanTag (st_cipher st) r, st))"

definition tags_GetByDevEUI :: "string \<Rightarrow> store \<Rightarrow> (tag, store) run" where
  "tags_GetByDevEUI devEUI st =
     seqE (sql_wrap ''scanning tag'' st) (\<lambda>_ st.
       case find (\<lambda>r. tr_dev_eui r = devEUI) (db_tags st) of
         None \<Rightarrow> (Inl ErrNotFound, st)
       | Some r \<Rightarrow> (scanTag (st_cipher st) r, st))"

text \<open>The loop over the rows of \<open>List\<close>: the first row that fails to scan ends it.\<close>

fun scan_tags :: "cipher \<Rightarrow> tag_row list \<Rightarrow> tag list res" where
  "scan_tags c [] = Inr []"
| "scan_tags c (r # rs) = bindE (scanTag c r) (\<lambda>t. bindE (scan_tags c rs) (\<lambda>ts. Inr (t # ts)))"

definition tags_List :: "store \<Rightarrow> (tag list, store) run" where
  "tags_List st =
     seqE (sql_wrap ''listing tags'' st) (\<lambda>_ st.
       case scan_tags (st_cipher st) (sort_key tr_id (db_tags st)) of
         Inl e \<Rightarrow> (Inl e, st)
       | Inr out \<Rightarrow> seqE (sql_stmt st) (\<lambda>_ st. (Inr out, st)))"

definition tag_row_of :: "int \<Rightarrow> new_tag \<Rightarrow> string \<Rightarrow> string \<Rightarrow> tag_row" where
  "tag_row_of tid nt encKey now =
     \<lparr>tr_id = tid, tr_dev_eui = nt_DevEUI nt, tr_join_eui = nt_JoinEUI nt, tr_app_key = encKey,
      tr_class = nt_Class nt, tr_region = nt_Region nt, tr_sub_band = nt_SubBand nt,
      tr_default_dr = nt_DefaultDR nt, tr_fport = nt_FPort nt, tr_payload_type = nt_PayloadType nt,
      tr_payload_config = nullable (nt_PayloadConfig nt), tr_schedule = nullable (nt_Schedule nt),
      tr_enabled = boolToInt (nt_Enabled nt), tr_created_at = now, tr_updated_at = now\<rparr>"

definition session_row_of :: "int \<Rightarrow> string \<Rightarrow> session_row" where
  "session_row_of tid now =
     \<lparr>sr_tag_id = tid, sr_dev_addr = None, sr_nwk_skey = None, sr_app_skey = None, sr_fcnt_up = 0,
      sr_fcnt_down = 0, sr_dev_nonce = 0, sr_rx_delay = None, sr_rx1_dr_offset = None,
      sr_rx2_dr = None, sr_rx2_freq = None, sr_cflist = None, sr_joined = 0, sr_joined_at = None,
      sr_updated_at = now\<rparr>"

text \<open>
  The transaction: begin, the two inserts, commit. Nothing is stored before the commit, so a
  failure up to there rolls back both rows.
\<close>

definition tags_Create :: "new_tag \<Rightarrow> store \<Rightarrow> (tag, store) run" where
  "tags_Create nt st =
     (case Encrypt (st_cipher st) (nt_AppKey nt) (tagAAD (nt_DevEUI nt) ''app_key'') (st_entropy st) of
        (Inl e, r) \<Rightarrow> (Inl (Wrap ''encrypting app_key'' e), st\<lparr>st_entropy := r\<rparr>)
      | (Inr encKey, r) \<Rightarrow>
          let now = st_clock st in
          seqE (sql_stmt (st\<lparr>st_entropy := r\<rparr>)) (\<lambda>_ st.
          seqE (sql_wrap ''inserting tag'' st) (\<lambda>_ st.
            if nt_DevEUI nt \<in> tr_dev_eui ` set (db_tags st) then
              (Inl (Wrap ''inserting tag'' (Err ''UNIQUE constraint failed: tags.dev_eui'')), st)
            else
              let tid = db_tag_seq st + 1 in
              seqE (sql_wrap ''inserting session'' st) (\<lambda>_ st.
                if tid \<in> sr_tag_id ` set (db_sessions st) then
                  (Inl (Wrap ''inserting session'' (Err ''UNIQUE constraint failed: sessions.tag_id'')), st)
                else
                  seqE (sql_stmt st) (\<lambda>_ st.
                    tags_Get tid (st\<lparr>db_tags := db_tags st @ [tag_row_of tid nt encKey now],
                      db_tag_seq := tid,
                      db_sessions := db_sessions st @ [session_row_of tid now]\<rparr>))))))"

text \<open>Deleting a tag cascades to its session and detaches its events.\<close>

definition tags_Delete :: "int \<Rightarrow> store \<Rightarrow> (unit, store) run" where
  "tags_Delete tid st =
     seqE (sql_wrap ''deleting tag'' st) (\<lambda>_ st.
       if find_tag tid st = None then (Inl ErrNotFound, st)
       else (Inr (), st\<lparr>db_tags := filter (\<lambda>r. tr_id r \<noteq> tid) (db_tags st),
              db_sessions := filter (\<lambda>s. sr_tag_id s \<noteq> tid) (db_sessions st),
              db_events := map (\<lambda>e. if er_tag_id e = Some tid then e\<lparr>er_tag_id := None\<rparr> else e) (db_events st)\<rparr>))"

section \<open>Each operation, on every branch\<close>

lemma tagAAD_inject [simp]: "tagAAD a c = tagAAD b c \<longleftrightarrow> a = b"
  by (simp add: tagAAD_def)

lemma find_tag_Some:
  assumes "tags_inv st"
  shows "find_tag tid st = Some r \<longleftrightarrow> r \<in> set (db_tags st) \<and> tr_id r = tid"
proof -
  have "distinct (map tr_id (db_tags st))" using assms by (simp add: tags_inv_def sorted_less_distinct)
  then show ?thesis by (simp add: find_tag_def find_Some_iff_distinct)
qed

lemma find_tag_None: "find_tag tid st = None \<longleftrightarrow> tid \<notin> tr_id ` set (db_tags st)"
  by (simp add: find_tag_def find_None_key)

lemma find_tag_frame [simp]:
  "find_tag tid (st\<lparr>db_faults := fs\<rparr>) = find_tag tid st"
  by (simp add: find_tag_def)

lemma tags_Get_cases:
  obtains (fault) e fs where "tags_Get tid st = (Inl e, st\<lparr>db_faults := fs\<rparr>)" "\<not> errors_Is e ErrNotFound"
    | (none) fs where "find_tag tid st = None" "tags_Get tid st = (Inl ErrNotFound, st\<lparr>db_faults := fs\<rparr>)"
    | (row) r fs where "find_tag tid st = Some r"
        "tags_Get tid st = (scanTag (st_cipher st) r, st\<lparr>db_faults := fs\<rparr>)"
proof (cases "''scanning tag''" st rule: sql_wrap_cases)
  case (fault e fs)
  then show ?thesis
    by (intro that(1) [of "Wrap ''scanning tag'' e" fs]) (simp_all add: tags_Get_def)
next
  case (runs fs)
  then show ?thesis
    by (cases "find_tag tid st") (auto simp: tags_Get_def intro: that)
qed

lemma tags_Get_same: "same_db st (snd (tags_Get tid st))"
  by (cases tid st rule: tags_Get_cases) auto

lemma tags_Get_up:
  assumes "db_up st"
  obtains fs where "tags_Get tid st =
      (case find_tag tid st of None \<Rightarrow> Inl ErrNotFound | Some r \<Rightarrow> scanTag (st_cipher st) r, st\<lparr>db_faults := fs\<rparr>)"
    "db_up (st\<lparr>db_faults := fs\<rparr>)"
proof -
  obtain fs where "sql_wrap ''scanning tag'' st = (Inr (), st\<lparr>db_faults := fs\<rparr>)"
    "db_up (st\<lparr>db_faults := fs\<rparr>)"
    using sql_wrap_up [OF assms] by blast
  then show ?thesis
    by (intro that [of fs]) (simp_all add: tags_Get_def split: option.splits)
qed

lemma tags_Get_up_row:
  assumes "db_up st" and "find_tag tid st = Some r"
  shows "\<exists>fs. tags_Get tid st = (scanTag (st_cipher st) r, st\<lparr>db_faults := fs\<rparr>) \<and>
    db_up (st\<lparr>db_faults := fs\<rparr>)"
  by (rule tags_Get_up [OF assms(1), of tid]) (use assms(2) in auto)

lemma tags_GetByDevEUI_same: "same_db st (snd (tags_GetByDevEUI d st))"
  by (cases "''scanning tag''" st rule: sql_wrap_cases)
    (auto simp: tags_GetByDevEUI_def split: option.splits)

lemma tags_List_same: "same_db st (snd (tags_List st))"
proof (cases "''listing tags''" st rule: sql_wrap_cases)
  case (runs fs)
  show ?thesis
    by (cases "st\<lparr>db_faults := fs\<rparr>" rule: sql_stmt_cases)
      (use runs in \<open>auto simp: tags_List_def split: sum.splits\<close>)
qed (simp add: tags_List_def)

text \<open>The store after the transaction of \<open>Create\<close> has committed.\<close>

definition insert_tag :: "new_tag \<Rightarrow> string \<Rightarrow> store \<Rightarrow> store" where
  "insert_tag nt encKey st =
     st\<lparr>db_tags := db_tags st @ [tag_row_of (db_tag_seq st + 1) nt encKey (st_clock st)],
       db_tag_seq := db_tag_seq st + 1,
       db_sessions := db_sessions st @ [session_row_of (db_tag_seq st + 1) (st_clock st)]\<rparr>"

text \<open>
  Either nothing was stored and the result is an error, or both rows were, and the result is what
  reading the new tag gives.
\<close>

lemma tags_Create_cases:
  obtains (rolled_back) e st' where "tags_Create nt st = (Inl e, st')" "same_db st st'"
    | (committed) encKey ent fs where
        "Encrypt (st_cipher st) (nt_AppKey nt) (tagAAD (nt_DevEUI nt) ''app_key'') (st_entropy st) = (Inr encKey, ent)"
        "nt_DevEUI nt \<notin> tr_dev_eui ` set (db_tags st)"
        "db_tag_seq st + 1 \<notin> sr_tag_id ` set (db_sessions st)"
        "tags_Create nt st =
           tags_Get (db_tag_seq st + 1) (insert_tag nt encKey (st\<lparr>st_entropy := ent, db_faults := fs\<rparr>))"
proof (cases "Encrypt (st_cipher st) (nt_AppKey nt) (tagAAD (nt_DevEUI nt) ''app_key'') (st_entropy st)")
  case (Pair r ent)
  show ?thesis
  proof (cases r)
    case (Inl e)
    with Pair show ?thesis
      by (intro rolled_back [of "Wrap ''encrypting app_key'' e" "st\<lparr>st_entropy := ent\<rparr>"])
        (simp_all add: tags_Create_def)
  next
    case (Inr k)
    let ?done = "\<lambda>m. (\<exists>e st'. m = (Inl e, st') \<and> same_db st st') \<or>
      (\<exists>fs. nt_DevEUI nt \<notin> tr_dev_eui ` set (db_tags st) \<and>
            db_tag_seq st + 1 \<notin> sr_tag_id ` set (db_sessions st) \<and>
            m = tags_Get (db_tag_seq st + 1) (insert_tag nt k (st\<lparr>st_entropy := ent, db_faults := fs\<rparr>)))"
    have "?done (tags_Create nt st)"
      unfolding tags_Create_def Pair Inr prod.case sum.case Let_def
      apply (rule seq_stmt, simp)
      apply (rule seq_wrap, simp)
      apply (rule if_split [THEN iffD2], rule conjI, simp, rule impI)
      apply (rule seq_wrap, simp)
      apply (rule if_split [THEN iffD2], rule conjI, simp, rule impI)
      apply (rule seq_stmt, simp)
      apply (rule disjI2, simp add: insert_tag_def, metis)
      done
    with Pair Inr that show ?thesis by blast
  qed
qed

lemma insert_tag_inv:
  assumes "store_inv st" and "nt_DevEUI nt \<notin> tr_dev_eui ` set (db_tags st)"
  shows "store_inv (insert_tag nt encKey st)"
  unfolding store_inv_def
proof (intro conjI)
  show "tags_inv (insert_tag nt encKey st)"
    using assms by (fastforce simp: store_inv_def tags_inv_def insert_tag_def tag_row_of_def
        sorted_wrt_less_append_last)
  show "sessions_inv (insert_tag nt encKey st)"
    using assms by (auto simp: store_inv_def sessions_inv_def insert_tag_def tag_row_of_def
        session_row_of_def session_ok_def)
  show "events_inv (insert_tag nt encKey st)"
    using assms by (auto simp: store_inv_def events_inv_def insert_tag_def)
qed

lemma tags_Create_inv:
  assumes "store_inv st"
  shows "store_inv (snd (tags_Create nt st))"
proof (cases nt st rule: tags_Create_cases)
  case (rolled_back e st')
  with assms show ?thesis by (simp add: store_inv_same [of st st'])
next
  case (committed k ent fs)
  let ?s = "insert_tag nt k (st\<lparr>st_entropy := ent, db_faults := fs\<rparr>)"
  have "store_inv (st\<lparr>st_entropy := ent, db_faults := fs\<rparr>)"
    using assms by (rule store_inv_same [THEN iffD1, rotated]) simp
  then have "store_inv ?s" using committed(2) by (intro insert_tag_inv) simp_all
  then show ?thesis
    using tags_Get_same [of ?s] store_inv_same committed(4) by metis
qed

lemma map_tr_id_filter:
  "map f xs = map g ys \<Longrightarrow> map f (filter (\<lambda>x. f x \<noteq> k) xs) = map g (filter (\<lambda>y. g y \<noteq> k) ys)"
  by (induction xs arbitrary: ys) auto

lemma image_filter_key: "f ` {x \<in> A. f x \<noteq> k} = f ` A - {k}"
  by auto

lemma tags_Delete_inv:
  assumes "store_inv st"
  shows "store_inv (snd (tags_Delete tid st))"
  unfolding tags_Delete_def
proof (rule seq_wrap)
  fix e fs
  show "store_inv (snd (Inl (Wrap ''deleting tag'' e) :: unit res, st\<lparr>db_faults := fs\<rparr>))"
    using assms store_inv_same [of st "st\<lparr>db_faults := fs\<rparr>"] by simp
next
  fix fs
  let ?st = "st\<lparr>db_faults := fs\<rparr>"
  let ?del = "?st\<lparr>db_tags := filter (\<lambda>r. tr_id r \<noteq> tid) (db_tags ?st),
              db_sessions := filter (\<lambda>s. sr_tag_id s \<noteq> tid) (db_sessions ?st),
              db_events := map (\<lambda>e. if er_tag_id e = Some tid then e\<lparr>er_tag_id := None\<rparr> else e) (db_events ?st)\<rparr>"
  have inv: "store_inv ?st" using assms store_inv_same [of st ?st] by simp
  have "map er_id (db_events ?del) = map er_id (db_events st)" by simp
  then have "store_inv ?del"
    using assms map_tr_id_filter [of sr_tag_id "db_sessions st" tr_id "db_tags st" tid]
    by (auto simp: store_inv_def tags_inv_def sessions_inv_def events_inv_def
        filter_le_antimono distinct_map_filter image_filter_key simp del: map_map)
  with inv show "store_inv (snd (if find_tag tid ?st = None then (Inl ErrNotFound :: unit res, ?st) else (Inr (), ?del)))"
    by simp
qed

lemma Decrypt_Encrypt_column:
  "protects c p \<Longrightarrow> Encrypt c p d r = (Inr s, r') \<Longrightarrow> Decrypt c s d = Inr p"
  by (rule col.dec_enc)

text \<open>The tag that a created row reads back as.\<close>

definition tag_of_new :: "int \<Rightarrow> new_tag \<Rightarrow> string \<Rightarrow> tag" where
  "tag_of_new tid nt now =
     \<lparr>t_ID = tid, t_DevEUI = nt_DevEUI nt, t_JoinEUI = nt_JoinEUI nt, t_AppKey = nt_AppKey nt,
      t_Class = nt_Class nt, t_Region = nt_Region nt, t_SubBand = nt_SubBand nt,
      t_DefaultDR = nt_DefaultDR nt, t_FPort = nt_FPort nt, t_PayloadType = nt_PayloadType nt,
      t_PayloadConfig = nt_PayloadConfig nt, t_Schedule = nt_Schedule nt,
      t_Enabled = nt_Enabled nt, t_CreatedAt = now, t_UpdatedAt = now\<rparr>"

lemma scanTag_created:
  assumes "Decrypt c k (tagAAD (nt_DevEUI nt) ''app_key'') = Inr (nt_AppKey nt)"
  shows "scanTag c (tag_row_of tid nt k now) = Inr (tag_of_new tid nt now)"
  using assms by (simp add: scanTag_def tag_row_of_def tag_of_new_def)

lemma find_tag_insert:
  assumes "store_inv st"
  shows "find_tag (db_tag_seq st + 1) (insert_tag nt k st) =
    Some (tag_row_of (db_tag_seq st + 1) nt k (st_clock st))"
proof -
  have "db_tag_seq st + 1 \<notin> tr_id ` set (db_tags st)"
    using assms by (force simp: store_inv_def tags_inv_def)
  then have "find (\<lambda>r. tr_id r = db_tag_seq st + 1) (db_tags st) = None"
    by (simp only: find_None_key) simp
  then show ?thesis by (simp add: find_tag_def insert_tag_def find_append tag_row_of_def)
qed

lemma session_id_fresh: "store_inv st \<Longrightarrow> db_tag_seq st + 1 \<notin> sr_tag_id ` set (db_sessions st)"
proof -
  assume inv: "store_inv st"
  have "sr_tag_id ` set (db_sessions st) = tr_id ` set (db_tags st)"
    using inv by (simp add: store_inv_def sessions_inv_def flip: set_map)
  with inv show ?thesis by (force simp: store_inv_def tags_inv_def)
qed

lemma insert_tag_env:
  "db_tag_seq (insert_tag nt k (st\<lparr>st_entropy := r, db_faults := fs\<rparr>)) = db_tag_seq st + 1"
  "st_cipher (insert_tag nt k st) = st_cipher st" "st_clock (insert_tag nt k st) = st_clock st"
  "db_up (insert_tag nt k st) = db_up st"
  by (simp_all add: insert_tag_def)

text \<open>On a working database \<open>Create\<close> commits, and then reads the new row.\<close>

lemma tags_Create_up:
  assumes "db_up st" and "store_inv st" and "nt_DevEUI nt \<notin> tr_dev_eui ` set (db_tags st)"
    and "Encrypt (st_cipher st) (nt_AppKey nt) (tagAAD (nt_DevEUI nt) ''app_key'') (st_entropy st) = (Inr k, ent)"
  shows "\<exists>fs. tags_Create nt st =
      (scanTag (st_cipher st) (tag_row_of (db_tag_seq st + 1) nt k (st_clock st)),
       insert_tag nt k (st\<lparr>st_entropy := ent, db_faults := fs\<rparr>))
    \<and> db_up (insert_tag nt k (st\<lparr>st_entropy := ent, db_faults := fs\<rparr>))"
    (is "?P (tags_Create nt st)")
proof -
  have get: "?P (tags_Get (db_tag_seq st + 1) (insert_tag nt k (st\<lparr>st_entropy := ent, db_faults := fs\<rparr>)))"
    if up: "db_up (st\<lparr>st_entropy := ent, db_faults := fs\<rparr>)" for fs
  proof -
    let ?s = "insert_tag nt k (st\<lparr>st_entropy := ent, db_faults := fs\<rparr>)"
    have "store_inv (st\<lparr>st_entropy := ent, db_faults := fs\<rparr>)"
      using assms(2) by (rule store_inv_same [THEN iffD1, rotated]) simp
    from find_tag_insert [OF this, of nt k]
    have f: "find_tag (db_tag_seq st + 1) ?s = Some (tag_row_of (db_tag_seq st + 1) nt k (st_clock st))"
      by simp
    have ups: "db_up ?s" using up by (simp add: insert_tag_env)
    have c: "st_cipher ?s = st_cipher st" by (simp add: insert_tag_def)
    obtain gs where gs: "tags_Get (db_tag_seq st + 1) ?s =
        (scanTag (st_cipher ?s) (tag_row_of (db_tag_seq st + 1) nt k (st_clock st)), ?s\<lparr>db_faults := gs\<rparr>)"
      "db_up (?s\<lparr>db_faults := gs\<rparr>)"
      using tags_Get_up_row [OF ups f] by blast
    have e: "?s\<lparr>db_faults := gs\<rparr> = insert_tag nt k (st\<lparr>st_entropy := ent, db_faults := gs\<rparr>)"
      by (simp add: insert_tag_def)
    show ?thesis
      by (rule exI [of _ gs]) (use gs in \<open>simp only: c e simp_thms\<close>)
  qed
  show ?thesis
    unfolding tags_Create_def assms(4) prod.case sum.case Let_def
    apply (rule seq_stmt_up, simp add: assms(1))
    apply (rule seq_wrap_up, simp)
    apply (subst if_not_P, simp add: assms(3))
    apply (rule seq_wrap_up, simp)
    apply (subst if_not_P, simp add: session_id_fresh [OF assms(2)])
    apply (rule seq_stmt_up, simp)
    apply (use get in \<open>simp add: insert_tag_def\<close>)
    done
qed

lemma scan_tags_append:
  "scan_tags c (xs @ ys) = bindE (scan_tags c xs) (\<lambda>ts. bindE (scan_tags c ys) (\<lambda>us. Inr (ts @ us)))"
proof (induction xs)
  case (Cons x xs)
  then show ?case
    by (cases "scanTag c x"; cases "scan_tags c xs"; cases "scan_tags c ys") simp_all
qed (cases "scan_tags c ys", simp_all)

lemma scan_tags_ok_iff: "is_ok (scan_tags c rs) \<longleftrightarrow> (\<forall>r \<in> set rs. is_ok (scanTag c r))"
proof (induction rs)
  case (Cons r rs)
  then show ?case by (cases "scanTag c r"; cases "scan_tags c rs") auto
qed simp

lemma tags_List_up:
  assumes "db_up st"
  shows "fst (tags_List st) = scan_tags (st_cipher st) (sort_key tr_id (db_tags st))"
  unfolding tags_List_def
  by (rule seq_wrap_up [OF assms])
    (auto split: sum.splits intro: seq_stmt_up [where Q = "\<lambda>m. fst m = _"])

lemma tags_List_unreadable:
  assumes "r \<in> set (db_tags st)" and "\<not> is_ok (scanTag (st_cipher st) r)"
  shows "\<not> is_ok (fst (tags_List st))"
proof -
  have bad: "\<not> is_ok (scan_tags (st_cipher st) (sort_key tr_id (db_tags st)))"
    using assms by (auto simp: scan_tags_ok_iff)
  show ?thesis
    unfolding tags_List_def
    by (rule seq_wrap) (use bad in \<open>auto simp: is_ok_def split: sum.splits\<close>)
qed

section \<open>Properties\<close>

text \<open>C22: on a working database, creating a tag with a new DevEUI returns a tag with exactly the given
  fields under an id never used before; reading that id afterwards gives the same tag with its
  AppKey decrypted; and listing gives the earlier tags followed by it.\<close>

theorem create_tag_roundtrip:
  assumes "db_up st" and "store_inv st" and "nt_DevEUI nt \<notin> tr_dev_eui ` set (db_tags st)"
    and "protects (st_cipher st) (nt_AppKey nt)"
    and "Encrypt (st_cipher st) (nt_AppKey nt) (tagAAD (nt_DevEUI nt) ''app_key'') (st_entropy st) = (Inr k, ent)"
  shows "\<exists>st'. tags_Create nt st = (Inr (tag_of_new (db_tag_seq st + 1) nt (st_clock st)), st')
    \<and> fst (tags_Get (db_tag_seq st + 1) st') = Inr (tag_of_new (db_tag_seq st + 1) nt (st_clock st))
    \<and> (\<forall>r \<in> set (db_tags st). tr_id r < db_tag_seq st + 1)
    \<and> (\<forall>old. fst (tags_List st) = Inr old \<longrightarrow>
          fst (tags_List st') = Inr (old @ [tag_of_new (db_tag_seq st + 1) nt (st_clock st)]))"
proof -
  let ?id = "db_tag_seq st + 1"
  let ?row = "tag_row_of ?id nt k (st_clock st)"
  have scan: "scanTag (st_cipher st) ?row = Inr (tag_of_new ?id nt (st_clock st))"
    by (rule scanTag_created) (rule Decrypt_Encrypt_column [OF assms(4,5)])
  obtain fs where c: "tags_Create nt st =
      (Inr (tag_of_new ?id nt (st_clock st)), insert_tag nt k (st\<lparr>st_entropy := ent, db_faults := fs\<rparr>))"
    and up: "db_up (insert_tag nt k (st\<lparr>st_entropy := ent, db_faults := fs\<rparr>))"
    using tags_Create_up [OF assms(1,2,3,5)] scan by auto
  define s' where "s' = insert_tag nt k (st\<lparr>st_entropy := ent, db_faults := fs\<rparr>)"
  have inv0: "store_inv (st\<lparr>st_entropy := ent, db_faults := fs\<rparr>)"
    using assms(2) by (rule store_inv_same [THEN iffD1, rotated]) simp
  have ciph: "st_cipher s' = st_cipher st" and tags: "db_tags s' = db_tags st @ [?row]"
    by (simp_all add: s'_def insert_tag_def)
  have found: "find_tag ?id s' = Some ?row"
    using find_tag_insert [OF inv0, of nt k] by (simp add: s'_def)
  have get: "fst (tags_Get ?id s') = Inr (tag_of_new ?id nt (st_clock st))"
    using tags_Get_up_row [OF up [folded s'_def] found] scan ciph by auto
  have inv': "store_inv s'"
    unfolding s'_def by (rule insert_tag_inv [OF inv0]) (use assms(3) in simp)
  have sorted: "sort_key tr_id (db_tags st) = db_tags st" "sort_key tr_id (db_tags s') = db_tags s'"
    using assms(2) inv' by (simp_all add: store_inv_def tags_inv_def sorted_less_sort_key)
  have "fst (tags_List s') = Inr (old @ [tag_of_new ?id nt (st_clock st)])"
    if "fst (tags_List st) = Inr old" for old
    using that tags_List_up [OF assms(1)] tags_List_up [OF up [folded s'_def]] sorted tags ciph scan
    by (simp add: scan_tags_append)
  moreover have "\<forall>r \<in> set (db_tags st). tr_id r < ?id"
    using assms(2) by (force simp: store_inv_def tags_inv_def)
  ultimately show ?thesis using c get unfolding s'_def by blast
qed

definition example_new_tag :: new_tag where
  "example_new_tag = \<lparr>nt_DevEUI = ''0101010101010101'', nt_JoinEUI = ''0202020202020202'',
     nt_AppKey = ''000102030405060708090a0b0c0d0e0f'', nt_Class = ''A'', nt_Region = ''EU868'',
     nt_SubBand = 2, nt_DefaultDR = 5, nt_FPort = 10, nt_PayloadType = ''counter'',
     nt_PayloadConfig = [], nt_Schedule = [], nt_Enabled = True\<rparr>"

theorem create_tag_roundtrip_witness:
  "\<exists>st'. tags_Create example_new_tag (store_New NewInsecureDisabled)
       = (Inr (tag_of_new 1 example_new_tag []), st')
     \<and> fst (tags_List st') = Inr [tag_of_new 1 example_new_tag []]"
proof -
  let ?st = "store_New NewInsecureDisabled"
  have h: "db_up ?st" "nt_DevEUI example_new_tag \<notin> tr_dev_eui ` set (db_tags ?st)"
    "st_clock ?st = []" "db_tag_seq ?st = 0"
    by (simp_all add: store_New_def db_up_def)
  have p: "protects (st_cipher ?st) (nt_AppKey example_new_tag)"
    by (simp add: protects_def store_New_def NewInsecureDisabled_def example_new_tag_def secret_prefix_def)
  have e: "Encrypt (st_cipher ?st) (nt_AppKey example_new_tag)
      (tagAAD (nt_DevEUI example_new_tag) ''app_key'') (st_entropy ?st) = (Inr (nt_AppKey example_new_tag), [])"
    by (simp add: store_New_def NewInsecureDisabled_def)
  have l: "fst (tags_List ?st) = Inr []"
    using tags_List_up [OF h(1)] by (simp add: store_New_def)
  show ?thesis
    using create_tag_roundtrip [OF h(1) store_inv_New h(2) p e] l h(3,4) by fastforce
qed

text \<open>C8: creating a tag is atomic whatever fails. Either an error is returned and every table is as
  it was, or the tag and its session are both stored, under an id above every id used so far
  and with the AppKey column protected by the cipher. The table invariant holds afterwards in
  both cases.\<close>

theorem create_tag_atomic:
  "tags_Create nt st = (r, st') \<Longrightarrow> store_inv st \<Longrightarrow>
     store_inv st' \<and>
     (same_db st st' \<and> \<not> is_ok r \<or>
      (\<exists>encKey ent. Encrypt (st_cipher st) (nt_AppKey nt) (tagAAD (nt_DevEUI nt) ''app_key'') (st_entropy st) = (Inr encKey, ent) \<and>
         db_tags st' = db_tags st @ [tag_row_of (db_tag_seq st + 1) nt encKey (st_clock st)] \<and>
         db_sessions st' = db_sessions st @ [session_row_of (db_tag_seq st + 1) (st_clock st)] \<and>
         db_tag_seq st' = db_tag_seq st + 1 \<and> db_events st' = db_events st))"
  (is "_ \<Longrightarrow> _ \<Longrightarrow> _ \<and> (_ \<or> ?committed)")
proof -
  assume c: "tags_Create nt st = (r, st')" and inv: "store_inv st"
  have "store_inv st'" using tags_Create_inv [OF inv, of nt] c by simp
  moreover have "same_db st st' \<and> \<not> is_ok r \<or> ?committed"
  proof (cases nt st rule: tags_Create_cases)
    case (rolled_back e st'')
    then have "st'' = st'" "r = Inl e" using c by simp_all
    with rolled_back(2) have "same_db st st' \<and> \<not> is_ok r" by simp
    then show ?thesis ..
  next
    case (committed k ent fs)
    let ?s = "insert_tag nt k (st\<lparr>st_entropy := ent, db_faults := fs\<rparr>)"
    have "st' = snd (tags_Get (db_tag_seq st + 1) ?s)" using committed(4) c by (metis snd_conv)
    then have "same_db ?s st'" by (simp only: tags_Get_same)
    then have "db_tags st' = db_tags ?s" "db_sessions st' = db_sessions ?s"
      "db_tag_seq st' = db_tag_seq ?s" "db_events st' = db_events ?s"
      by (simp_all add: same_db_def)
    then have ?committed using committed(1) by (simp add: insert_tag_def)
    then show ?thesis ..
  qed
  ultimately show ?thesis ..
qed

lemma example_Create: "\<exists>r st'. tags_Create nt (store_New NewInsecureDisabled) = (r, st')"
  by (cases "tags_Create nt (store_New NewInsecureDisabled)") blast

theorem create_tag_atomic_witness:
  "\<exists>r st'. tags_Create example_new_tag (store_New NewInsecureDisabled) = (r, st') \<and> store_inv st'"
  using example_Create [of example_new_tag] create_tag_atomic [OF _ store_inv_New] by blast

text \<open>Deleting a tag succeeds on a working database exactly when the tag exists. Then the tag and its
  session are gone, every other tag and session is kept, the tag's events stay in the log but no
  longer refer to it, and the id is not given to a later tag. Deleting an unknown id is
  \<open>ErrNotFound\<close> and changes no table.\<close>

theorem delete_tag_cascade:
  assumes "db_up st" and "store_inv st"
  shows "\<exists>st'. if tid \<in> tr_id ` set (db_tags st)
     then tags_Delete tid st = (Inr (), st') \<and> store_inv st' \<and>
       set (db_tags st') = {r \<in> set (db_tags st). tr_id r \<noteq> tid} \<and>
       set (db_sessions st') = {s \<in> set (db_sessions st). sr_tag_id s \<noteq> tid} \<and>
       map er_id (db_events st') = map er_id (db_events st) \<and>
       (\<forall>e \<in> set (db_events st'). er_tag_id e \<noteq> Some tid) \<and>
       db_tag_seq st' = db_tag_seq st \<and> tid \<le> db_tag_seq st'
     else tags_Delete tid st = (Inl ErrNotFound, st') \<and> same_db st st'"
proof -
  let ?P = "\<lambda>m. \<exists>st'. if tid \<in> tr_id ` set (db_tags st)
     then m = (Inr (), st') \<and>
       set (db_tags st') = {r \<in> set (db_tags st). tr_id r \<noteq> tid} \<and>
       set (db_sessions st') = {s \<in> set (db_sessions st). sr_tag_id s \<noteq> tid} \<and>
       map er_id (db_events st') = map er_id (db_events st) \<and>
       (\<forall>e \<in> set (db_events st'). er_tag_id e \<noteq> Some tid) \<and>
       db_tag_seq st' = db_tag_seq st
     else m = (Inl ErrNotFound, st') \<and> same_db st st'"
  have P: "?P (tags_Delete tid st)"
    unfolding tags_Delete_def
    by (rule seq_wrap_up [OF assms(1)]) (auto simp: find_tag_None comp_def)
  have "tid \<le> db_tag_seq st" if "tid \<in> tr_id ` set (db_tags st)"
    using that assms(2) by (auto simp: store_inv_def tags_inv_def)
  moreover have "store_inv (snd (tags_Delete tid st))"
    by (rule tags_Delete_inv [OF assms(2)])
  ultimately show ?thesis using P by (auto split: if_splits)
qed

lemma db_up_New: "db_up (store_New c)"
  by (simp add: db_up_def store_New_def)

theorem delete_tag_cascade_witness:
  "\<exists>st'. tags_Delete 1 (insert_tag example_new_tag ''k'' (store_New NewInsecureDisabled)) = (Inr (), st') \<and>
     db_tags st' = []"
proof -
  let ?st = "insert_tag example_new_tag ''k'' (store_New NewInsecureDisabled)"
  have inv: "store_inv ?st"
    by (rule insert_tag_inv [OF store_inv_New]) (simp add: store_New_def)
  have up: "db_up ?st" by (simp add: insert_tag_env db_up_New)
  have tags: "tr_id ` set (db_tags ?st) = {1}"
    by (simp add: insert_tag_def store_New_def tag_row_of_def)
  have "{r \<in> set (db_tags ?st). tr_id r \<noteq> 1} = {}"
    by (simp add: insert_tag_def store_New_def tag_row_of_def)
  with delete_tag_cascade [OF up inv, of 1] tags show ?thesis by auto
qed

text \<open>C38: without encryption a tag whose AppKey text begins with \<open>v1:\<close> is stored but cannot be read
  back: \<open>Create\<close> returns an error after it has committed, and from then on \<open>List\<close> fails as a whole
  until that tag is deleted, whatever other tags there are.\<close>

theorem poison_app_key:
  assumes "db_up st" and "store_inv st" and "\<not> c_enabled (st_cipher st)"
    and "nt_DevEUI nt \<notin> tr_dev_eui ` set (db_tags st)"
    and "strings_HasPrefix (nt_AppKey nt) secret_prefix"
  shows "\<not> is_ok (fst (tags_Create nt st)) \<and>
     (\<exists>r \<in> set (db_tags (snd (tags_Create nt st))). tr_dev_eui r = nt_DevEUI nt) \<and>
     \<not> is_ok (fst (tags_List (snd (tags_Create nt st))))"
proof -
  let ?row = "tag_row_of (db_tag_seq st + 1) nt (nt_AppKey nt) (st_clock st)"
  have bad: "\<not> is_ok (scanTag (st_cipher st) ?row)"
    using Decrypt_prefixed_disabled [OF assms(3,5), of "tagAAD (nt_DevEUI nt) ''app_key''"]
    by (auto simp: scanTag_def tag_row_of_def is_ok_iff res_simps)
  obtain fs where c: "tags_Create nt st = (scanTag (st_cipher st) ?row,
      insert_tag nt (nt_AppKey nt) (st\<lparr>st_entropy := st_entropy st, db_faults := fs\<rparr>))"
    using tags_Create_up [OF assms(1,2,4) Encrypt_disabled [OF assms(3)]] by blast
  define s' where "s' = insert_tag nt (nt_AppKey nt) (st\<lparr>st_entropy := st_entropy st, db_faults := fs\<rparr>)"
  have row: "?row \<in> set (db_tags s')" and ciph: "st_cipher s' = st_cipher st"
    by (simp_all add: s'_def insert_tag_def)
  then have "\<not> is_ok (fst (tags_List s'))" using bad by (intro tags_List_unreadable) simp_all
  moreover have "tr_dev_eui ?row = nt_DevEUI nt" by (simp add: tag_row_of_def)
  ultimately show ?thesis using c bad row by (auto simp: s'_def)
qed

theorem poison_app_key_witness:
  "\<not> is_ok (fst (tags_List (snd (tags_Create (example_new_tag\<lparr>nt_AppKey := ''v1:''\<rparr>)
     (store_New NewInsecureDisabled)))))"
  using poison_app_key [OF db_up_New store_inv_New, of NewInsecureDisabled "example_new_tag\<lparr>nt_AppKey := ''v1:''\<rparr>"]
  by (simp add: store_New_def NewInsecureDisabled_def secret_prefix_def)

end
