(* ===== verification/SessionRepo.thy ===== *)
theory SessionRepo
  imports TagRepo Gotext
begin

text \<open>
  The session repository (\<open>internal/store/sessions.go\<close>): the join and counter state of a tag,
  the two counters taken with \<open>UPDATE .. RETURNING\<close>, and the result of a join saved with its keys
  encrypted. An \<open>UPDATE .. RETURNING\<close> changes the row before its result is scanned, so the change
  stays when the scan into the Go integer fails.
\<close>

record session =
  s_TagID :: int
  s_DevAddr :: string
  s_NwkSKey :: string
  s_AppSKey :: string
  s_FCntUp :: u32
  s_FCntDown :: u32
  s_DevNonce :: u16
  s_RxDelay :: int
  s_RX1DROffset :: int
  s_RX2DR :: int
  s_RX2Freq :: int
  s_CFList :: string
  s_Joined :: bool

record join_state =
  js_DevAddr :: string
  js_NwkSKey :: string
  js_AppSKey :: string
  js_RxDelay :: int
  js_RX1DROffset :: int
  js_RX2DR :: int
  js_RX2Freq :: int
  js_CFList :: string

definition sessionAAD :: "int \<Rightarrow> string \<Rightarrow> bytes" where
  "sessionAAD tagID column = bytes_of_string (''session|'' @ fmt_d tagID @ ''|'' @ column)"

text \<open>\<open>Scan\<close> of an INTEGER column into an unsigned Go integer: out of range is an error.\<close>

definition scan_uint :: "int \<Rightarrow> 'w::len word res" where
  "scan_uint i =
     (if 0 \<le> i \<and> i < 2 ^ LENGTH('w) then Inr (word_of_int i) else Inl (Err ''value out of range''))"

definition find_session :: "int \<Rightarrow> store \<Rightarrow> session_row option" where
  "find_session tid st = find (\<lambda>s. sr_tag_id s = tid) (db_sessions st)"

definition upd_session :: "int \<Rightarrow> (session_row \<Rightarrow> session_row) \<Rightarrow> store \<Rightarrow> store" where
  "upd_session tid f st =
     st\<lparr>db_sessions := map (\<lambda>s. if sr_tag_id s = tid then f s else s) (db_sessions st)\<rparr>"

text \<open>A key column: NULL is the empty string, anything else is decrypted.\<close>

definition read_key :: "cipher \<Rightarrow> int \<Rightarrow> string \<Rightarrow> string option \<Rightarrow> string res" where
  "read_key c tid column v =
     (case v of
        None \<Rightarrow> Inr []
      | Some k \<Rightarrow> wrapE (''decrypting '' @ column) (Decrypt c k (sessionAAD tid column)))"

definition scan_session :: "cipher \<Rightarrow> session_row \<Rightarrow> session res" where
  "scan_session c r =
     bindE (wrapE ''querying session'' (scan_uint (sr_fcnt_up r))) (\<lambda>up.
     bindE (wrapE ''querying session'' (scan_uint (sr_fcnt_down r))) (\<lambda>down.
     bindE (wrapE ''querying session'' (scan_uint (sr_dev_nonce r))) (\<lambda>nonce.
     bindE (read_key c (sr_tag_id r) ''nwk_skey'' (sr_nwk_skey r)) (\<lambda>nwk.
     bindE (read_key c (sr_tag_id r) ''app_skey'' (sr_app_skey r)) (\<lambda>app.
     Inr \<lparr>s_TagID = sr_tag_id r, s_DevAddr = null_string (sr_dev_addr r), s_NwkSKey = nwk, s_AppSKey = app,
          s_FCntUp = up, s_FCntDown = down, s_DevNonce = nonce, s_RxDelay = null_int (sr_rx_delay r),
          s_RX1DROffset = null_int (sr_rx1_dr_offset r), s_RX2DR = null_int (sr_rx2_dr r),
          s_RX2Freq = null_int (sr_rx2_freq r), s_CFList = null_string (sr_cflist r),
          s_Joined = (sr_joined r \<noteq> 0)\<rparr>)))))"

definition sessions_Get :: "int \<Rightarrow> store \<Rightarrow> (session, store) run" where
  "sessions_Get tid st =
     seqE (sql_wrap ''querying session'' st) (\<lambda>_ st.
       case find_session tid st of
         None \<Rightarrow> (Inl ErrNotFound, st)
       | Some r \<Rightarrow> (scan_session (st_cipher st) r, st))"

definition NextDevNonce :: "int \<Rightarrow> store \<Rightarrow> (u16, store) run" where
  "NextDevNonce tid st =
     seqE (sql_wrap ''incrementing dev_nonce'' st) (\<lambda>_ st.
       case find_session tid st of
         None \<Rightarrow> (Inl ErrNotFound, st)
       | Some r \<Rightarrow>
           (wrapE ''incrementing dev_nonce'' (scan_uint (sr_dev_nonce r + 1)),
            upd_session tid (\<lambda>s. s\<lparr>sr_dev_nonce := sr_dev_nonce s + 1, sr_updated_at := st_clock st\<rparr>) st))"

definition joined_row :: "join_state \<Rightarrow> string \<Rightarrow> string \<Rightarrow> string \<Rightarrow> session_row \<Rightarrow> session_row" where
  "joined_row js encNwk encApp now s =
     s\<lparr>sr_dev_addr := Some (js_DevAddr js), sr_nwk_skey := Some encNwk, sr_app_skey := Some encApp,
       sr_rx_delay := Some (js_RxDelay js), sr_rx1_dr_offset := Some (js_RX1DROffset js),
       sr_rx2_dr := Some (js_RX2DR js), sr_rx2_freq := Some (js_RX2Freq js),
       sr_cflist := nullable (js_CFList js), sr_joined := 1, sr_joined_at := Some now,
       sr_fcnt_up := 0, sr_fcnt_down := 0, sr_updated_at := now\<rparr>"

definition SaveJoinResult :: "int \<Rightarrow> join_state \<Rightarrow> store \<Rightarrow> (unit, store) run" where
  "SaveJoinResult tid js st =
     (case Encrypt (st_cipher st) (js_NwkSKey js) (sessionAAD tid ''nwk_skey'') (st_entropy st) of
        (Inl e, r) \<Rightarrow> (Inl (Wrap ''encrypting nwk_skey'' e), st\<lparr>st_entropy := r\<rparr>)
      | (Inr encNwk, r) \<Rightarrow>
        (case Encrypt (st_cipher st) (js_AppSKey js) (sessionAAD tid ''app_skey'') r of
           (Inl e, r) \<Rightarrow> (Inl (Wrap ''encrypting app_skey'' e), st\<lparr>st_entropy := r\<rparr>)
         | (Inr encApp, r) \<Rightarrow>
             let now = st_clock st in
             seqE (sql_wrap ''saving join result'' (st\<lparr>st_entropy := r\<rparr>)) (\<lambda>_ st.
               if find_session tid st = None then (Inl ErrNotFound, st)
               else (Inr (), upd_session tid (joined_row js encNwk encApp now) st))))"

definition TakeFCntUp :: "int \<Rightarrow> store \<Rightarrow> (u32, store) run" where
  "TakeFCntUp tid st =
     seqE (sql_wrap ''taking fcnt_up'' st) (\<lambda>_ st.
       case find_session tid st of
         None \<Rightarrow> (Inl ErrNotFound, st)
       | Some r \<Rightarrow>
           (wrapE ''taking fcnt_up'' (scan_uint ((sr_fcnt_up r + 1) - 1)),
            upd_session tid (\<lambda>s. s\<lparr>sr_fcnt_up := sr_fcnt_up s + 1, sr_updated_at := st_clock st\<rparr>) st))"

definition SetFCntDown :: "int \<Rightarrow> u32 \<Rightarrow> store \<Rightarrow> (unit, store) run" where
  "SetFCntDown tid fcnt st =
     seqE (sql_wrap ''setting fcnt_down'' st) (\<lambda>_ st.
       if find_session tid st = None then (Inl ErrNotFound, st)
       else (Inr (), upd_session tid (\<lambda>s. s\<lparr>sr_fcnt_down := uint fcnt, sr_updated_at := st_clock st\<rparr>) st))"

section \<open>Rows and their updates\<close>

lemma sessionAAD_inject [simp]:
  "sessionAAD t ''nwk_skey'' = sessionAAD u ''nwk_skey'' \<longleftrightarrow> t = u"
  "sessionAAD t ''app_skey'' = sessionAAD u ''app_skey'' \<longleftrightarrow> t = u"
  by (simp_all add: sessionAAD_def fmt_d_inject)

lemma find_session_frame [simp]:
  "find_session tid (st\<lparr>db_faults := fs\<rparr>) = find_session tid st"
  "find_session tid (st\<lparr>st_entropy := r\<rparr>) = find_session tid st"
  "find_session tid (st\<lparr>st_entropy := r, db_faults := fs\<rparr>) = find_session tid st"
  by (simp_all add: find_session_def)

lemma find_session_key: "find_session tid st = Some s \<Longrightarrow> sr_tag_id s = tid"
  by (auto simp: find_session_def find_Some_iff)

lemma find_session_upd:
  assumes "\<And>s. sr_tag_id (f s) = sr_tag_id s"
  shows "find_session t (upd_session tid f st) =
    (if t = tid then map_option f (find_session tid st) else find_session t st)"
proof -
  have "find (\<lambda>s. sr_tag_id s = t) (map (\<lambda>s. if sr_tag_id s = tid then f s else s) xs) =
     (if t = tid then map_option f (find (\<lambda>s. sr_tag_id s = tid) xs)
      else find (\<lambda>s. sr_tag_id s = t) xs)" for xs
    using assms by (induction xs) auto
  then show ?thesis by (simp add: find_session_def upd_session_def)
qed

lemma upd_session_env [simp]:
  "db_up (upd_session tid f st) = db_up st" "st_cipher (upd_session tid f st) = st_cipher st"
  "st_clock (upd_session tid f st) = st_clock st" "st_entropy (upd_session tid f st) = st_entropy st"
  "db_tags (upd_session tid f st) = db_tags st" "db_tag_seq (upd_session tid f st) = db_tag_seq st"
  "db_gateway (upd_session tid f st) = db_gateway st" "db_events (upd_session tid f st) = db_events st"
  "db_event_seq (upd_session tid f st) = db_event_seq st"
  "db_faults (upd_session tid f st) = db_faults st"
  by (simp_all add: upd_session_def)

lemma upd_session_inv:
  assumes "store_inv st" and "\<And>s. sr_tag_id (f s) = sr_tag_id s"
    and "\<And>s. session_ok s \<Longrightarrow> session_ok (f s)"
  shows "store_inv (upd_session tid f st)"
proof -
  have "sr_tag_id \<circ> (\<lambda>s. if sr_tag_id s = tid then f s else s) = sr_tag_id"
    using assms(2) by auto
  then show ?thesis
    using assms by (auto simp: store_inv_def tags_inv_def sessions_inv_def events_inv_def upd_session_def)
qed

lemma scan_uint_ok: "0 \<le> i \<Longrightarrow> i < 2 ^ LENGTH('w) \<Longrightarrow> scan_uint i = Inr (word_of_int i :: 'w::len word)"
  by (simp add: scan_uint_def)

lemma scan_uint_Inr [res_simps]:
  "scan_uint i = Inr (w :: 'w::len word) \<longleftrightarrow> i = uint w"
proof -
  have "i = uint w" if "0 \<le> i" "i < 2 ^ LENGTH('w)" "w = word_of_int i"
    using that by (simp add: uint_word_of_int_eq take_bit_int_eq_self)
  then show ?thesis by (auto simp: scan_uint_def)
qed

lemma scan_uint_uint [simp]: "scan_uint (uint w) = Inr (w :: 'w::len word)"
  by (simp add: res_simps)

section \<open>Each operation, on every branch\<close>

definition nonce_row :: "string \<Rightarrow> session_row \<Rightarrow> session_row" where
  "nonce_row now s = s\<lparr>sr_dev_nonce := sr_dev_nonce s + 1, sr_updated_at := now\<rparr>"

definition fcnt_row :: "string \<Rightarrow> session_row \<Rightarrow> session_row" where
  "fcnt_row now s = s\<lparr>sr_fcnt_up := sr_fcnt_up s + 1, sr_updated_at := now\<rparr>"

definition down_row :: "u32 \<Rightarrow> string \<Rightarrow> session_row \<Rightarrow> session_row" where
  "down_row fcnt now s = s\<lparr>sr_fcnt_down := uint fcnt, sr_updated_at := now\<rparr>"

lemmas session_rows = nonce_row_def fcnt_row_def down_row_def joined_row_def

lemma session_rows_key [simp]:
  "sr_tag_id (nonce_row now s) = sr_tag_id s" "sr_tag_id (fcnt_row now s) = sr_tag_id s"
  "sr_tag_id (down_row f now s) = sr_tag_id s" "sr_tag_id (joined_row js a b now s) = sr_tag_id s"
  by (simp_all add: session_rows)

lemma session_rows_ok [intro]:
  "session_ok s \<Longrightarrow> session_ok (nonce_row now s)" "session_ok s \<Longrightarrow> session_ok (fcnt_row now s)"
  "session_ok s \<Longrightarrow> session_ok (down_row f now s)" "session_ok s \<Longrightarrow> session_ok (joined_row js a b now s)"
  using uint_lt2p [of f] by (simp_all add: session_rows session_ok_def)

lemma sessions_Get_cases:
  obtains (fault) e fs where "sessions_Get tid st = (Inl e, st\<lparr>db_faults := fs\<rparr>)" "\<not> errors_Is e ErrNotFound"
    | (none) fs where "find_session tid st = None" "sessions_Get tid st = (Inl ErrNotFound, st\<lparr>db_faults := fs\<rparr>)"
    | (row) r fs where "find_session tid st = Some r"
        "sessions_Get tid st = (scan_session (st_cipher st) r, st\<lparr>db_faults := fs\<rparr>)"
proof (cases "''querying session''" st rule: sql_wrap_cases)
  case (fault e fs)
  then show ?thesis
    by (intro that(1) [of "Wrap ''querying session'' e" fs]) (simp_all add: sessions_Get_def)
next
  case (runs fs)
  then show ?thesis
    by (cases "find_session tid st") (auto simp: sessions_Get_def intro: that)
qed

lemma sessions_Get_same: "same_db st (snd (sessions_Get tid st))"
  by (cases tid st rule: sessions_Get_cases) auto

lemma sessions_Get_up:
  assumes "db_up st" and "find_session tid st = Some r"
  shows "fst (sessions_Get tid st) = scan_session (st_cipher st) r"
  unfolding sessions_Get_def by (rule seq_wrap_up [OF assms(1)]) (simp add: assms(2))

lemma NextDevNonce_cases:
  obtains (failed) e st' where "NextDevNonce tid st = (Inl e, st')" "same_db st st'"
    | (updated) r fs where "find_session tid st = Some r"
        "NextDevNonce tid st = (wrapE ''incrementing dev_nonce'' (scan_uint (sr_dev_nonce r + 1)),
           upd_session tid (nonce_row (st_clock st)) (st\<lparr>db_faults := fs\<rparr>))"
proof (cases "''incrementing dev_nonce''" st rule: sql_wrap_cases)
  case (runs fs)
  show ?thesis
  proof (cases "find_session tid st")
    case None
    with runs show ?thesis by (intro failed) (auto simp: NextDevNonce_def)
  next
    case (Some r)
    with runs show ?thesis
      by (intro updated [OF Some, of fs]) (simp add: NextDevNonce_def nonce_row_def [abs_def])
  qed
qed (auto simp: NextDevNonce_def intro!: failed)

lemma NextDevNonce_up:
  assumes "db_up st" and "find_session tid st = Some r"
  shows "\<exists>fs. NextDevNonce tid st = (wrapE ''incrementing dev_nonce'' (scan_uint (sr_dev_nonce r + 1)),
           upd_session tid (nonce_row (st_clock st)) (st\<lparr>db_faults := fs\<rparr>)) \<and> db_up (st\<lparr>db_faults := fs\<rparr>)"
  unfolding NextDevNonce_def nonce_row_def [abs_def]
  by (rule seq_wrap_up [OF assms(1)]) (auto simp: assms(2))

lemma TakeFCntUp_cases:
  obtains (failed) e st' where "TakeFCntUp tid st = (Inl e, st')" "same_db st st'"
    | (updated) r fs where "find_session tid st = Some r"
        "TakeFCntUp tid st = (wrapE ''taking fcnt_up'' (scan_uint (sr_fcnt_up r)),
           upd_session tid (fcnt_row (st_clock st)) (st\<lparr>db_faults := fs\<rparr>))"
proof (cases "''taking fcnt_up''" st rule: sql_wrap_cases)
  case (runs fs)
  show ?thesis
  proof (cases "find_session tid st")
    case None
    with runs show ?thesis by (intro failed) (auto simp: TakeFCntUp_def)
  next
    case (Some r)
    with runs show ?thesis
      by (intro updated [OF Some, of fs]) (simp add: TakeFCntUp_def fcnt_row_def [abs_def])
  qed
qed (auto simp: TakeFCntUp_def intro!: failed)

lemma TakeFCntUp_up:
  assumes "db_up st" and "find_session tid st = Some r"
  shows "\<exists>fs. TakeFCntUp tid st = (wrapE ''taking fcnt_up'' (scan_uint (sr_fcnt_up r)),
           upd_session tid (fcnt_row (st_clock st)) (st\<lparr>db_faults := fs\<rparr>)) \<and> db_up (st\<lparr>db_faults := fs\<rparr>)"
  unfolding TakeFCntUp_def fcnt_row_def [abs_def]
  by (rule seq_wrap_up [OF assms(1)]) (auto simp: assms(2))

lemma SetFCntDown_cases:
  obtains (failed) e st' where "SetFCntDown tid f st = (Inl e, st')" "same_db st st'"
    | (updated) r fs where "find_session tid st = Some r"
        "SetFCntDown tid f st = (Inr (), upd_session tid (down_row f (st_clock st)) (st\<lparr>db_faults := fs\<rparr>))"
proof (cases "''setting fcnt_down''" st rule: sql_wrap_cases)
  case (runs fs)
  show ?thesis
  proof (cases "find_session tid st")
    case None
    with runs show ?thesis by (intro failed) (auto simp: SetFCntDown_def)
  next
    case (Some r)
    with runs show ?thesis
      by (intro updated [OF Some, of fs]) (simp add: SetFCntDown_def down_row_def [abs_def])
  qed
qed (auto simp: SetFCntDown_def intro!: failed)

lemma SetFCntDown_up:
  assumes "db_up st" and "find_session tid st = Some r"
  shows "\<exists>fs. SetFCntDown tid f st = (Inr (), upd_session tid (down_row f (st_clock st)) (st\<lparr>db_faults := fs\<rparr>)) \<and>
    db_up (st\<lparr>db_faults := fs\<rparr>)"
  unfolding SetFCntDown_def down_row_def [abs_def]
  by (rule seq_wrap_up [OF assms(1)]) (auto simp: assms(2))

lemma SaveJoinResult_cases:
  obtains (failed) e st' where "SaveJoinResult tid js st = (Inl e, st')" "same_db st st'"
    | (updated) r encNwk encApp r1 r2 fs where "find_session tid st = Some r"
        "Encrypt (st_cipher st) (js_NwkSKey js) (sessionAAD tid ''nwk_skey'') (st_entropy st) = (Inr encNwk, r1)"
        "Encrypt (st_cipher st) (js_AppSKey js) (sessionAAD tid ''app_skey'') r1 = (Inr encApp, r2)"
        "SaveJoinResult tid js st = (Inr (), upd_session tid (joined_row js encNwk encApp (st_clock st))
           (st\<lparr>st_entropy := r2, db_faults := fs\<rparr>))"
proof (cases "Encrypt (st_cipher st) (js_NwkSKey js) (sessionAAD tid ''nwk_skey'') (st_entropy st)")
  case E1: (Pair x1 r1)
  show ?thesis
  proof (cases x1)
    case (Inl e)
    with E1 show ?thesis
      by (intro failed [of "Wrap ''encrypting nwk_skey'' e" "st\<lparr>st_entropy := r1\<rparr>"])
        (simp_all add: SaveJoinResult_def)
  next
    case N: (Inr encNwk)
    show ?thesis
    proof (cases "Encrypt (st_cipher st) (js_AppSKey js) (sessionAAD tid ''app_skey'') r1")
      case E2: (Pair x2 r2)
      show ?thesis
      proof (cases x2)
        case (Inl e)
        with E1 E2 N show ?thesis
          by (intro failed [of "Wrap ''encrypting app_skey'' e" "st\<lparr>st_entropy := r2\<rparr>"])
            (simp_all add: SaveJoinResult_def)
      next
        case A: (Inr encApp)
        let ?Q = "\<lambda>m. (\<exists>e st'. m = (Inl e, st') \<and> same_db st st') \<or>
          (\<exists>r fs. find_session tid st = Some r \<and> m = (Inr (), upd_session tid (joined_row js encNwk encApp (st_clock st))
             (st\<lparr>st_entropy := r2, db_faults := fs\<rparr>)))"
        have "?Q (SaveJoinResult tid js st)"
          unfolding SaveJoinResult_def E1 E2 N A prod.case sum.case Let_def
          by (rule seq_wrap) auto
        with E1 E2 N A that show ?thesis by blast
      qed
    qed
  qed
qed

lemma SaveJoinResult_up:
  assumes "db_up st" and "find_session tid st = Some r"
    and "Encrypt (st_cipher st) (js_NwkSKey js) (sessionAAD tid ''nwk_skey'') (st_entropy st) = (Inr encNwk, r1)"
    and "Encrypt (st_cipher st) (js_AppSKey js) (sessionAAD tid ''app_skey'') r1 = (Inr encApp, r2)"
  shows "\<exists>fs. SaveJoinResult tid js st = (Inr (), upd_session tid (joined_row js encNwk encApp (st_clock st))
           (st\<lparr>st_entropy := r2, db_faults := fs\<rparr>)) \<and> db_up (st\<lparr>st_entropy := r2, db_faults := fs\<rparr>)"
  unfolding SaveJoinResult_def assms(3,4) prod.case sum.case Let_def
  by (rule seq_wrap_up) (auto simp: assms(1,2))

lemma store_inv_faults [simp]:
  "store_inv (st\<lparr>db_faults := fs\<rparr>) = store_inv st"
  "store_inv (st\<lparr>st_entropy := r, db_faults := fs\<rparr>) = store_inv st"
  by (rule store_inv_same, simp)+

lemma session_op_inv:
  assumes "store_inv st"
  shows "store_inv (snd (NextDevNonce tid st))" "store_inv (snd (TakeFCntUp tid st))"
    "store_inv (snd (SetFCntDown tid f st))" "store_inv (snd (SaveJoinResult tid js st))"
proof -
  note upd = upd_session_inv [OF _ _ session_rows_ok(1)] upd_session_inv [OF _ _ session_rows_ok(2)]
    upd_session_inv [OF _ _ session_rows_ok(3)] upd_session_inv [OF _ _ session_rows_ok(4)]
  note same = assms [THEN store_inv_same [THEN iffD1, rotated]]
  show "store_inv (snd (NextDevNonce tid st))"
    by (cases tid st rule: NextDevNonce_cases) (simp_all add: assms upd same)
  show "store_inv (snd (TakeFCntUp tid st))"
    by (cases tid st rule: TakeFCntUp_cases) (simp_all add: assms upd same)
  show "store_inv (snd (SetFCntDown tid f st))"
    by (cases tid f st rule: SetFCntDown_cases) (simp_all add: assms upd same)
  show "store_inv (snd (SaveJoinResult tid js st))"
    by (cases tid js st rule: SaveJoinResult_cases) (simp_all add: assms upd same)
qed

section \<open>Properties\<close>

text \<open>The session that a saved join reads back as.\<close>

definition session_of_join :: "int \<Rightarrow> join_state \<Rightarrow> u16 \<Rightarrow> session" where
  "session_of_join tid js nonce =
     \<lparr>s_TagID = tid, s_DevAddr = js_DevAddr js, s_NwkSKey = js_NwkSKey js, s_AppSKey = js_AppSKey js,
      s_FCntUp = 0, s_FCntDown = 0, s_DevNonce = nonce, s_RxDelay = js_RxDelay js,
      s_RX1DROffset = js_RX1DROffset js, s_RX2DR = js_RX2DR js, s_RX2Freq = js_RX2Freq js,
      s_CFList = js_CFList js, s_Joined = True\<rparr>"

lemma scan_joined_row:
  assumes "Decrypt c encNwk (sessionAAD (sr_tag_id r) ''nwk_skey'') = Inr (js_NwkSKey js)"
    and "Decrypt c encApp (sessionAAD (sr_tag_id r) ''app_skey'') = Inr (js_AppSKey js)"
    and "sr_dev_nonce r = uint nonce"
  shows "scan_session c (joined_row js encNwk encApp now r) = Inr (session_of_join (sr_tag_id r) js nonce)"
  using assms by (simp add: scan_session_def joined_row_def read_key_def session_of_join_def
      scan_uint_ok null_string_def null_int_def flip: null_string_nullable)
    (simp add: null_string_def [symmetric])

text \<open>The result of a join is read back as it was saved. On a working database, after
  \<open>SaveJoinResult\<close> the session of the tag has the join's address, keys and RX parameters,
  is joined, both frame counters are zero and the DevNonce is kept; no other session changes.\<close>

theorem save_join_roundtrip:
  assumes "db_up st" and "find_session tid st = Some r" and "sr_dev_nonce r = uint (nonce :: u16)"
    and "protects (st_cipher st) (js_NwkSKey js)" and "protects (st_cipher st) (js_AppSKey js)"
    and "Encrypt (st_cipher st) (js_NwkSKey js) (sessionAAD tid ''nwk_skey'') (st_entropy st) = (Inr encNwk, r1)"
    and "Encrypt (st_cipher st) (js_AppSKey js) (sessionAAD tid ''app_skey'') r1 = (Inr encApp, r2)"
  shows "\<exists>st'. SaveJoinResult tid js st = (Inr (), st') \<and>
     fst (sessions_Get tid st') = Inr (session_of_join tid js nonce) \<and>
     (\<forall>t. t \<noteq> tid \<longrightarrow> find_session t st' = find_session t st)"
proof -
  obtain fs where s: "SaveJoinResult tid js st = (Inr (), upd_session tid
       (joined_row js encNwk encApp (st_clock st)) (st\<lparr>st_entropy := r2, db_faults := fs\<rparr>))"
    and up: "db_up (st\<lparr>st_entropy := r2, db_faults := fs\<rparr>)"
    using SaveJoinResult_up [OF assms(1,2,6,7)] by blast
  define st' where "st' = upd_session tid (joined_row js encNwk encApp (st_clock st))
    (st\<lparr>st_entropy := r2, db_faults := fs\<rparr>)"
  have tid: "sr_tag_id r = tid" using assms(2) by (rule find_session_key)
  have f: "find_session t st' = (if t = tid then Some (joined_row js encNwk encApp (st_clock st) r)
      else find_session t st)" for t
    by (simp add: st'_def find_session_upd assms(2))
  have "fst (sessions_Get tid st') = scan_session (st_cipher st') (joined_row js encNwk encApp (st_clock st) r)"
    by (rule sessions_Get_up) (use up f in \<open>simp_all add: st'_def\<close>)
  also have "\<dots> = Inr (session_of_join tid js nonce)"
    using scan_joined_row [OF _ _ assms(3), of "st_cipher st" encNwk js encApp] tid
      Decrypt_Encrypt_column [OF assms(4,6)] Decrypt_Encrypt_column [OF assms(5,7)]
    by (simp add: st'_def)
  finally show ?thesis using s f by (simp add: st'_def)
qed

definition example_join :: join_state where
  "example_join = \<lparr>js_DevAddr = ''01020304'', js_NwkSKey = ''aa'', js_AppSKey = ''bb'', js_RxDelay = 1,
     js_RX1DROffset = 0, js_RX2DR = 0, js_RX2Freq = 869525000, js_CFList = []\<rparr>"

definition example_store :: store where
  "example_store = insert_tag example_new_tag ''k'' (store_New NewInsecureDisabled)"

lemma example_store [simp]:
  "db_up example_store" "store_inv example_store" "st_cipher example_store = NewInsecureDisabled"
  "find_session 1 example_store = Some (session_row_of 1 [])" "st_clock example_store = []"
  "db_tag_seq example_store = 1"
proof -
  show "store_inv example_store" unfolding example_store_def
    by (rule insert_tag_inv [OF store_inv_New]) (simp add: store_New_def)
qed (simp_all add: example_store_def insert_tag_env db_up_New find_session_def insert_tag_def
    store_New_def session_row_of_def db_up_def)

theorem save_join_roundtrip_witness:
  "\<exists>st'. SaveJoinResult 1 example_join example_store = (Inr (), st') \<and>
     fst (sessions_Get 1 st') = Inr (session_of_join 1 example_join 0)"
proof -
  have p: "protects (st_cipher example_store) ''aa''" "protects (st_cipher example_store) ''bb''"
    by (simp_all add: protects_def NewInsecureDisabled_def secret_prefix_def)
  have e: "Encrypt (st_cipher example_store) k d r = (Inr k, r)" for k d r
    by (simp add: NewInsecureDisabled_def)
  have n: "sr_dev_nonce (session_row_of 1 []) = uint (0 :: u16)"
    by (simp add: session_row_of_def)
  have k: "js_NwkSKey example_join = ''aa''" "js_AppSKey example_join = ''bb''"
    by (simp_all add: example_join_def)
  show ?thesis
    using save_join_roundtrip [OF example_store(1,4) n, of example_join "''aa''" "st_entropy example_store"
        "''bb''" "st_entropy example_store"] p e k by auto
qed

text \<open>C39: the DevNonce runs out after 65535. Then \<open>NextDevNonce\<close> returns an error but has already
  written 65536 to the row, so that from then on the session cannot be read at all: \<open>Get\<close> fails
  for the tag, and another \<open>NextDevNonce\<close> fails again.\<close>

theorem dev_nonce_exhausted:
  assumes "db_up st" and "find_session tid st = Some r" and "65535 \<le> sr_dev_nonce r"
  shows "\<exists>e st'. NextDevNonce tid st = (Inl e, st') \<and> db_up st' \<and>
     (\<exists>e'. fst (sessions_Get tid st') = Inl e' \<and> \<not> errors_Is e' ErrNotFound) \<and>
     (\<exists>r'. find_session tid st' = Some r' \<and> 65535 \<le> sr_dev_nonce r')"
proof -
  have over: "scan_uint (sr_dev_nonce r + 1) = (Inl (Err ''value out of range'') :: u16 res)"
    using assms(3) by (simp add: scan_uint_def)
  obtain fs where n: "NextDevNonce tid st = (Inl (Wrap ''incrementing dev_nonce'' (Err ''value out of range'')),
      upd_session tid (nonce_row (st_clock st)) (st\<lparr>db_faults := fs\<rparr>))"
    and up: "db_up (st\<lparr>db_faults := fs\<rparr>)"
    using NextDevNonce_up [OF assms(1,2)] over by auto
  define st' where "st' = upd_session tid (nonce_row (st_clock st)) (st\<lparr>db_faults := fs\<rparr>)"
  have f: "find_session tid st' = Some (nonce_row (st_clock st) r)"
    by (simp add: st'_def find_session_upd assms(2))
  have "db_up st'" using up by (simp add: st'_def)
  then have "fst (sessions_Get tid st') = scan_session (st_cipher st') (nonce_row (st_clock st) r)"
    using f by (rule sessions_Get_up)
  moreover have "\<exists>e'. scan_session c (nonce_row now r) = Inl e' \<and> \<not> errors_Is e' ErrNotFound" for c now
    using over by (auto simp: scan_session_def nonce_row_def scan_uint_def bindE_def split: sum.splits)
  ultimately show ?thesis
    using n f \<open>db_up st'\<close> assms(3) unfolding st'_def by (auto simp: nonce_row_def)
qed

definition exhausted_store :: store where
  "exhausted_store = upd_session 1 (\<lambda>s. s\<lparr>sr_dev_nonce := 65535\<rparr>) example_store"

theorem dev_nonce_exhausted_witness:
  "\<exists>e st'. NextDevNonce 1 exhausted_store = (Inl e, st') \<and> \<not> is_ok (fst (sessions_Get 1 st'))"
proof -
  have "db_up exhausted_store" by (simp add: exhausted_store_def)
  moreover have "find_session 1 exhausted_store = Some ((session_row_of 1 [])\<lparr>sr_dev_nonce := 65535\<rparr>)"
    by (simp add: exhausted_store_def find_session_upd)
  ultimately show ?thesis
    using dev_nonce_exhausted [of exhausted_store 1] by fastforce
qed

end
