(* ===== verification/EventRepo.thy ===== *)
theory EventRepo
  imports TagRepo
begin

text \<open>
  The event log (\<open>internal/store/events.go\<close>): appending under the foreign key of the tag, listing
  newest first with filter, keyset and limit, and pruning to the newest events.
\<close>

record event =
  ev_ID :: int
  ev_TS :: string
  ev_TagID :: "int option"
  ev_Direction :: string
  ev_Kind :: string
  ev_Freq :: "int option"
  ev_DR :: "int option"
  ev_FCnt :: "int option"
  ev_FPort :: "int option"
  ev_RSSI :: "rat option"
  ev_SNR :: "rat option"
  ev_PayloadHex :: string
  ev_Decoded :: string
  ev_Result :: string

record event_filter =
  ef_TagID :: "int option"
  ef_Direction :: string
  ef_BeforeID :: int
  ef_Limit :: int

definition event_row_of :: "int \<Rightarrow> string \<Rightarrow> event \<Rightarrow> event_row" where
  "event_row_of eid now e =
     \<lparr>er_id = eid, er_ts = now, er_tag_id = ev_TagID e, er_direction = ev_Direction e, er_kind = ev_Kind e,
      er_freq = ev_Freq e, er_dr = ev_DR e, er_fcnt = ev_FCnt e, er_fport = ev_FPort e, er_rssi = ev_RSSI e,
      er_snr = ev_SNR e, er_payload_hex = nullable (ev_PayloadHex e), er_decoded = nullable (ev_Decoded e),
      er_result = nullable (ev_Result e)\<rparr>"

definition events_Append :: "event \<Rightarrow> store \<Rightarrow> (int, store) run" where
  "events_Append e st =
     seqE (sql_wrap ''appending event'' st) (\<lambda>_ st.
       if (case ev_TagID e of None \<Rightarrow> False | Some t \<Rightarrow> t \<notin> tr_id ` set (db_tags st)) then
         (Inl (Wrap ''appending event'' (Err ''FOREIGN KEY constraint failed'')), st)
       else
         (Inr (db_event_seq st + 1),
          st\<lparr>db_events := db_events st @ [event_row_of (db_event_seq st + 1) (st_clock st) e],
             db_event_seq := db_event_seq st + 1\<rparr>))"

text \<open>A scanned event row: NULL text columns read as empty strings.\<close>

definition scanEvent :: "event_row \<Rightarrow> event" where
  "scanEvent r =
     \<lparr>ev_ID = er_id r, ev_TS = er_ts r, ev_TagID = er_tag_id r, ev_Direction = er_direction r, ev_Kind = er_kind r,
      ev_Freq = er_freq r, ev_DR = er_dr r, ev_FCnt = er_fcnt r, ev_FPort = er_fport r, ev_RSSI = er_rssi r,
      ev_SNR = er_snr r, ev_PayloadHex = null_string (er_payload_hex r),
      ev_Decoded = null_string (er_decoded r), ev_Result = null_string (er_result r)\<rparr>"

definition list_limit :: "event_filter \<Rightarrow> int" where
  "list_limit f =
     (let limit = if ef_Limit f \<le> 0 then 100 else ef_Limit f
      in if limit > 1000 then 1000 else limit)"

text \<open>The WHERE clause that \<open>List\<close> assembles: one conjunct per filter that is set.\<close>

definition list_where :: "event_filter \<Rightarrow> event_row \<Rightarrow> bool" where
  "list_where f r =
     ((case ef_TagID f of None \<Rightarrow> True | Some t \<Rightarrow> er_tag_id r = Some t) \<and>
      (ef_Direction f \<noteq> [] \<longrightarrow> er_direction r = ef_Direction f) \<and>
      (ef_BeforeID f > 0 \<longrightarrow> er_id r < ef_BeforeID f))"

definition events_List :: "event_filter \<Rightarrow> store \<Rightarrow> (event list, store) run" where
  "events_List f st =
     seqE (sql_wrap ''listing events'' st) (\<lambda>_ st.
       let rows = take (nat (list_limit f)) (rev (sort_key er_id (filter (list_where f) (db_events st))))
       in seqE (sql_stmt st) (\<lambda>_ st. (Inr (map scanEvent rows), st)))"

definition events_Prune :: "int \<Rightarrow> store \<Rightarrow> (int, store) run" where
  "events_Prune keep st =
     (let keep = if keep < 0 then 0 else keep in
      seqE (sql_wrap ''pruning events'' st) (\<lambda>_ st.
        let newest = er_id ` set (take (nat keep) (rev (sort_key er_id (db_events st))));
            kept = filter (\<lambda>r. er_id r \<in> newest) (db_events st)
        in (Inr (int (length (db_events st)) - int (length kept)), st\<lparr>db_events := kept\<rparr>)))"

section \<open>Each operation, on every branch\<close>

definition insert_event :: "event \<Rightarrow> store \<Rightarrow> store" where
  "insert_event e st =
     st\<lparr>db_events := db_events st @ [event_row_of (db_event_seq st + 1) (st_clock st) e],
       db_event_seq := db_event_seq st + 1\<rparr>"

lemma events_Append_cases:
  obtains (failed) err st' where "events_Append e st = (Inl err, st')" "same_db st st'"
    | (appended) fs where "\<forall>t. ev_TagID e = Some t \<longrightarrow> t \<in> tr_id ` set (db_tags st)"
        "events_Append e st = (Inr (db_event_seq st + 1), insert_event e (st\<lparr>db_faults := fs\<rparr>))"
proof (cases "''appending event''" st rule: sql_wrap_cases)
  case (runs fs)
  show ?thesis
  proof (cases "case ev_TagID e of None \<Rightarrow> False | Some t \<Rightarrow> t \<notin> tr_id ` set (db_tags st)")
    case True
    then obtain t where "ev_TagID e = Some t" "t \<notin> tr_id ` set (db_tags st)"
      by (auto split: option.splits)
    with runs show ?thesis by (intro failed) (auto simp: events_Append_def)
  next
    case False
    with runs show ?thesis
      by (intro appended [of fs]) (auto simp: events_Append_def insert_event_def split: option.splits)
  qed
qed (auto simp: events_Append_def intro!: failed)

lemma insert_event_inv:
  assumes "store_inv st" and "\<forall>t. ev_TagID e = Some t \<longrightarrow> t \<in> tr_id ` set (db_tags st)"
  shows "store_inv (insert_event e st)"
proof -
  have "events_inv (insert_event e st)"
    using assms by (fastforce simp: store_inv_def events_inv_def insert_event_def event_row_of_def
        sorted_wrt_less_append_last)
  then show ?thesis
    using assms(1) by (simp add: store_inv_def insert_event_def tags_inv_def sessions_inv_def)
qed

lemma same_store_inv: "same_db st st' \<Longrightarrow> store_inv st \<Longrightarrow> store_inv st'"
  using store_inv_same by blast

lemma events_Append_inv:
  assumes "store_inv st"
  shows "store_inv (snd (events_Append e st))"
proof (cases e st rule: events_Append_cases)
  case (failed err st')
  then show ?thesis using same_store_inv [OF failed(2) assms] by simp
next
  case (appended fs)
  have "store_inv (st\<lparr>db_faults := fs\<rparr>)" by (rule same_store_inv [OF _ assms]) simp
  then show ?thesis using appended by (simp add: insert_event_inv)
qed

lemma events_List_same: "same_db st (snd (events_List f st))"
  unfolding events_List_def
  by (rule seq_wrap, simp) (simp only: Let_def, rule seq_stmt, simp_all)

lemma events_Prune_inv:
  assumes "store_inv st"
  shows "store_inv (snd (events_Prune keep st))"
  unfolding events_Prune_def Let_def
  by (rule seq_wrap) (use assms in \<open>auto simp: store_inv_def tags_inv_def sessions_inv_def events_inv_def
      filter_le_antimono\<close>)

section \<open>The log as a list, newest first\<close>

definition newest_first :: "event_filter \<Rightarrow> store \<Rightarrow> event_row list" where
  "newest_first f st = rev (filter (list_where f) (db_events st))"

lemma events_sorted:
  assumes "store_inv st"
  shows "sorted_wrt (<) (map er_id (filter P (db_events st)))"
    and "sort_key er_id (filter P (db_events st)) = filter P (db_events st)"
proof -
  show s: "sorted_wrt (<) (map er_id (filter P (db_events st)))"
    using assms by (simp add: store_inv_def events_inv_def filter_le_antimono)
  then show "sort_key er_id (filter P (db_events st)) = filter P (db_events st)"
    by (rule sorted_less_sort_key)
qed

lemma newest_first_sorted:
  "store_inv st \<Longrightarrow> sorted_wrt (>) (map er_id (newest_first f st))"
  using events_sorted(1) [of st "list_where f"]
  by (simp add: newest_first_def sorted_wrt_rev flip: rev_map)

lemma events_List_up:
  assumes "db_up st" and "store_inv st"
  shows "\<exists>st'. events_List f st =
      (Inr (map scanEvent (take (nat (list_limit f)) (newest_first f st))), st') \<and>
      db_up st' \<and> same_db st st'"
  unfolding events_List_def Let_def
  apply (rule seq_wrap_up [OF assms(1)])
  apply (rule seq_stmt_up, simp)
  apply (simp add: newest_first_def events_sorted(2) [OF assms(2)])
  done

lemma newest_first_same: "same_db st st' \<Longrightarrow> newest_first f st' = newest_first f st"
  by (simp add: newest_first_def same_db_def)

lemma descending_below_last:
  assumes "sorted_wrt (>) (map f xs :: int list)" and "0 < k" and "xs \<noteq> []"
  shows "filter (\<lambda>x. f x < f (last (take k xs))) xs = drop k xs"
proof -
  have "\<And>x. x \<in> set (take k xs) \<Longrightarrow> f (last (take k xs)) \<le> f x"
  proof -
    fix x assume "x \<in> set (take k xs)"
    then obtain ys zs where t: "take k xs = ys @ x # zs" by (meson split_list)
    have "sorted_wrt (>) (map f (take k xs))"
      using assms(1) by (simp add: sorted_wrt_take flip: take_map)
    with t show "f (last (take k xs)) \<le> f x"
      by (cases zs rule: rev_cases) (auto simp: sorted_wrt_append)
  qed
  then have "filter (\<lambda>x. f x < f (last (take k xs))) (take k xs) = []"
    by (auto simp: filter_empty_conv not_less)
  moreover have "filter (\<lambda>x. f x < f (last (take k xs))) (drop k xs) = drop k xs"
  proof -
    have "last (take k xs) \<in> set (take k xs)" using assms(2,3) by (intro last_in_set) auto
    moreover have "sorted_wrt (>) (map f (take k xs @ drop k xs))" using assms(1) by simp
    ultimately have "\<forall>y \<in> set (drop k xs). f y < f (last (take k xs))"
      by (simp only: map_append sorted_wrt_append) auto
    then show ?thesis by (simp add: filter_id_conv)
  qed
  ultimately show ?thesis
    by (metis append_Nil append_take_drop_id filter_append)
qed

section \<open>Properties\<close>

text \<open>Listing on a working database returns the matching events newest first, at most the
  effective limit of them (100 when none is given, never more than 1000), and none is skipped:
  every stored event that matches the filter is in the list or is older than everything in it,
  and it is only left out when the list is full.\<close>

theorem list_events_newest:
  assumes "db_up st" and "store_inv st"
  shows "\<exists>out st'. events_List f st = (Inr out, st') \<and> same_db st st' \<and>
     length out \<le> nat (list_limit f) \<and> 1 \<le> list_limit f \<and> list_limit f \<le> 1000 \<and>
     sorted_wrt (>) (map ev_ID out) \<and>
     set out \<subseteq> scanEvent ` {r \<in> set (db_events st). list_where f r} \<and>
     (\<forall>r \<in> set (db_events st). list_where f r \<longrightarrow>
        scanEvent r \<in> set out \<or> length out = nat (list_limit f) \<and> (\<forall>e \<in> set out. er_id r < ev_ID e))"
proof -
  let ?k = "nat (list_limit f)" and ?L = "newest_first f st"
  obtain st' where l: "events_List f st = (Inr (map scanEvent (take ?k ?L)), st')" "same_db st st'"
    using events_List_up [OF assms] by blast
  have id: "map ev_ID (map scanEvent xs) = map er_id xs" for xs
    by (simp add: scanEvent_def)
  have set: "set ?L = {r \<in> set (db_events st). list_where f r}"
    by (auto simp: newest_first_def)
  have sorted: "sorted_wrt (>) (map er_id (take ?k ?L) @ map er_id (drop ?k ?L))"
    using newest_first_sorted [OF assms(2), of f] by (simp flip: map_append)
  have rest: "length (take ?k ?L) = ?k \<and> (\<forall>e \<in> set (map scanEvent (take ?k ?L)). er_id r < ev_ID e)"
    if "r \<in> set (drop ?k ?L)" for r
  proof -
    from that have "?k < length ?L" by (metis drop_eq_Nil empty_iff empty_set not_less)
    with that sorted show ?thesis by (auto simp: sorted_wrt_append scanEvent_def)
  qed
  have "scanEvent r \<in> set (map scanEvent (take ?k ?L)) \<or>
      length (map scanEvent (take ?k ?L)) = ?k \<and> (\<forall>e \<in> set (map scanEvent (take ?k ?L)). er_id r < ev_ID e)"
    if "r \<in> set (db_events st)" "list_where f r" for r
  proof -
    from that set have "r \<in> set (take ?k ?L @ drop ?k ?L)" by simp
    with rest show ?thesis by (auto simp del: append_take_drop_id)
  qed
  moreover have "sorted_wrt (>) (map ev_ID (map scanEvent (take ?k ?L)))"
    using sorted by (simp only: id sorted_wrt_append)
  moreover have "set (map scanEvent (take ?k ?L)) \<subseteq> scanEvent ` {r \<in> set (db_events st). list_where f r}"
    unfolding set [symmetric] by (auto dest: in_set_takeD)
  moreover have "1 \<le> list_limit f" "list_limit f \<le> 1000" by (simp_all add: list_limit_def Let_def)
  ultimately show ?thesis using l by (intro exI [of _ "map scanEvent (take ?k ?L)"] exI [of _ st']) simp
qed

definition example_event :: event where
  "example_event = \<lparr>ev_ID = 0, ev_TS = [], ev_TagID = None, ev_Direction = ''up'', ev_Kind = ''data'',
     ev_Freq = None, ev_DR = None, ev_FCnt = None, ev_FPort = None, ev_RSSI = None, ev_SNR = None,
     ev_PayloadHex = ''01'', ev_Decoded = [], ev_Result = []\<rparr>"

definition example_filter :: event_filter where
  "example_filter = \<lparr>ef_TagID = None, ef_Direction = ''up'', ef_BeforeID = 0, ef_Limit = 1\<rparr>"

definition example_log :: store where
  "example_log = insert_event example_event (insert_event example_event (store_New NewInsecureDisabled))"

lemma example_log: "db_up example_log" "store_inv example_log"
  "db_events example_log = [event_row_of 1 [] example_event, event_row_of 2 [] example_event]"
proof -
  show "store_inv example_log" unfolding example_log_def
    by (intro insert_event_inv store_inv_New) (simp_all add: example_event_def)
qed (simp_all add: example_log_def insert_event_def store_New_def db_up_def)

theorem list_events_newest_witness:
  "\<exists>e st'. events_List example_filter example_log = (Inr [e], st') \<and> ev_ID e = 2"
proof -
  obtain out st' where o: "events_List example_filter example_log = (Inr out, st')"
    "length out \<le> 1" "set out \<subseteq> scanEvent ` set (db_events example_log)"
    "scanEvent (event_row_of 1 [] example_event) \<in> set out \<or> (\<forall>e \<in> set out. 1 < ev_ID e)"
    "scanEvent (event_row_of 2 [] example_event) \<in> set out \<or> (\<forall>e \<in> set out. 2 < ev_ID e) \<and> length out = 1"
    using list_events_newest [OF example_log(1,2), of example_filter]
    by (auto simp: example_log(3) example_filter_def list_limit_def list_where_def
        event_row_of_def example_event_def)
  from o(3,5) have two: "scanEvent (event_row_of 2 [] example_event) \<in> set out"
    by (cases out) (auto simp: example_log(3) scanEvent_def event_row_of_def)
  with o(2) have "out = [scanEvent (event_row_of 2 [] example_event)]"
    by (cases out) auto
  with o(1) show ?thesis by (simp add: scanEvent_def event_row_of_def)
qed

text \<open>Keyset pagination: each page asks for the events before the last id of the page before it.\<close>

fun list_pages :: "nat \<Rightarrow> event_filter \<Rightarrow> store \<Rightarrow> event list" where
  "list_pages 0 f st = []"
| "list_pages (Suc n) f st =
     (case events_List f st of
        (Inr (e # es), st') \<Rightarrow> (e # es) @ list_pages n (f\<lparr>ef_BeforeID := ev_ID (last (e # es))\<rparr>) st'
      | _ \<Rightarrow> [])"

lemma newest_first_before:
  assumes "store_inv st" and "0 < k" and "newest_first f st \<noteq> []"
  shows "newest_first (f\<lparr>ef_BeforeID := er_id (last (take k (newest_first f st)))\<rparr>) st =
    drop k (newest_first f st)"
proof -
  let ?L = "newest_first f st"
  let ?l = "last (take k ?L)"
  have "?l \<in> set (take k ?L)" using assms(2,3) by (intro last_in_set) auto
  then have l: "?l \<in> set (db_events st)" "list_where f ?l"
    by (auto simp: newest_first_def dest!: in_set_takeD)
  with assms(1) have pos: "0 < er_id ?l" by (force simp: store_inv_def events_inv_def)
  with l(2) have "list_where (f\<lparr>ef_BeforeID := er_id ?l\<rparr>) r = (list_where f r \<and> er_id r < er_id ?l)" for r
    by (auto simp: list_where_def)
  then have "newest_first (f\<lparr>ef_BeforeID := er_id ?l\<rparr>) st = filter (\<lambda>r. er_id r < er_id ?l) ?L"
    unfolding newest_first_def rev_filter filter_filter by (intro filter_cong refl) simp
  also have "\<dots> = drop k ?L"
    by (rule descending_below_last [OF newest_first_sorted [OF assms(1)] assms(2,3)])
  finally show ?thesis .
qed

lemma list_pages_all:
  assumes "db_up st" and "store_inv st" and "length (newest_first f st) < n"
  shows "list_pages n f st = map scanEvent (newest_first f st)"
  using assms
proof (induction n arbitrary: f st)
  case (Suc n)
  let ?k = "nat (list_limit f)" and ?L = "newest_first f st"
  obtain st' where l: "events_List f st = (Inr (map scanEvent (take ?k ?L)), st')" "db_up st'" "same_db st st'"
    using events_List_up [OF Suc.prems(1,2)] by blast
  have k: "0 < ?k" by (simp add: list_limit_def Let_def)
  show ?case
  proof (cases ?L)
    case Nil
    with l(1) show ?thesis by simp
  next
    case (Cons x xs)
    define b where "b = er_id (last (take ?k ?L))"
    have ne: "take ?k ?L \<noteq> []" using k Cons by simp
    have b: "ev_ID (last (map scanEvent (take ?k ?L))) = b"
      by (simp only: b_def last_map [OF ne]) (simp add: scanEvent_def)
    have d: "newest_first (f\<lparr>ef_BeforeID := b\<rparr>) st' = drop ?k ?L"
      unfolding newest_first_same [OF l(3)] b_def
      by (rule newest_first_before [OF Suc.prems(2) k]) (simp add: Cons)
    have "length (drop ?k ?L) < n" using Suc.prems(3) k Cons by simp
    then have ih: "list_pages n (f\<lparr>ef_BeforeID := b\<rparr>) st' = map scanEvent (drop ?k ?L)"
      using Suc.IH [OF l(2) same_store_inv [OF l(3) Suc.prems(2)], of "f\<lparr>ef_BeforeID := b\<rparr>"] d by simp
    obtain e es where p: "map scanEvent (take ?k ?L) = e # es" using ne by (cases "take ?k ?L") auto
    have "list_pages (Suc n) f st = map scanEvent (take ?k ?L) @ map scanEvent (drop ?k ?L)"
      using l(1) b ih by (simp add: p)
    then show ?thesis by (metis append_take_drop_id map_append)
  qed
qed simp

text \<open>C16: paging through the log with \<open>before_id\<close> set to the last id of each page visits every event
  that matches the filter exactly once, newest first, whatever the page limit.\<close>

theorem pagination_complete:
  assumes "db_up st" and "store_inv st" and "length (db_events st) < n"
  shows "list_pages n f st = map scanEvent (rev (filter (list_where f) (db_events st)))"
proof -
  have "length (newest_first f st) < n"
    using le_less_trans [OF length_filter_le assms(3)] by (simp add: newest_first_def)
  from list_pages_all [OF assms(1,2) this] show ?thesis by (simp add: newest_first_def)
qed

theorem pagination_complete_witness:
  "map ev_ID (list_pages 3 example_filter example_log) = [2, 1]"
  using pagination_complete [OF example_log(1,2), of 3 example_filter]
  by (simp add: example_log(3) list_where_def example_filter_def event_row_of_def example_event_def scanEvent_def)

text \<open>C29: pruning keeps exactly the newest \<open>keep\<close> events (none for a negative \<open>keep\<close>), in order,
  reports how many it deleted, and does not touch the other tables or the id sequence.\<close>

theorem prune_keeps_newest:
  assumes "db_up st" and "store_inv st"
  shows "\<exists>st'. events_Prune keep st =
       (Inr (int (length (db_events st)) - int (length (db_events st'))), st') \<and>
     db_events st' = drop (length (db_events st) - nat keep) (db_events st) \<and>
     db_tags st' = db_tags st \<and> db_sessions st' = db_sessions st \<and>
     db_event_seq st' = db_event_seq st \<and> db_gateway st' = db_gateway st"
proof -
  let ?E = "db_events st" and ?n = "length (db_events st) - nat keep"
  have sorted: "sorted_wrt (<) (map er_id ?E)" using assms(2) by (simp add: store_inv_def events_inv_def)
  have sk: "sort_key er_id ?E = ?E" by (rule sorted_less_sort_key [OF sorted])
  have "sorted_wrt (<) (map er_id (take ?n ?E) @ map er_id (drop ?n ?E))"
    using sorted by (simp flip: map_append)
  then have "\<forall>x \<in> set (take ?n ?E). \<forall>y \<in> set (drop ?n ?E). er_id x < er_id y"
    by (simp add: sorted_wrt_append)
  then have "filter (\<lambda>r. er_id r \<in> er_id ` set (drop ?n ?E)) (take ?n ?E) = []"
    by (force simp: filter_empty_conv)
  moreover have "filter (\<lambda>r. er_id r \<in> er_id ` set (drop ?n ?E)) (drop ?n ?E) = drop ?n ?E"
    by (simp add: filter_id_conv)
  ultimately have kept: "filter (\<lambda>r. er_id r \<in> er_id ` set (drop ?n ?E)) ?E = drop ?n ?E"
    by (metis append_Nil append_take_drop_id filter_append)
  have newest: "set (take (nat keep) (rev ?E)) = set (drop ?n ?E)"
    by (simp add: take_rev)
  have k: "nat (if keep < 0 then 0 else keep) = nat keep" by simp
  show ?thesis
    unfolding events_Prune_def Let_def k
    by (rule seq_wrap_up [OF assms(1)]) (simp add: sk newest kept)
qed

theorem prune_keeps_newest_witness:
  "\<exists>st'. events_Prune 1 example_log = (Inr 1, st') \<and> map er_id (db_events st') = [2]"
  using prune_keeps_newest [OF example_log(1,2), of 1]
  by (auto simp: example_log(3) event_row_of_def)

end
