(* ===== verification/Issuer.thy ===== *)
theory Issuer
  imports Main
begin

text \<open>
  Operations that hand out numbers and must not hand out one twice: the DevNonces and the frame
  counters of the session table. The contract is stated once, over a step function that returns the new state and the number it
  issued, if any; a run of steps then issues strictly increasing numbers.
\<close>

fun issued :: "('op \<Rightarrow> 's \<Rightarrow> 'n option \<times> 's) \<Rightarrow> 'op list \<Rightarrow> 's \<Rightarrow> 'n list" where
  "issued step [] s = []"
| "issued step (op # ops) s =
     (case step op s of
        (None, s') \<Rightarrow> issued step ops s'
      | (Some n, s') \<Rightarrow> n # issued step ops s')"

text \<open>
  The contract: a mark that no step lowers, below every number issued from now on, and that an
  issue passes. Some steps may be excluded (a join resets the frame counter, for instance).
\<close>

locale issuer =
  fixes step :: "'op \<Rightarrow> 's \<Rightarrow> 'n option \<times> 's"
    and inv :: "'s \<Rightarrow> bool"
    and allowed :: "'op \<Rightarrow> bool"
    and mark :: "'s \<Rightarrow> 'm::linorder"
    and val :: "'n \<Rightarrow> 'm"
  assumes inv: "inv s \<Longrightarrow> inv (snd (step op s))"
    and quiet: "inv s \<Longrightarrow> allowed op \<Longrightarrow> step op s = (None, s') \<Longrightarrow> mark s \<le> mark s'"
    and issue: "inv s \<Longrightarrow> allowed op \<Longrightarrow> step op s = (Some n, s') \<Longrightarrow> mark s \<le> val n \<and> val n < mark s'"
begin

lemma mark_mono:
  assumes "inv s" and "allowed op"
  shows "mark s \<le> mark (snd (step op s))"
  using quiet [OF assms] issue [OF assms] by (cases "step op s"; cases "fst (step op s)") fastforce+

lemma issued_above_mark:
  "inv s \<Longrightarrow> list_all allowed ops \<Longrightarrow> n \<in> set (issued step ops s) \<Longrightarrow> mark s \<le> val n"
proof (induction ops arbitrary: s)
  case (Cons op ops)
  obtain r s' where st: "step op s = (r, s')" by fastforce
  have t: "inv s'" using inv [OF Cons.prems(1), of op] st by simp
  have le: "mark s \<le> mark s'" using mark_mono [OF Cons.prems(1), of op] Cons.prems(2) st by simp
  show ?case
  proof (cases "n \<in> set (issued step ops s')")
    case True
    with Cons.IH [OF t] Cons.prems(2) le show ?thesis by force
  next
    case False
    with Cons.prems(3) st have "r = Some n" by (cases r) auto
    with issue [OF Cons.prems(1)] Cons.prems(2) st show ?thesis by auto
  qed
qed simp

lemma issued_increasing:
  "inv s \<Longrightarrow> list_all allowed ops \<Longrightarrow> sorted_wrt (<) (map val (issued step ops s))"
proof (induction ops arbitrary: s)
  case (Cons op ops)
  obtain r s' where st: "step op s = (r, s')" by fastforce
  have t: "inv s'" using inv [OF Cons.prems(1), of op] st by simp
  show ?case
  proof (cases r)
    case None
    with Cons.IH [OF t] Cons.prems(2) st show ?thesis by simp
  next
    case (Some n)
    with st issue [OF Cons.prems(1)] Cons.prems(2) have "val n < mark s'" by auto
    moreover have "mark s' \<le> val m" if "m \<in> set (issued step ops s')" for m
      using issued_above_mark [OF t _ that] Cons.prems(2) by simp
    ultimately show ?thesis
      using Cons.IH [OF t] Cons.prems(2) st Some by force
  qed
qed simp

lemma issued_distinct:
  assumes "inv s" and "list_all allowed ops"
  shows "distinct (issued step ops s)"
proof -
  have "distinct (map val (issued step ops s))"
    using issued_increasing [OF assms] strict_sorted_iff by blast
  then show ?thesis by (rule distinct_map [THEN iffD1, THEN conjunct1])
qed

end

end
