(* ===== verification/StoreOps.thy ===== *)
theory StoreOps
  imports GatewayRepo SessionRepo EventRepo Issuer "HOL-Library.Extended_Nat"
begin

text \<open>
  The store as a whole: every repository operation as one step on the same tables, interleaved in
  any order with each other and with changes of the environment (failing statements, the clock,
  the entropy source). Each operation runs under the store's write mutex or is a single read, so
  an interleaving of callers is a sequence of these steps.
\<close>

datatype store_op =
    OpSetEUI string
  | OpUpdateConfig string int string
  | OpEnsureEUI string string
  | OpCreateTag new_tag
  | OpDeleteTag int
  | OpGetTag int
  | OpGetByDevEUI string
  | OpListTags
  | OpGetSession int
  | OpNextDevNonce int
  | OpSaveJoinResult int join_state
  | OpTakeFCntUp int
  | OpSetFCntDown int u32
  | OpAppend event
  | OpListEvents event_filter
  | OpPrune int
  | OpEnv "string option list" string entropy

fun exec_op :: "store_op \<Rightarrow> store \<Rightarrow> store" where
  "exec_op (OpSetEUI e) st = snd (SetEUI e st)"
| "exec_op (OpUpdateConfig r b m) st = snd (UpdateConfig r b m st)"
| "exec_op (OpEnsureEUI c p) st = snd (EnsureEUI c p st)"
| "exec_op (OpCreateTag nt) st = snd (tags_Create nt st)"
| "exec_op (OpDeleteTag t) st = snd (tags_Delete t st)"
| "exec_op (OpGetTag t) st = snd (tags_Get t st)"
| "exec_op (OpGetByDevEUI d) st = snd (tags_GetByDevEUI d st)"
| "exec_op OpListTags st = snd (tags_List st)"
| "exec_op (OpGetSession t) st = snd (sessions_Get t st)"
| "exec_op (OpNextDevNonce t) st = snd (NextDevNonce t st)"
| "exec_op (OpSaveJoinResult t js) st = snd (SaveJoinResult t js st)"
| "exec_op (OpTakeFCntUp t) st = snd (TakeFCntUp t st)"
| "exec_op (OpSetFCntDown t f) st = snd (SetFCntDown t f st)"
| "exec_op (OpAppend e) st = snd (events_Append e st)"
| "exec_op (OpListEvents f) st = snd (events_List f st)"
| "exec_op (OpPrune k) st = snd (events_Prune k st)"
| "exec_op (OpEnv fs c r) st = st\<lparr>db_faults := fs, st_clock := c, st_entropy := r\<rparr>"

inductive store_step :: "store \<Rightarrow> store \<Rightarrow> bool" where
  op: "store_step st (exec_op op st)"

inductive store_reachable :: "cipher \<Rightarrow> store \<Rightarrow> bool" for c where
  init: "store_reachable c (store_New c)"
| step: "store_reachable c st \<Longrightarrow> store_step st st' \<Longrightarrow> store_reachable c st'"

inductive_cases store_stepE: "store_step st st'"

section \<open>What the operations on the gateway row leave alone\<close>

definition same_tables :: "store \<Rightarrow> store \<Rightarrow> bool" where
  "same_tables s t =
     (db_tags s = db_tags t \<and> db_tag_seq s = db_tag_seq t \<and> db_sessions s = db_sessions t \<and>
      db_events s = db_events t \<and> db_event_seq s = db_event_seq t \<and> st_cipher s = st_cipher t)"

lemma same_tables_refl [simp]: "same_tables s s"
  by (simp add: same_tables_def)

lemma same_tables_upd [simp]:
  "same_tables (s\<lparr>db_faults := fs\<rparr>) t = same_tables s t" "same_tables s (t\<lparr>db_faults := fs\<rparr>) = same_tables s t"
  "same_tables (s\<lparr>st_entropy := r\<rparr>) t = same_tables s t" "same_tables s (t\<lparr>st_entropy := r\<rparr>) = same_tables s t"
  "same_tables (s\<lparr>db_gateway := g\<rparr>) t = same_tables s t" "same_tables s (t\<lparr>db_gateway := g\<rparr>) = same_tables s t"
  by (simp_all add: same_tables_def)

lemma same_db_tables: "same_db s t \<Longrightarrow> same_tables s t"
  by (simp add: same_db_def same_tables_def)

lemma same_tables_inv: "same_tables s t \<Longrightarrow> store_inv s \<Longrightarrow> store_inv t"
  by (simp add: same_tables_def store_inv_def tags_inv_def sessions_inv_def events_inv_def)

lemma gateway_Get_tables [simp]: "same_tables s (snd (gateway_Get t)) = same_tables s t"
  by (cases t rule: gateway_Get_cases) simp_all

lemma gateway_create_tables [simp]: "same_tables st (snd (gateway_create eui st))"
  unfolding gateway_create_def Let_def
  by (rule seq_wrap) (auto split: option.splits)

lemma SetEUI_tables: "same_tables st (snd (SetEUI eui st))"
proof (cases "NormalizeEUI eui")
  case (Inr neui)
  show ?thesis
  proof (cases st rule: gateway_Get_cases)
    case (none fs)
    with Inr gateway_create_tables [of "st\<lparr>db_faults := fs\<rparr>" neui] show ?thesis
      by (simp add: SetEUI_def del: gateway_create_tables)
  next
    case (some g fs)
    show ?thesis
      unfolding SetEUI_def Inr sum.case some prod.case Let_def
      by (rule seq_wrap) simp_all
  qed (use Inr in \<open>auto simp: SetEUI_def\<close>)
qed (simp add: SetEUI_def)

lemma UpdateConfig_tables: "same_tables st (snd (UpdateConfig r b m st))"
  unfolding UpdateConfig_def Let_def
  by (rule seq_wrap) (auto split: option.splits)

lemma EnsureEUI_tables: "same_tables st (snd (EnsureEUI cfg p st))"
proof (cases "cfg = []")
  case True
  have c: "same_tables st (snd (gateway_create e (st\<lparr>db_faults := fs, st_entropy := r\<rparr>)))" for e fs r
    using gateway_create_tables [of "st\<lparr>db_faults := fs, st_entropy := r\<rparr>" e]
    by (simp del: gateway_create_tables)
  show ?thesis
  proof (cases st rule: gateway_Get_cases)
    case (none fs)
    with True c show ?thesis by (auto simp: EnsureEUI_def split: prod.splits sum.splits)
  qed (use True in \<open>auto simp: EnsureEUI_def\<close>)
qed (simp add: EnsureEUI_def SetEUI_tables)

lemmas gateway_ops_tables = SetEUI_tables UpdateConfig_tables EnsureEUI_tables
lemmas reads_same = tags_Get_same tags_GetByDevEUI_same tags_List_same sessions_Get_same events_List_same

lemma exec_op_inv: "store_inv st \<Longrightarrow> store_inv (exec_op op st)"
  by (cases op)
    (simp_all add: tags_Create_inv tags_Delete_inv session_op_inv events_Append_inv events_Prune_inv
      reads_same [THEN same_store_inv] gateway_ops_tables [THEN same_tables_inv]
      same_tables_inv [of st, OF same_db_tables] same_db_def)

lemma same_db_gateway: "same_db s t \<Longrightarrow> gateway_inv s \<Longrightarrow> gateway_inv t"
  by (simp add: same_db_def gateway_inv_def)

lemma gateway_frame_sessions:
  "db_gateway (snd (NextDevNonce t st)) = db_gateway st" "db_gateway (snd (TakeFCntUp t st)) = db_gateway st"
  "db_gateway (snd (SetFCntDown t f st)) = db_gateway st" "db_gateway (snd (SaveJoinResult t js st)) = db_gateway st"
  by (cases t st rule: NextDevNonce_cases, auto simp: same_db_def)
    (cases t st rule: TakeFCntUp_cases, auto simp: same_db_def,
     cases t f st rule: SetFCntDown_cases, auto simp: same_db_def,
     cases t js st rule: SaveJoinResult_cases, auto simp: same_db_def)

lemma gateway_frame_Create: "db_gateway (snd (tags_Create nt st)) = db_gateway st"
proof (cases nt st rule: tags_Create_cases)
  case (committed k ent fs)
  then show ?thesis
    using tags_Get_same [of "insert_tag nt k (st\<lparr>st_entropy := ent, db_faults := fs\<rparr>)" "db_tag_seq st + 1"]
    by (simp add: same_db_def insert_tag_def)
qed (simp add: same_db_def)

lemma gateway_frame_tables:
  "db_gateway (snd (tags_Delete t st)) = db_gateway st" "db_gateway (snd (events_Prune k st)) = db_gateway st"
  unfolding tags_Delete_def events_Prune_def Let_def
  by (rule seq_wrap; simp)+

lemma gateway_frame_Append: "db_gateway (snd (events_Append e st)) = db_gateway st"
  by (cases e st rule: events_Append_cases) (simp_all add: same_db_def insert_event_def)

lemma exec_op_gateway_inv: "gateway_inv st \<Longrightarrow> gateway_inv (exec_op op st)"
  by (cases op)
    (simp_all add: SetEUI_inv UpdateConfig_inv EnsureEUI_inv reads_same [THEN same_db_gateway],
     simp_all add: gateway_inv_def gateway_frame_sessions gateway_frame_Create gateway_frame_tables
       gateway_frame_Append)

lemma reachable_inv: "store_reachable c st \<Longrightarrow> store_inv st \<and> gateway_inv st"
proof (induction rule: store_reachable.induct)
  case init
  have "gateway_inv (store_New c)" by (simp add: gateway_inv_def store_New_def)
  then show ?case by (simp add: store_inv_New)
next
  case (step st st')
  then show ?case by (auto elim!: store_stepE simp: exec_op_inv exec_op_gateway_inv)
qed

section \<open>Counters of a session\<close>

text \<open>
  The least number a counter can still issue: the row's counter, 0 for an id not yet given out,
  and no number at all for the session of a deleted tag, whose id does not come back.
\<close>

definition counter_mark :: "(session_row \<Rightarrow> int) \<Rightarrow> int \<Rightarrow> store \<Rightarrow> enat" where
  "counter_mark g tid st =
     (case find_session tid st of
        Some r \<Rightarrow> enat (nat (g r))
      | None \<Rightarrow> if tid \<le> db_tag_seq st then \<infinity> else 0)"

lemma counter_mark_tables: "same_tables s t \<Longrightarrow> counter_mark g tid s = counter_mark g tid t"
  by (simp add: counter_mark_def find_session_def same_tables_def)

lemma counter_mark_upd:
  assumes "\<And>s. sr_tag_id (f s) = sr_tag_id s" and "\<And>s. t = tid \<Longrightarrow> g s \<le> g (f s)"
  shows "counter_mark g tid st \<le> counter_mark g tid (upd_session t f st)"
  using assms(2) by (auto simp: counter_mark_def find_session_upd assms(1) nat_mono split: option.splits)

lemma counter_mark_upd_env:
  assumes "same_tables st s" and "\<And>r. sr_tag_id (f r) = sr_tag_id r" and "\<And>r. t = tid \<Longrightarrow> g r \<le> g (f r)"
  shows "counter_mark g tid st \<le> counter_mark g tid (upd_session t f s)"
  unfolding counter_mark_tables [OF assms(1)] using assms(2,3) by (rule counter_mark_upd)

lemma counter_mark_insert: "counter_mark g tid st \<le> counter_mark g tid (insert_tag nt k st)"
  by (auto simp: counter_mark_def find_session_def insert_tag_def find_append session_row_of_def
      split: option.splits)

lemma find_session_filter:
  "find (\<lambda>s. sr_tag_id s = t) (filter (\<lambda>s. sr_tag_id s \<noteq> d) xs) =
     (if t = d then None else find (\<lambda>s. sr_tag_id s = t) xs)"
  by (induction xs) auto

lemma session_tid_le:
  assumes "store_inv st" and "find_session tid st = Some r"
  shows "tid \<le> db_tag_seq st"
proof -
  have "r \<in> set (db_sessions st)" "sr_tag_id r = tid"
    using assms(2) by (auto simp: find_session_def find_Some_iff)
  then have "tid \<in> set (map sr_tag_id (db_sessions st))" by force
  then have "tid \<in> set (map tr_id (db_tags st))"
    using assms(1) by (simp only: store_inv_def sessions_inv_def)
  with assms(1) show ?thesis by (auto simp: store_inv_def tags_inv_def)
qed

lemma counter_mark_Delete:
  assumes "store_inv st"
  shows "counter_mark g tid st \<le> counter_mark g tid (snd (tags_Delete d st))"
  unfolding tags_Delete_def
proof (rule seq_wrap)
  fix fs
  let ?st = "st\<lparr>db_faults := fs\<rparr>"
  show "counter_mark g tid st \<le> counter_mark g tid (snd (if find_tag d ?st = None then (Inl ErrNotFound :: unit res, ?st)
     else (Inr (), ?st\<lparr>db_tags := filter (\<lambda>r. tr_id r \<noteq> d) (db_tags ?st),
              db_sessions := filter (\<lambda>s. sr_tag_id s \<noteq> d) (db_sessions ?st),
              db_events := map (\<lambda>e. if er_tag_id e = Some d then e\<lparr>er_tag_id := None\<rparr> else e) (db_events ?st)\<rparr>)))"
    using session_tid_le [OF assms, of tid]
    by (auto simp: counter_mark_def find_session_def find_session_filter split: option.splits)
qed (simp add: counter_mark_def find_session_def)

lemma counter_mark_Create: "counter_mark g tid st \<le> counter_mark g tid (snd (tags_Create nt st))"
proof (cases nt st rule: tags_Create_cases)
  case (rolled_back e st')
  then show ?thesis using counter_mark_tables [OF same_db_tables [OF rolled_back(2)]] by simp
next
  case (committed k ent fs)
  let ?s = "st\<lparr>st_entropy := ent, db_faults := fs\<rparr>"
  have "counter_mark g tid st = counter_mark g tid ?s" by (rule counter_mark_tables) simp
  also have "\<dots> \<le> counter_mark g tid (insert_tag nt k ?s)" by (rule counter_mark_insert)
  also have "\<dots> = counter_mark g tid (snd (tags_Create nt st))"
    unfolding committed(4) by (rule counter_mark_tables [OF same_db_tables [OF tags_Get_same]])
  finally show ?thesis .
qed

lemma counter_mark_Append: "counter_mark g tid st \<le> counter_mark g tid (snd (events_Append e st))"
proof (cases e st rule: events_Append_cases)
  case (failed err st')
  then show ?thesis using counter_mark_tables [OF same_db_tables [OF failed(2)]] by simp
qed (simp add: counter_mark_def find_session_def insert_event_def)

lemma counter_mark_Prune: "counter_mark g tid st \<le> counter_mark g tid (snd (events_Prune k st))"
  unfolding events_Prune_def Let_def
  by (rule seq_wrap) (simp_all add: counter_mark_def find_session_def)

text \<open>How a session operation moves a counter: not at all, or as its row update does.\<close>

lemma counter_mark_session_op:
  assumes "op = OpNextDevNonce t \<or> op = OpTakeFCntUp t \<or> op = OpSetFCntDown t f \<or> op = OpSaveJoinResult t js"
    and "\<And>s now. t = tid \<Longrightarrow> op = OpNextDevNonce t \<Longrightarrow> g s \<le> g (nonce_row now s)"
    and "\<And>s now. t = tid \<Longrightarrow> op = OpTakeFCntUp t \<Longrightarrow> g s \<le> g (fcnt_row now s)"
    and "\<And>s now. t = tid \<Longrightarrow> op = OpSetFCntDown t f \<Longrightarrow> g s \<le> g (down_row f now s)"
    and "\<And>s now a b. t = tid \<Longrightarrow> op = OpSaveJoinResult t js \<Longrightarrow> g s \<le> g (joined_row js a b now s)"
  shows "counter_mark g tid st \<le> counter_mark g tid (exec_op op st)"
proof -
  have same: "counter_mark g tid st = counter_mark g tid s'" if "same_db st s'" for s'
    using that by (intro counter_mark_tables same_db_tables)
  from assms(1) consider "op = OpNextDevNonce t" | "op = OpTakeFCntUp t" | "op = OpSetFCntDown t f"
    | "op = OpSaveJoinResult t js" by blast
  then show ?thesis
  proof cases
    case 1
    then show ?thesis
      by (cases t st rule: NextDevNonce_cases) (use assms(2) in \<open>simp_all add: same counter_mark_upd_env\<close>)
  next
    case 2
    then show ?thesis
      by (cases t st rule: TakeFCntUp_cases) (use assms(3) in \<open>simp_all add: same counter_mark_upd_env\<close>)
  next
    case 3
    then show ?thesis
      by (cases t f st rule: SetFCntDown_cases) (use assms(4) in \<open>simp_all add: same counter_mark_upd_env\<close>)
  next
    case 4
    then show ?thesis
      by (cases t js st rule: SaveJoinResult_cases) (use assms(5) in \<open>simp_all add: same counter_mark_upd_env\<close>)
  qed
qed

lemma counter_mark_env:
  "counter_mark g tid (st\<lparr>db_faults := fs, st_clock := c, st_entropy := r\<rparr>) = counter_mark g tid st"
  by (rule counter_mark_tables) (simp add: same_tables_def)

lemma counter_mark_op:
  assumes "store_inv st"
    and "\<And>s now. op = OpNextDevNonce tid \<Longrightarrow> g s \<le> g (nonce_row now s)"
    and "\<And>s now. op = OpTakeFCntUp tid \<Longrightarrow> g s \<le> g (fcnt_row now s)"
    and "\<And>s now f. op = OpSetFCntDown tid f \<Longrightarrow> g s \<le> g (down_row f now s)"
    and "\<And>s now js a b. op = OpSaveJoinResult tid js \<Longrightarrow> g s \<le> g (joined_row js a b now s)"
  shows "counter_mark g tid st \<le> counter_mark g tid (exec_op op st)"
proof (cases op)
  case (OpNextDevNonce t)
  then show ?thesis by (intro counter_mark_session_op) (use assms in auto)
next
  case (OpTakeFCntUp t)
  then show ?thesis by (intro counter_mark_session_op) (use assms in auto)
next
  case (OpSetFCntDown t f)
  then show ?thesis by (intro counter_mark_session_op) (use assms in auto)
next
  case (OpSaveJoinResult t js)
  then show ?thesis by (intro counter_mark_session_op) (use assms in auto)
qed (simp_all add: assms(1) counter_mark_Create counter_mark_Delete counter_mark_Append counter_mark_Prune
    gateway_ops_tables [THEN counter_mark_tables, symmetric]
    reads_same [THEN same_db_tables, THEN counter_mark_tables, symmetric]
    counter_mark_env)

section \<open>Numbers are issued once\<close>

text \<open>A step of the store, with the DevNonce it gave to the device of one tag.\<close>

fun nonce_step :: "int \<Rightarrow> store_op \<Rightarrow> store \<Rightarrow> u16 option \<times> store" where
  "nonce_step tid op st =
     (if op = OpNextDevNonce tid then
        (case NextDevNonce tid st of (Inr n, st') \<Rightarrow> (Some n, st') | (Inl e, st') \<Rightarrow> (None, st'))
      else (None, exec_op op st))"

text \<open>A step of the store, with the uplink counter it gave to the device of one tag.\<close>

fun fcnt_step :: "int \<Rightarrow> store_op \<Rightarrow> store \<Rightarrow> u32 option \<times> store" where
  "fcnt_step tid op st =
     (if op = OpTakeFCntUp tid then
        (case TakeFCntUp tid st of (Inr n, st') \<Rightarrow> (Some n, st') | (Inl e, st') \<Rightarrow> (None, st'))
      else (None, exec_op op st))"

fun rejoins :: "int \<Rightarrow> store_op \<Rightarrow> bool" where
  "rejoins tid (OpSaveJoinResult t js) = (t = tid)"
| "rejoins tid op = False"

definition enat_of_word :: "'w::len word \<Rightarrow> enat" where
  "enat_of_word w = enat (unat w)"

lemma sorted_enat_of_word:
  "sorted_wrt (<) (map enat_of_word xs) \<longleftrightarrow> sorted_wrt (<) (xs :: 'w::len word list)"
  by (induction xs) (auto simp: enat_of_word_def word_less_nat_alt)

lemma nonce_step_snd: "snd (nonce_step tid op st) = exec_op op st"
  by (auto split: prod.splits sum.splits)

lemma fcnt_step_snd: "snd (fcnt_step tid op st) = exec_op op st"
  by (auto split: prod.splits sum.splits)

lemma NextDevNonce_issues:
  assumes "NextDevNonce tid st = (Inr n, st')"
  shows "counter_mark (\<lambda>r. sr_dev_nonce r + 1) tid st = enat_of_word n \<and>
    counter_mark (\<lambda>r. sr_dev_nonce r + 1) tid st' = enat (Suc (unat n))"
proof (cases tid st rule: NextDevNonce_cases)
  case (failed e st'')
  with assms show ?thesis by simp
next
  case (updated r fs)
  with assms have n: "sr_dev_nonce r + 1 = uint n" by (auto simp: res_simps)
  have st': "st' = upd_session tid (nonce_row (st_clock st)) (st\<lparr>db_faults := fs\<rparr>)"
    using updated(2) assms by simp
  have f: "find_session tid st' = Some (nonce_row (st_clock st) r)"
    by (simp add: st' find_session_upd updated(1))
  have now: "nat (sr_dev_nonce r + 1) = unat n" and nxt: "nat (sr_dev_nonce r + 1 + 1) = Suc (unat n)"
    unfolding n by (simp_all add: nat_add_distrib)
  have row: "sr_dev_nonce (nonce_row (st_clock st) r) = sr_dev_nonce r + 1" by (simp add: nonce_row_def)
  show ?thesis
    using nxt by (simp add: counter_mark_def updated(1) f enat_of_word_def now row)
qed

lemma TakeFCntUp_issues:
  assumes "TakeFCntUp tid st = (Inr n, st')"
  shows "counter_mark sr_fcnt_up tid st = enat_of_word n \<and>
    counter_mark sr_fcnt_up tid st' = enat (Suc (unat n))"
proof (cases tid st rule: TakeFCntUp_cases)
  case (failed e st'')
  with assms show ?thesis by simp
next
  case (updated r fs)
  with assms have n: "sr_fcnt_up r = uint n" by (auto simp: res_simps)
  have st': "st' = upd_session tid (fcnt_row (st_clock st)) (st\<lparr>db_faults := fs\<rparr>)"
    using updated(2) assms by simp
  have f: "find_session tid st' = Some (fcnt_row (st_clock st) r)"
    by (simp add: st' find_session_upd updated(1))
  have now: "nat (sr_fcnt_up r) = unat n" and nxt: "nat (sr_fcnt_up r + 1) = Suc (unat n)"
    unfolding n by (simp_all add: nat_add_distrib)
  have row: "sr_fcnt_up (fcnt_row (st_clock st) r) = sr_fcnt_up r + 1" by (simp add: fcnt_row_def)
  show ?thesis
    using nxt by (simp add: counter_mark_def updated(1) f enat_of_word_def now row)
qed

interpretation nonces: issuer "nonce_step tid" store_inv "\<lambda>_. True"
  "counter_mark (\<lambda>r. sr_dev_nonce r + 1) tid" enat_of_word for tid
proof unfold_locales
  fix s op
  assume "store_inv s"
  then show "store_inv (snd (nonce_step tid op s))" by (simp only: nonce_step_snd exec_op_inv)
next
  fix s op s'
  assume "store_inv s" and "nonce_step tid op s = (None, s')"
  then show "counter_mark (\<lambda>r. sr_dev_nonce r + 1) tid s \<le> counter_mark (\<lambda>r. sr_dev_nonce r + 1) tid s'"
    using counter_mark_op [of s op tid "\<lambda>r. sr_dev_nonce r + 1"] nonce_step_snd [of tid op s]
    by (simp add: session_rows)
next
  fix s op n s'
  assume "nonce_step tid op s = (Some n, s')"
  then have "NextDevNonce tid s = (Inr n, s')" by (auto split: if_splits prod.splits sum.splits)
  from NextDevNonce_issues [OF this]
  show "counter_mark (\<lambda>r. sr_dev_nonce r + 1) tid s \<le> enat_of_word n \<and>
      enat_of_word n < counter_mark (\<lambda>r. sr_dev_nonce r + 1) tid s'"
    by (simp add: enat_of_word_def)
qed

interpretation fcnts: issuer "fcnt_step tid" store_inv "\<lambda>op. \<not> rejoins tid op"
  "counter_mark sr_fcnt_up tid" enat_of_word for tid
proof unfold_locales
  fix s op
  assume "store_inv s"
  then show "store_inv (snd (fcnt_step tid op s))" by (simp only: fcnt_step_snd exec_op_inv)
next
  fix s op s'
  assume "store_inv s" and "\<not> rejoins tid op" and "fcnt_step tid op s = (None, s')"
  moreover from this(2) have "op \<noteq> OpSaveJoinResult tid js" for js by auto
  ultimately show "counter_mark sr_fcnt_up tid s \<le> counter_mark sr_fcnt_up tid s'"
    using counter_mark_op [of s op tid sr_fcnt_up] fcnt_step_snd [of tid op s]
    by (simp add: session_rows)
next
  fix s op n s'
  assume "fcnt_step tid op s = (Some n, s')"
  then have "TakeFCntUp tid s = (Inr n, s')" by (auto split: if_splits prod.splits sum.splits)
  from TakeFCntUp_issues [OF this]
  show "counter_mark sr_fcnt_up tid s \<le> enat_of_word n \<and> enat_of_word n < counter_mark sr_fcnt_up tid s'"
    by (simp add: enat_of_word_def)
qed

section \<open>Properties\<close>

text \<open>C6: every state the store can reach, by any interleaving of its operations and any pattern of
  failing statements, satisfies the table invariant (sessions 1:1 with tags, unique device EUIs,
  ids in order and below their sequence, events refer to existing tags, a joined session has its
  address and keys) and holds a valid gateway identity if it holds one.\<close>

theorem store_reachable_inv:
  "store_reachable c st \<Longrightarrow>
     tags_inv st \<and> sessions_inv st \<and> events_inv st \<and> gateway_inv st"
  using reachable_inv store_inv_def by blast

theorem store_reachable_inv_witness:
  "sessions_inv (exec_op (OpCreateTag example_new_tag) (store_New NewInsecureDisabled))"
  using store_reachable_inv [OF store_reachable.step [OF store_reachable.init store_step.op]] by blast

text \<open>C2: the DevNonce of a device is monotonic and never reused: over any sequence of store operations
  from a reachable store, the DevNonces given out for one tag are strictly increasing, even across
  rejoins, failed statements and the deletion of the tag.\<close>

theorem dev_nonce_never_reused:
  assumes "store_reachable c st"
  shows "sorted_wrt (<) (issued (nonce_step tid) ops st)"
proof -
  have "sorted_wrt (<) (map enat_of_word (issued (nonce_step tid) ops st))"
    using assms reachable_inv by (intro nonces.issued_increasing) (auto simp: list_all_iff)
  then show ?thesis
    by (simp only: sorted_enat_of_word)
qed

lemma reachable_example: "store_reachable NewInsecureDisabled (exec_op (OpCreateTag example_new_tag) (store_New NewInsecureDisabled))"
  by (rule store_reachable.step [OF store_reachable.init store_step.op])

theorem dev_nonce_never_reused_witness:
  "sorted_wrt (<) (issued (nonce_step 1) [OpNextDevNonce 1, OpGetTag 1, OpNextDevNonce 1]
     (exec_op (OpCreateTag example_new_tag) (store_New NewInsecureDisabled)))"
  by (rule dev_nonce_never_reused [OF reachable_example])

text \<open>C10: between two joins of a device no uplink frame counter is used twice: over any sequence of
  store operations that saves no join for the tag, the counters that \<open>TakeFCntUp\<close> returns are
  strictly increasing.\<close>

theorem fcnt_up_never_reused:
  assumes "store_reachable c st" and "list_all (\<lambda>op. \<not> rejoins tid op) ops"
  shows "sorted_wrt (<) (issued (fcnt_step tid) ops st)"
proof -
  have "sorted_wrt (<) (map enat_of_word (issued (fcnt_step tid) ops st))"
    using assms reachable_inv by (intro fcnts.issued_increasing) auto
  then show ?thesis
    by (simp only: sorted_enat_of_word)
qed

theorem fcnt_up_never_reused_witness:
  "sorted_wrt (<) (issued (fcnt_step 1) [OpTakeFCntUp 1, OpNextDevNonce 1, OpTakeFCntUp 1]
     (exec_op (OpCreateTag example_new_tag) (store_New NewInsecureDisabled)))"
  by (rule fcnt_up_never_reused [OF reachable_example]) simp

end
