(* ===== verification/Directory.thy ===== *)
theory Directory
  imports StoreOps
begin

text \<open>
  The abstract store: a directory from tag ids to a tag with its session in plain text and its counters as
  numbers. \<open>dir_next\<close> says for each operation which outcome and which new directory it allows. The
  repositories refine it: on any store, with any statements failing, what an operation returns and what
  it leaves are allowed. On a calm store (no failing statement, enough entropy) an operation may not just fail.
\<close>

section \<open>The abstract machine\<close>

record entry =
  di_tag :: tag
  di_session :: session
  di_up :: int
  di_down :: int
  di_nonce :: int

type_synonym directory = "int \<Rightarrow> entry option"

datatype dir_out =
    OTag tag
  | OTags "tag list"
  | OSession session
  | ONonce u16
  | OFCnt u32
  | ODone
  | OMissing
  | OFailed
  | OOther

text \<open>A session is read with its counters, when they fit the Go integers.\<close>

definition session_out :: "entry \<Rightarrow> dir_out" where
  "session_out e =
     (if di_up e < 2 ^ 32 \<and> di_down e < 2 ^ 32 \<and> di_nonce e < 2 ^ 16
      then OSession ((di_session e)\<lparr>s_FCntUp := word_of_int (di_up e), s_FCntDown := word_of_int (di_down e),
             s_DevNonce := word_of_int (di_nonce e)\<rparr>)
      else OFailed)"

definition no_session :: "int \<Rightarrow> session" where
  "no_session t =
     \<lparr>s_TagID = t, s_DevAddr = [], s_NwkSKey = [], s_AppSKey = [], s_FCntUp = 0, s_FCntDown = 0, s_DevNonce = 0,
      s_RxDelay = 0, s_RX1DROffset = 0, s_RX2DR = 0, s_RX2Freq = 0, s_CFList = [], s_Joined = False\<rparr>"

definition new_entry :: "int \<Rightarrow> new_tag \<Rightarrow> string \<Rightarrow> entry" where
  "new_entry t nt now =
     \<lparr>di_tag = tag_of_new t nt now, di_session = no_session t, di_up = 0, di_down = 0, di_nonce = 0\<rparr>"

definition eui_used :: "string \<Rightarrow> directory \<Rightarrow> bool" where
  "eui_used u d = (\<exists>t e. d t = Some e \<and> t_DevEUI (di_tag e) = u)"

text \<open>What an operation on one entry does: its outcome and the new entry, or that there is none.\<close>

definition on_entry :: "int \<Rightarrow> (entry \<Rightarrow> dir_out \<times> entry option) \<Rightarrow> dir_out \<Rightarrow> directory \<Rightarrow> directory \<Rightarrow> bool" where
  "on_entry t f out d d' =
     (case d t of
        None \<Rightarrow> out = OMissing \<and> d' = d
      | Some e \<Rightarrow> (out, d') = (fst (f e), d(t := snd (f e))))"

definition failing :: "bool \<Rightarrow> dir_out \<Rightarrow> directory \<Rightarrow> directory \<Rightarrow> bool" where
  "failing calm out d d' = (\<not> calm \<and> out = OFailed \<and> d' = d)"

fun dir_next :: "bool \<Rightarrow> store_op \<Rightarrow> dir_out \<Rightarrow> directory \<Rightarrow> directory \<Rightarrow> bool" where
  "dir_next calm (OpGetTag t) out d d' =
     (failing calm out d d' \<or> on_entry t (\<lambda>e. (OTag (di_tag e), Some e)) out d d')"
| "dir_next calm (OpGetByDevEUI u) out d d' =
     (failing calm out d d' \<or>
      d' = d \<and> (if eui_used u d then (\<exists>t e. d t = Some e \<and> t_DevEUI (di_tag e) = u \<and> out = OTag (di_tag e)) else out = OMissing))"
| "dir_next calm OpListTags out d d' =
     (failing calm out d d' \<or> d' = d \<and> out = OTags (map (\<lambda>t. di_tag (the (d t))) (sorted_list_of_set (dom d))))"
| "dir_next calm (OpCreateTag nt) out d d' =
     (failing calm out d d' \<or>
      (if eui_used (nt_DevEUI nt) d then out = OFailed \<and> d' = d
       else \<exists>t now. (\<forall>u \<in> dom d. u < t) \<and> d' = d(t \<mapsto> new_entry t nt now) \<and>
         (out = OTag (tag_of_new t nt now) \<or> \<not> calm \<and> out = OFailed)))"
| "dir_next calm (OpDeleteTag t) out d d' =
     (failing calm out d d' \<or> on_entry t (\<lambda>e. (ODone, None)) out d d')"
| "dir_next calm (OpGetSession t) out d d' =
     (failing calm out d d' \<or> on_entry t (\<lambda>e. (session_out e, Some e)) out d d')"
| "dir_next calm (OpNextDevNonce t) out d d' =
     (failing calm out d d' \<or> on_entry t (\<lambda>e.
        (if di_nonce e + 1 < 2 ^ 16 then ONonce (word_of_int (di_nonce e + 1)) else OFailed,
         Some (e\<lparr>di_nonce := di_nonce e + 1\<rparr>))) out d d')"
| "dir_next calm (OpTakeFCntUp t) out d d' =
     (failing calm out d d' \<or> on_entry t (\<lambda>e.
        (if di_up e < 2 ^ 32 then OFCnt (word_of_int (di_up e)) else OFailed,
         Some (e\<lparr>di_up := di_up e + 1\<rparr>))) out d d')"
| "dir_next calm (OpSetFCntDown t f) out d d' =
     (failing calm out d d' \<or> on_entry t (\<lambda>e. (ODone, Some (e\<lparr>di_down := uint f\<rparr>))) out d d')"
| "dir_next calm (OpSaveJoinResult t js) out d d' =
     (failing calm out d d' \<or> on_entry t (\<lambda>e.
        (ODone, Some (e\<lparr>di_session := session_of_join t js 0, di_up := 0, di_down := 0\<rparr>))) out d d')"
| "dir_next calm op out d d' = (out = OOther \<and> d' = d)"

fun dir_path :: "(bool \<times> store_op \<times> dir_out) list \<Rightarrow> directory \<Rightarrow> directory \<Rightarrow> bool" where
  "dir_path [] d d' = (d' = d)"
| "dir_path ((calm, op, out) # tr) d d' = (\<exists>m. dir_next calm op out d m \<and> dir_path tr m d')"

section \<open>The operations with their outcome, and the directory of a store\<close>

definition out_of :: "('a \<Rightarrow> dir_out) \<Rightarrow> 'a res \<Rightarrow> dir_out" where
  "out_of f r = (case r of Inr x \<Rightarrow> f x | Inl e \<Rightarrow> if errors_Is e ErrNotFound then OMissing else OFailed)"

fun store_outcome :: "store_op \<Rightarrow> store \<Rightarrow> dir_out \<times> store" where
  "store_outcome (OpGetTag t) st = map_prod (out_of OTag) id (tags_Get t st)"
| "store_outcome (OpGetByDevEUI u) st = map_prod (out_of OTag) id (tags_GetByDevEUI u st)"
| "store_outcome OpListTags st = map_prod (out_of OTags) id (tags_List st)"
| "store_outcome (OpCreateTag nt) st = map_prod (out_of OTag) id (tags_Create nt st)"
| "store_outcome (OpDeleteTag t) st = map_prod (out_of (\<lambda>_. ODone)) id (tags_Delete t st)"
| "store_outcome (OpGetSession t) st = map_prod (out_of OSession) id (sessions_Get t st)"
| "store_outcome (OpNextDevNonce t) st = map_prod (out_of ONonce) id (NextDevNonce t st)"
| "store_outcome (OpTakeFCntUp t) st = map_prod (out_of OFCnt) id (TakeFCntUp t st)"
| "store_outcome (OpSetFCntDown t f) st = map_prod (out_of (\<lambda>_. ODone)) id (SetFCntDown t f st)"
| "store_outcome (OpSaveJoinResult t js) st = map_prod (out_of (\<lambda>_. ODone)) id (SaveJoinResult t js st)"
| "store_outcome op st = (OOther, exec_op op st)"

lemma store_outcome_exec: "snd (store_outcome op st) = exec_op op st"
  by (cases op) (simp_all add: map_prod_def split: prod.splits)

text \<open>No statement will fail, and the entropy source can give two nonces.\<close>

definition calm :: "store \<Rightarrow> bool" where
  "calm st =
     (db_up st \<and>
      (c_enabled (st_cipher st) \<longrightarrow>
         (case c_aead (st_cipher st) of None \<Rightarrow> False | Some a \<Rightarrow> 2 * NonceSize a \<le> length (st_entropy st))))"

fun store_run :: "store_op list \<Rightarrow> store \<Rightarrow> (bool \<times> store_op \<times> dir_out) list \<times> store" where
  "store_run [] st = ([], st)"
| "store_run (op # ops) st =
     (let (out, st1) = store_outcome op st; (tr, st2) = store_run ops st1 in ((calm st, op, out) # tr, st2))"

text \<open>The session of a row without its counters.\<close>

definition base_session :: "cipher \<Rightarrow> session_row \<Rightarrow> session res" where
  "base_session c s = scan_session c (s\<lparr>sr_fcnt_up := 0, sr_fcnt_down := 0, sr_dev_nonce := 0\<rparr>)"

definition entry_of :: "cipher \<Rightarrow> tag_row \<Rightarrow> session_row \<Rightarrow> entry" where
  "entry_of c r s =
     \<lparr>di_tag = projr (scanTag c r), di_session = projr (base_session c s), di_up = sr_fcnt_up s,
      di_down = sr_fcnt_down s, di_nonce = sr_dev_nonce s\<rparr>"

definition directory_of :: "store \<Rightarrow> directory" where
  "directory_of st t =
     (case (find_tag t st, find_session t st) of
        (Some r, Some s) \<Rightarrow> Some (entry_of (st_cipher st) r s)
      | _ \<Rightarrow> None)"

text \<open>Every stored key can be read back.\<close>

definition readable :: "store \<Rightarrow> bool" where
  "readable st =
     ((\<forall>r \<in> set (db_tags st). is_ok (scanTag (st_cipher st) r)) \<and>
      (\<forall>s \<in> set (db_sessions st). is_ok (base_session (st_cipher st) s)))"

fun keeps_keys :: "cipher \<Rightarrow> store_op \<Rightarrow> bool" where
  "keeps_keys c (OpCreateTag nt) = protects c (nt_AppKey nt)"
| "keeps_keys c (OpSaveJoinResult t js) = (protects c (js_NwkSKey js) \<and> protects c (js_AppSKey js))"
| "keeps_keys c op = True"

section \<open>The directory under the row operations\<close>

lemma directory_rows:
  "db_tags s = db_tags t \<Longrightarrow> db_sessions s = db_sessions t \<Longrightarrow> st_cipher s = st_cipher t \<Longrightarrow> directory_of s = directory_of t"
  by (rule ext) (simp add: directory_of_def find_tag_def find_session_def split: option.splits)

lemma directory_same: "same_tables s t \<Longrightarrow> directory_of s = directory_of t"
  by (rule directory_rows) (simp_all add: same_tables_def)

lemma readable_same: "same_tables s t \<Longrightarrow> readable s = readable t"
  by (simp add: readable_def same_tables_def)

lemma directory_env [simp]:
  "directory_of (st\<lparr>db_faults := fs\<rparr>) = directory_of st"
  "directory_of (st\<lparr>st_entropy := r\<rparr>) = directory_of st"
  "directory_of (st\<lparr>st_entropy := r, db_faults := fs\<rparr>) = directory_of st"
  by (rule directory_same, simp add: same_tables_def)+

lemma readable_env [simp]:
  "readable (st\<lparr>db_faults := fs\<rparr>) = readable st"
  "readable (st\<lparr>st_entropy := r\<rparr>) = readable st"
  "readable (st\<lparr>st_entropy := r, db_faults := fs\<rparr>) = readable st"
  by (simp_all add: readable_def)

lemma tag_session_keys:
  assumes "store_inv st"
  shows "find_tag t st = None \<longleftrightarrow> find_session t st = None"
proof -
  have "set (map sr_tag_id (db_sessions st)) = set (map tr_id (db_tags st))"
    using assms by (simp only: store_inv_def sessions_inv_def)
  then show ?thesis by (simp add: find_tag_None find_session_def find_None_key)
qed

lemma directory_cases [consumes 1, case_names none some]:
  assumes "store_inv st"
  obtains (none) "directory_of st t = None" "find_tag t st = None" "find_session t st = None"
    | (some) r s where "find_tag t st = Some r" "find_session t st = Some s"
        "directory_of st t = Some (entry_of (st_cipher st) r s)" "tr_id r = t" "sr_tag_id s = t"
        "r \<in> set (db_tags st)" "s \<in> set (db_sessions st)"
proof (cases "find_tag t st")
  case None
  with tag_session_keys [OF assms, of t] show ?thesis by (intro none) (simp_all add: directory_of_def)
next
  case (Some r)
  then obtain s where s: "find_session t st = Some s" using tag_session_keys [OF assms, of t] by fastforce
  have "tr_id r = t" "r \<in> set (db_tags st)" using Some by (auto simp: find_tag_def find_Some_iff)
  moreover have "sr_tag_id s = t" "s \<in> set (db_sessions st)" using s by (auto simp: find_session_def find_Some_iff)
  ultimately show ?thesis using Some s by (intro some) (simp_all add: directory_of_def)
qed

lemma directory_dom: "store_inv st \<Longrightarrow> dom (directory_of st) = tr_id ` set (db_tags st)"
proof -
  assume inv: "store_inv st"
  have "directory_of st t \<noteq> None \<longleftrightarrow> t \<in> tr_id ` set (db_tags st)" for t
    by (cases rule: directory_cases [OF inv, of t]) (auto simp: find_tag_None)
  then show ?thesis by (auto simp: dom_def)
qed

lemma directory_upd:
  assumes "store_inv st" and "\<And>s. sr_tag_id (f s) = sr_tag_id s" and "find_tag t st = Some r" and "find_session t st = Some s"
  shows "directory_of (upd_session t f st) = (directory_of st)(t \<mapsto> entry_of (st_cipher st) r (f s))"
proof (rule ext)
  fix u
  have "find_tag u (upd_session t f st) = find_tag u st" by (simp add: find_tag_def)
  then show "directory_of (upd_session t f st) u = ((directory_of st)(t \<mapsto> entry_of (st_cipher st) r (f s))) u"
    using assms(3,4) by (simp add: directory_of_def find_session_upd [OF assms(2)] split: option.splits)
qed

lemma readable_upd:
  assumes "readable st" and "\<And>s. s \<in> set (db_sessions st) \<Longrightarrow> sr_tag_id s = t \<Longrightarrow> is_ok (base_session (st_cipher st) (f s))"
  shows "readable (upd_session t f st)"
  using assms unfolding readable_def upd_session_env by (auto simp: upd_session_def)

section \<open>Reading a row\<close>

lemma seq_wrap_any:
  assumes "\<And>e fs. \<not> db_up st \<Longrightarrow> \<not> errors_Is e ErrNotFound \<Longrightarrow> Q (Inl (Wrap m e), st\<lparr>db_faults := fs\<rparr>)"
    and "\<And>fs. (db_up st \<Longrightarrow> db_up (st\<lparr>db_faults := fs\<rparr>)) \<Longrightarrow> Q (k () (st\<lparr>db_faults := fs\<rparr>))"
  shows "Q (seqE (sql_wrap m st) k)"
proof (cases "db_up st")
  case True
  then show ?thesis by (rule seq_wrap_up) (rule assms(2))
qed (auto intro: seq_wrap assms)

lemma seq_wrap_cong: "(\<And>fs. k () (st\<lparr>db_faults := fs\<rparr>) = k' () (st\<lparr>db_faults := fs\<rparr>)) \<Longrightarrow> seqE (sql_wrap m st) k = seqE (sql_wrap m st) k'"
  by (cases m st rule: sql_wrap_cases) simp_all

lemma scanned_session:
  assumes "is_ok (base_session c s)" and "session_ok s"
  shows "out_of OSession (scan_session c s) = session_out (entry_of c r s)"
proof -
  obtain nwk app where k: "read_key c (sr_tag_id s) ''nwk_skey'' (sr_nwk_skey s) = Inr nwk"
      "read_key c (sr_tag_id s) ''app_skey'' (sr_app_skey s) = Inr app"
    using assms(1) by (auto simp: base_session_def scan_session_def scan_uint_ok is_ok_iff res_simps)
  have pos: "0 \<le> sr_fcnt_up s" "0 \<le> sr_fcnt_down s" "0 \<le> sr_dev_nonce s"
    using assms(2) by (simp_all add: session_ok_def)
  show ?thesis
    using k pos
    by (simp add: out_of_def session_out_def entry_of_def base_session_def scan_session_def scan_uint_def bindE_def wrapE_def)
qed

lemma eui_used_iff:
  assumes "store_inv st" and "readable st"
  shows "eui_used u (directory_of st) \<longleftrightarrow> u \<in> tr_dev_eui ` set (db_tags st)"
proof -
  have eui: "t_DevEUI (projr (scanTag (st_cipher st) r)) = tr_dev_eui r" if "r \<in> set (db_tags st)" for r
    using assms(2) that by (auto simp: readable_def is_ok_iff scanTag_def bindE_def split: sum.splits dest!: bspec)
  show ?thesis
  proof
    assume "eui_used u (directory_of st)"
    then obtain t e where e: "directory_of st t = Some e" "t_DevEUI (di_tag e) = u" by (auto simp: eui_used_def)
    show "u \<in> tr_dev_eui ` set (db_tags st)"
      by (cases rule: directory_cases [OF assms(1), of t]) (use e eui in \<open>auto simp: entry_of_def\<close>)
  next
    assume "u \<in> tr_dev_eui ` set (db_tags st)"
    then obtain r where r: "r \<in> set (db_tags st)" "tr_dev_eui r = u" by auto
    then have "find_tag (tr_id r) st = Some r"
      using assms(1) by (simp add: store_inv_def find_tag_Some)
    then obtain s where "directory_of st (tr_id r) = Some (entry_of (st_cipher st) r s)"
      by (cases rule: directory_cases [OF assms(1), of "tr_id r"]) auto
    moreover have "t_DevEUI (di_tag (entry_of (st_cipher st) r s)) = u"
      using eui [OF r(1)] r(2) by (simp add: entry_of_def)
    ultimately show "eui_used u (directory_of st)" by (auto simp: eui_used_def)
  qed
qed

section \<open>One operation\<close>

text \<open>The outcome and the store after it are what the abstract machine allows, with or without failures.\<close>

definition simulates :: "bool \<Rightarrow> store \<Rightarrow> store_op \<Rightarrow> dir_out \<times> store \<Rightarrow> bool" where
  "simulates cl st op x =
     (dir_next cl op (fst x) (directory_of st) (directory_of (snd x)) \<and> readable (snd x))"

fun dir_op :: "store_op \<Rightarrow> bool" where
  "dir_op (OpSetEUI e) = False"
| "dir_op (OpUpdateConfig r b m) = False"
| "dir_op (OpEnsureEUI c p) = False"
| "dir_op (OpAppend e) = False"
| "dir_op (OpListEvents f) = False"
| "dir_op (OpPrune k) = False"
| "dir_op (OpEnv fs c r) = False"
| "dir_op op = True"

lemma dir_next_failing: "dir_op op \<Longrightarrow> failing cl out d d' \<Longrightarrow> dir_next cl op out d d'"
  by (cases op) simp_all

lemma simulates_failed:
  assumes "dir_op op" and "readable st" and "\<not> cl" and "\<not> errors_Is e ErrNotFound" and "same_tables st st'"
  shows "simulates cl st op (map_prod (out_of f) id (Inl e, st'))"
  using assms directory_same [OF assms(5)] readable_same [OF assms(5)]
  by (simp add: simulates_def dir_next_failing failing_def out_of_def)

text \<open>An operation that reads a session row and writes it back changed.\<close>

lemma simulates_row:
  assumes inv: "store_inv st" and rd: "readable st" and up: "cl \<Longrightarrow> db_up st"
    and op: "dir_op op" "\<And>out d d'. on_entry t g out d d' \<Longrightarrow> dir_next cl op out d d'"
    and key: "\<And>now s. sr_tag_id (f now s) = sr_tag_id s"
    and row: "\<And>r s. s \<in> set (db_sessions st) \<Longrightarrow> sr_tag_id s = t \<Longrightarrow>
      g (entry_of (st_cipher st) r s) = (out_of h (val s), Some (entry_of (st_cipher st) r (f (st_clock st) s)))"
    and ok: "\<And>s. s \<in> set (db_sessions st) \<Longrightarrow> sr_tag_id s = t \<Longrightarrow> is_ok (base_session (st_cipher st) (f (st_clock st) s))"
  shows "simulates cl st op (map_prod (out_of h) id (seqE (sql_wrap m st) (\<lambda>_ st.
    case find_session t st of None \<Rightarrow> (Inl ErrNotFound, st) | Some s \<Rightarrow> (val s, upd_session t (f (st_clock st)) st))))"
proof (rule seq_wrap_any [where Q = "\<lambda>x. simulates cl st op (map_prod (out_of h) id x)"], goal_cases)
  case (1 e fs)
  with up show ?case by (intro simulates_failed op(1) rd) (auto simp: same_tables_def)
next
  case (2 fs)
  let ?st = "st\<lparr>db_faults := fs\<rparr>"
  show ?case
    using inv
  proof (cases rule: directory_cases [where t = t])
    case none
    then have "on_entry t g OMissing (directory_of st) (directory_of ?st)" by (simp add: on_entry_def)
    with none rd op(2) show ?thesis by (simp add: simulates_def out_of_def)
  next
    case (some r s)
    have "directory_of (upd_session t (f (st_clock st)) ?st) =
        (directory_of st)(t \<mapsto> entry_of (st_cipher st) r (f (st_clock st) s))"
      using directory_upd [of ?st "f (st_clock st)" t r s] inv key some by simp
    moreover from this have "on_entry t g (out_of h (val s)) (directory_of st) (directory_of (upd_session t (f (st_clock st)) ?st))"
      using some(3) row [OF some(7,5), of r] by (simp add: on_entry_def)
    moreover have "readable (upd_session t (f (st_clock st)) ?st)"
      by (rule readable_upd) (use rd ok in auto)
    ultimately show ?thesis using some(2) op(2) by (simp add: simulates_def)
  qed
qed

lemma base_session_counters:
  "base_session c (nonce_row now s) = base_session c s" "base_session c (fcnt_row now s) = base_session c s"
  "base_session c (down_row f now s) = base_session c s"
  by (simp_all add: base_session_def scan_session_def session_rows)

lemma readable_session: "readable st \<Longrightarrow> s \<in> set (db_sessions st) \<Longrightarrow> is_ok (base_session (st_cipher st) s)"
  by (simp add: readable_def)

lemma sessions_inv_ok: "store_inv st \<Longrightarrow> s \<in> set (db_sessions st) \<Longrightarrow> session_ok s"
  by (simp add: store_inv_def sessions_inv_def)

lemma out_of_uint: "0 \<le> i \<Longrightarrow> out_of f (wrapE m (scan_uint i)) =
    (if i < 2 ^ LENGTH('w) then f (word_of_int i :: 'w::len word) else OFailed)"
  by (simp add: out_of_def scan_uint_def wrapE_def)

lemma simulates_NextDevNonce:
  assumes "store_inv st" and "readable st"
  shows "simulates (calm st) st (OpNextDevNonce t) (store_outcome (OpNextDevNonce t) st)"
proof -
  have eq: "NextDevNonce t st = seqE (sql_wrap ''incrementing dev_nonce'' st) (\<lambda>_ st. case find_session t st of
      None \<Rightarrow> (Inl ErrNotFound, st)
    | Some s \<Rightarrow> (wrapE ''incrementing dev_nonce'' (scan_uint (sr_dev_nonce s + 1)), upd_session t (nonce_row (st_clock st)) st))"
    by (simp add: NextDevNonce_def nonce_row_def [abs_def] cong: option.case_cong)
  show ?thesis unfolding store_outcome.simps eq
    by (rule simulates_row [OF assms, where g = "\<lambda>e.
        (if di_nonce e + 1 < 2 ^ 16 then ONonce (word_of_int (di_nonce e + 1)) else OFailed,
         Some (e\<lparr>di_nonce := di_nonce e + 1\<rparr>))"])
      (use sessions_inv_ok [OF assms(1)] readable_session [OF assms(2)] in
        \<open>auto simp: calm_def out_of_uint session_ok_def entry_of_def base_session_counters, auto simp: nonce_row_def\<close>)
qed

lemma simulates_TakeFCntUp:
  assumes "store_inv st" and "readable st"
  shows "simulates (calm st) st (OpTakeFCntUp t) (store_outcome (OpTakeFCntUp t) st)"
proof -
  have eq: "TakeFCntUp t st = seqE (sql_wrap ''taking fcnt_up'' st) (\<lambda>_ st. case find_session t st of
      None \<Rightarrow> (Inl ErrNotFound, st)
    | Some s \<Rightarrow> (wrapE ''taking fcnt_up'' (scan_uint (sr_fcnt_up s)), upd_session t (fcnt_row (st_clock st)) st))"
    by (simp add: TakeFCntUp_def fcnt_row_def [abs_def] cong: option.case_cong)
  show ?thesis unfolding store_outcome.simps eq
    by (rule simulates_row [OF assms, where g = "\<lambda>e.
        (if di_up e < 2 ^ 32 then OFCnt (word_of_int (di_up e)) else OFailed, Some (e\<lparr>di_up := di_up e + 1\<rparr>))"])
      (use sessions_inv_ok [OF assms(1)] readable_session [OF assms(2)] in
        \<open>auto simp: calm_def out_of_uint session_ok_def entry_of_def base_session_counters, auto simp: fcnt_row_def\<close>)
qed

lemma simulates_SetFCntDown:
  assumes "store_inv st" and "readable st"
  shows "simulates (calm st) st (OpSetFCntDown t f) (store_outcome (OpSetFCntDown t f) st)"
proof -
  have eq: "SetFCntDown t f st = seqE (sql_wrap ''setting fcnt_down'' st) (\<lambda>_ st. case find_session t st of
      None \<Rightarrow> (Inl ErrNotFound, st) | Some s \<Rightarrow> (Inr (), upd_session t (down_row f (st_clock st)) st))"
    by (simp add: SetFCntDown_def down_row_def [abs_def] option.case_eq_if cong: if_cong)
  show ?thesis unfolding store_outcome.simps eq
    by (rule simulates_row [OF assms, where g = "\<lambda>e. (ODone, Some (e\<lparr>di_down := uint f\<rparr>))"])
      (use readable_session [OF assms(2)] in
        \<open>auto simp: calm_def out_of_def entry_of_def base_session_counters, auto simp: down_row_def\<close>)
qed

lemma Encrypt_error: "Encrypt c p d r = (Inl e, r') \<Longrightarrow> \<not> errors_Is e ErrNotFound"
  by (auto simp: Encrypt_def rand_read_def split: if_splits option.splits prod.splits sum.splits)

text \<open>A calm store has the entropy for two values.\<close>

lemma Encrypt_twice:
  assumes "calm st" and "Encrypt (st_cipher st) p d (st_entropy st) = (x, r1)"
  shows "is_ok x" "is_ok (fst (Encrypt (st_cipher st) q d' r1))"
  using assms
  by (auto simp: calm_def Encrypt_def rand_read_def split: if_splits option.splits)

lemma base_joined_row:
  assumes "Decrypt c encNwk (sessionAAD (sr_tag_id s) ''nwk_skey'') = Inr (js_NwkSKey js)"
    and "Decrypt c encApp (sessionAAD (sr_tag_id s) ''app_skey'') = Inr (js_AppSKey js)"
  shows "base_session c (joined_row js encNwk encApp now s) = Inr (session_of_join (sr_tag_id s) js 0)"
proof -
  have "(joined_row js encNwk encApp now s)\<lparr>sr_fcnt_up := 0, sr_fcnt_down := 0, sr_dev_nonce := 0\<rparr> =
      joined_row js encNwk encApp now (s\<lparr>sr_dev_nonce := uint (0 :: u16)\<rparr>)"
    by (simp add: joined_row_def)
  then show ?thesis
    using scan_joined_row [of c encNwk "s\<lparr>sr_dev_nonce := uint (0 :: u16)\<rparr>" js encApp 0 now] assms
    by (simp add: base_session_def)
qed

lemma joined_row_counters:
  "sr_fcnt_up (joined_row js a b now s) = 0" "sr_fcnt_down (joined_row js a b now s) = 0"
  "sr_dev_nonce (joined_row js a b now s) = sr_dev_nonce s"
  by (simp_all add: joined_row_def)

lemma simulates_SaveJoinResult:
  assumes inv: "store_inv st" and rd: "readable st"
    and keys: "protects (st_cipher st) (js_NwkSKey js)" "protects (st_cipher st) (js_AppSKey js)"
  shows "simulates (calm st) st (OpSaveJoinResult t js) (store_outcome (OpSaveJoinResult t js) st)"
proof -
  obtain x r1 where E1: "Encrypt (st_cipher st) (js_NwkSKey js) (sessionAAD t ''nwk_skey'') (st_entropy st) = (x, r1)"
    by fastforce
  obtain y r2 where E2: "Encrypt (st_cipher st) (js_AppSKey js) (sessionAAD t ''app_skey'') r1 = (y, r2)"
    by fastforce
  have failed: "simulates (calm st) st (OpSaveJoinResult t js) (map_prod (out_of (\<lambda>_. ODone)) id (Inl (Wrap m e), st\<lparr>st_entropy := r\<rparr>))"
    if "\<not> calm st" "\<not> errors_Is e ErrNotFound" for m e r
    using that by (intro simulates_failed rd) (simp_all add: same_tables_def)
  show ?thesis
  proof (cases x)
    case (Inl e)
    have "\<not> calm st" using Encrypt_twice(1) [OF _ E1] Inl by auto
    from failed [OF this Encrypt_error [OF E1 [unfolded Inl]]] this show ?thesis
      by (simp add: SaveJoinResult_def E1 Inl)
  next
    case N: (Inr encNwk)
    show ?thesis
    proof (cases y)
      case (Inl e)
      have "\<not> calm st"
        using Encrypt_twice(2) [OF _ E1, of "js_AppSKey js" "sessionAAD t ''app_skey''"] E2 Inl by auto
      from failed [OF this Encrypt_error [OF E2 [unfolded Inl]]] this show ?thesis
        by (simp add: SaveJoinResult_def E1 N E2 Inl)
    next
      case A: (Inr encApp)
      let ?st = "st\<lparr>st_entropy := r2\<rparr>"
      have eq: "SaveJoinResult t js st = seqE (sql_wrap ''saving join result'' ?st) (\<lambda>_ st. case find_session t st of
          None \<Rightarrow> (Inl ErrNotFound, st) | Some s \<Rightarrow> (Inr (), upd_session t (joined_row js encNwk encApp (st_clock st)) st))"
        unfolding SaveJoinResult_def E1 E2 N A prod.case sum.case Let_def
        by (rule seq_wrap_cong) (simp add: option.case_eq_if)
      have dec: "base_session (st_cipher st) (joined_row js encNwk encApp now s) = Inr (session_of_join t js 0)"
        if "sr_tag_id s = t" for now s
        using base_joined_row [of "st_cipher st" encNwk s js encApp now] that
          Decrypt_Encrypt_column [OF keys(1)] E1 N Decrypt_Encrypt_column [OF keys(2)] E2 A by simp
      have "simulates (calm st) ?st (OpSaveJoinResult t js) (store_outcome (OpSaveJoinResult t js) st)"
        unfolding store_outcome.simps eq
        by (rule simulates_row [where g = "\<lambda>e.
            (ODone, Some (e\<lparr>di_session := session_of_join t js 0, di_up := 0, di_down := 0\<rparr>))"])
          (use same_tables_inv [OF _ inv, of ?st] rd dec in
            \<open>auto simp: calm_def db_up_def out_of_def entry_of_def same_tables_def joined_row_counters\<close>)
      then show ?thesis by (simp add: simulates_def)
    qed
  qed
qed

lemma simulates_GetSession:
  assumes inv: "store_inv st" and rd: "readable st"
  shows "simulates (calm st) st (OpGetSession t) (store_outcome (OpGetSession t) st)"
  unfolding store_outcome.simps sessions_Get_def
proof (rule seq_wrap_any [where Q = "\<lambda>x. simulates (calm st) st (OpGetSession t) (map_prod (out_of OSession) id x)"], goal_cases)
  case (1 e fs)
  then show ?case by (intro simulates_failed rd) (auto simp: calm_def same_tables_def)
next
  case (2 fs)
  show ?case
    using inv
  proof (cases rule: directory_cases [where t = t])
    case none
    with rd show ?thesis by (simp add: simulates_def out_of_def on_entry_def)
  next
    case (some r s)
    have "out_of OSession (scan_session (st_cipher st) s) = session_out (entry_of (st_cipher st) r s)"
      by (rule scanned_session) (use readable_session [OF rd some(7)] sessions_inv_ok [OF inv some(7)] in auto)
    with some rd show ?thesis by (simp add: simulates_def on_entry_def fun_upd_idem)
  qed
qed

lemma readable_tag:
  assumes "readable st" and "r \<in> set (db_tags st)"
  obtains x where "scanTag (st_cipher st) r = Inr x"
  using assms by (auto simp: readable_def is_ok_iff)

lemma scanned_eui: "scanTag c r = Inr x \<Longrightarrow> t_DevEUI x = tr_dev_eui r"
  by (auto simp: scanTag_def res_simps)

lemma simulates_GetTag:
  assumes inv: "store_inv st" and rd: "readable st"
  shows "simulates (calm st) st (OpGetTag t) (store_outcome (OpGetTag t) st)"
  unfolding store_outcome.simps tags_Get_def
proof (rule seq_wrap_any [where Q = "\<lambda>x. simulates (calm st) st (OpGetTag t) (map_prod (out_of OTag) id x)"], goal_cases)
  case (1 e fs)
  then show ?case by (intro simulates_failed rd) (auto simp: calm_def same_tables_def)
next
  case (2 fs)
  show ?case
    using inv
  proof (cases rule: directory_cases [where t = t])
    case none
    with rd show ?thesis by (simp add: simulates_def out_of_def on_entry_def)
  next
    case (some r s)
    obtain x where "scanTag (st_cipher st) r = Inr x" by (rule readable_tag [OF rd some(6)])
    then have "out_of OTag (scanTag (st_cipher st) r) = OTag (di_tag (entry_of (st_cipher st) r s))"
      by (simp add: out_of_def entry_of_def)
    with some rd show ?thesis by (simp add: simulates_def on_entry_def fun_upd_idem)
  qed
qed

lemma directory_row:
  assumes "store_inv st" and "r \<in> set (db_tags st)"
  obtains s where "directory_of st (tr_id r) = Some (entry_of (st_cipher st) r s)"
proof -
  have "find_tag (tr_id r) st = Some r" using assms by (simp add: store_inv_def find_tag_Some)
  then show ?thesis using that by (cases rule: directory_cases [OF assms(1), of "tr_id r"]) auto
qed

lemma simulates_GetByDevEUI:
  assumes inv: "store_inv st" and rd: "readable st"
  shows "simulates (calm st) st (OpGetByDevEUI u) (store_outcome (OpGetByDevEUI u) st)"
  unfolding store_outcome.simps tags_GetByDevEUI_def
proof (rule seq_wrap_any [where Q = "\<lambda>x. simulates (calm st) st (OpGetByDevEUI u) (map_prod (out_of OTag) id x)"], goal_cases)
  case (1 e fs)
  then show ?case by (intro simulates_failed rd) (auto simp: calm_def same_tables_def)
next
  case (2 fs)
  show ?case
  proof (cases "find (\<lambda>r. tr_dev_eui r = u) (db_tags st)")
    case None
    then have "\<not> eui_used u (directory_of st)" by (simp add: eui_used_iff [OF inv rd] find_None_key)
    with None rd show ?thesis by (simp add: simulates_def out_of_def)
  next
    case (Some r)
    then have r: "r \<in> set (db_tags st)" "tr_dev_eui r = u" by (auto simp: find_Some_iff)
    then have used: "eui_used u (directory_of st)" by (auto simp: eui_used_iff [OF inv rd])
    obtain s where d: "directory_of st (tr_id r) = Some (entry_of (st_cipher st) r s)"
      using directory_row [OF inv r(1)] .
    obtain x where x: "scanTag (st_cipher st) r = Inr x" by (rule readable_tag [OF rd r(1)])
    have "di_tag (entry_of (st_cipher st) r s) = x" "t_DevEUI x = u"
      using x scanned_eui [OF x] r(2) by (simp_all add: entry_of_def)
    with d Some used rd x show ?thesis by (auto simp: simulates_def out_of_def)
  qed
qed

text \<open>Listing reads the directory in the order of the ids.\<close>

lemma scan_tags_projr: "\<forall>r \<in> set rs. is_ok (scanTag c r) \<Longrightarrow> scan_tags c rs = Inr (map (\<lambda>r. projr (scanTag c r)) rs)"
  by (induction rs) (auto simp: is_ok_iff)

lemma directory_list:
  assumes inv: "store_inv st" and rd: "readable st"
  shows "scan_tags (st_cipher st) (sort_key tr_id (db_tags st)) =
    Inr (map (\<lambda>t. di_tag (the (directory_of st t))) (sorted_list_of_set (dom (directory_of st))))"
proof -
  have sorted: "sorted_wrt (<) (map tr_id (db_tags st))" using inv by (simp add: store_inv_def tags_inv_def)
  then have le: "sorted (map tr_id (db_tags st))" "distinct (map tr_id (db_tags st))"
    by (simp_all add: strict_sorted_iff)
  have ids: "sorted_list_of_set (dom (directory_of st)) = map tr_id (db_tags st)"
    using le sorted_list_of_set.idem_if_sorted_distinct [of "map tr_id (db_tags st)"]
    by (simp add: directory_dom [OF inv])
  have tag: "di_tag (the (directory_of st (tr_id r))) = projr (scanTag (st_cipher st) r)" if "r \<in> set (db_tags st)" for r
  proof -
    obtain s where "directory_of st (tr_id r) = Some (entry_of (st_cipher st) r s)" 
      by (rule directory_row [OF inv \<open>r \<in> set (db_tags st)\<close>])
    then show ?thesis by (simp add: entry_of_def)
  qed
  have "scan_tags (st_cipher st) (db_tags st) = Inr (map (\<lambda>r. projr (scanTag (st_cipher st) r)) (db_tags st))"
    by (rule scan_tags_projr) (use rd in \<open>simp add: readable_def\<close>)
  also have "map (\<lambda>r. projr (scanTag (st_cipher st) r)) (db_tags st) =
      map (\<lambda>t. di_tag (the (directory_of st t))) (map tr_id (db_tags st))"
    unfolding map_map comp_def by (rule map_cong [OF refl]) (rule tag [symmetric])
  finally show ?thesis by (simp only: ids sort_key_id_if_sorted [OF le(1)])
qed

lemma simulates_ListTags:
  assumes inv: "store_inv st" and rd: "readable st"
  shows "simulates (calm st) st OpListTags (store_outcome OpListTags st)"
  unfolding store_outcome.simps tags_List_def
proof (rule seq_wrap_any [where Q = "\<lambda>x. simulates (calm st) st OpListTags (map_prod (out_of OTags) id x)"], goal_cases)
  case (1 e fs)
  then show ?case by (intro simulates_failed rd) (auto simp: calm_def same_tables_def)
next
  case (2 fs)
  have failed: "simulates (calm st) st OpListTags (map_prod (out_of OTags) id (Inl (Err m), st\<lparr>db_faults := gs\<rparr>))"
    if "\<not> calm st" for m gs
    using that rd by (intro simulates_failed) (simp_all add: same_tables_def)
  show ?case
  proof (cases "calm st")
    case True
    then have "db_up (st\<lparr>db_faults := fs\<rparr>)" using 2 by (simp add: calm_def)
    then obtain gs where "sql_stmt (st\<lparr>db_faults := fs\<rparr>) = (Inr (), st\<lparr>db_faults := gs\<rparr>)"
      using sql_stmt_up [of "st\<lparr>db_faults := fs\<rparr>"] by auto
    with rd directory_list [OF inv rd] show ?thesis by (simp add: simulates_def out_of_def)
  next
    case False
    show ?thesis
      by (cases "st\<lparr>db_faults := fs\<rparr>" rule: sql_stmt_cases)
        (use rd directory_list [OF inv rd] failed [OF False] in \<open>auto simp: simulates_def out_of_def\<close>)
  qed
qed

lemma directory_delete:
  assumes "db_tags s' = filter (\<lambda>r. tr_id r \<noteq> d) (db_tags st)" and "db_sessions s' = filter (\<lambda>s. sr_tag_id s \<noteq> d) (db_sessions st)"
    and "st_cipher s' = st_cipher st"
  shows "directory_of s' = (directory_of st)(d := None)"
proof (rule ext)
  fix t
  have f: "find (\<lambda>r. tr_id r = t) (filter (\<lambda>r. tr_id r \<noteq> d) xs) = (if t = d then None else find (\<lambda>r. tr_id r = t) xs)" for xs
    by (induction xs) auto
  show "directory_of s' t = ((directory_of st)(d := None)) t"
    by (simp add: directory_of_def find_tag_def find_session_def assms f find_session_filter split: option.splits)
qed

lemma simulates_DeleteTag:
  assumes inv: "store_inv st" and rd: "readable st"
  shows "simulates (calm st) st (OpDeleteTag t) (store_outcome (OpDeleteTag t) st)"
  unfolding store_outcome.simps tags_Delete_def
proof (rule seq_wrap_any [where Q = "\<lambda>x. simulates (calm st) st (OpDeleteTag t) (map_prod (out_of (\<lambda>_. ODone)) id x)"], goal_cases)
  case (1 e fs)
  then show ?case by (intro simulates_failed rd) (auto simp: calm_def same_tables_def)
next
  case (2 fs)
  let ?del = "st\<lparr>db_faults := fs, db_tags := filter (\<lambda>r. tr_id r \<noteq> t) (db_tags st),
    db_sessions := filter (\<lambda>s. sr_tag_id s \<noteq> t) (db_sessions st),
    db_events := map (\<lambda>e. if er_tag_id e = Some t then e\<lparr>er_tag_id := None\<rparr> else e) (db_events st)\<rparr>"
  show ?case
    using inv
  proof (cases rule: directory_cases [where t = t])
    case none
    with rd show ?thesis by (simp add: simulates_def out_of_def on_entry_def)
  next
    case (some r s)
    have "directory_of ?del = (directory_of st)(t := None)" by (rule directory_delete) simp_all
    moreover have "readable ?del" using rd by (simp add: readable_def)
    ultimately show ?thesis using some by (simp add: simulates_def out_of_def on_entry_def)
  qed
qed

text \<open>Creating a tag adds an entry under a new id.\<close>

lemma base_new_session: "base_session c (session_row_of t now) = Inr (no_session t)"
  by (simp add: base_session_def scan_session_def session_row_of_def read_key_def scan_uint_ok no_session_def
      null_string_def null_int_def)

lemma entry_of_new:
  assumes "Decrypt c k (tagAAD (nt_DevEUI nt) ''app_key'') = Inr (nt_AppKey nt)"
  shows "entry_of c (tag_row_of t nt k now) (session_row_of t now) = new_entry t nt now"
proof -
  have "sr_fcnt_up (session_row_of t now) = 0" "sr_fcnt_down (session_row_of t now) = 0" "sr_dev_nonce (session_row_of t now) = 0"
    by (simp_all add: session_row_of_def)
  then show ?thesis
    by (simp add: entry_of_def scanTag_created [OF assms] base_new_session new_entry_def)
qed

lemma directory_insert:
  assumes inv: "store_inv st" and dec: "Decrypt (st_cipher st) k (tagAAD (nt_DevEUI nt) ''app_key'') = Inr (nt_AppKey nt)"
  shows "directory_of (insert_tag nt k st) = (directory_of st)(db_tag_seq st + 1 \<mapsto> new_entry (db_tag_seq st + 1) nt (st_clock st))"
proof (rule ext)
  fix t
  let ?n = "db_tag_seq st + 1"
  have fresh: "find_session ?n st = None"
    using session_id_fresh [OF inv] by (simp add: find_session_def find_None_key)
  have s: "find_session t (insert_tag nt k st) = (if t = ?n then Some (session_row_of ?n (st_clock st)) else find_session t st)"
    using fresh by (auto simp: find_session_def insert_tag_def find_append session_row_of_def split: option.splits)
  have r: "find_tag t (insert_tag nt k st) = find_tag t st" if "t \<noteq> ?n"
    using that by (auto simp: find_tag_def insert_tag_def find_append tag_row_of_def split: option.splits)
  show "directory_of (insert_tag nt k st) t = ((directory_of st)(?n \<mapsto> new_entry ?n nt (st_clock st))) t"
  proof (cases "t = ?n")
    case True
    then show ?thesis
      using s by (simp add: directory_of_def find_tag_insert [OF inv] insert_tag_env entry_of_new [OF dec])
  next
    case False
    with s r show ?thesis by (simp add: directory_of_def insert_tag_env split: option.splits)
  qed
qed

lemma readable_insert:
  assumes "readable st" and "Decrypt (st_cipher st) k (tagAAD (nt_DevEUI nt) ''app_key'') = Inr (nt_AppKey nt)"
  shows "readable (insert_tag nt k st)"
  using assms scanTag_created [OF assms(2), of "db_tag_seq st + 1" "st_clock st"] base_new_session
  unfolding readable_def insert_tag_env by (auto simp: insert_tag_def)

lemma tags_Create_error:
  assumes "store_inv st" and "protects (st_cipher st) (nt_AppKey nt)"
  shows "\<forall>e. fst (tags_Create nt st) = Inl e \<longrightarrow> \<not> errors_Is e ErrNotFound"
proof -
  obtain x r where E: "Encrypt (st_cipher st) (nt_AppKey nt) (tagAAD (nt_DevEUI nt) ''app_key'') (st_entropy st) = (x, r)"
    by fastforce
  show ?thesis
  proof (cases x)
    case (Inl e)
    with Encrypt_error [OF E [unfolded Inl]] E show ?thesis by (simp add: tags_Create_def)
  next
    case (Inr k)
    have dec: "Decrypt (st_cipher st) k (tagAAD (nt_DevEUI nt) ''app_key'') = Inr (nt_AppKey nt)"
      using Decrypt_Encrypt_column [OF assms(2) E [unfolded Inr]] .
    have get: "\<forall>e. fst (tags_Get (db_tag_seq st + 1) (insert_tag nt k (st\<lparr>st_entropy := r, db_faults := fs\<rparr>))) = Inl e \<longrightarrow>
        \<not> errors_Is e ErrNotFound" for fs
    proof -
      let ?s = "insert_tag nt k (st\<lparr>st_entropy := r, db_faults := fs\<rparr>)"
      have "find_tag (db_tag_seq st + 1) ?s = Some (tag_row_of (db_tag_seq st + 1) nt k (st_clock st))"
        using find_tag_insert [of "st\<lparr>st_entropy := r, db_faults := fs\<rparr>" nt k] same_tables_inv [OF _ assms(1)] by simp
      moreover have "scanTag (st_cipher ?s) (tag_row_of t nt k now) = Inr (tag_of_new t nt now)" for t now
        using scanTag_created [OF dec] by (simp add: insert_tag_env)
      ultimately show ?thesis by (cases "db_tag_seq st + 1" ?s rule: tags_Get_cases) auto
    qed
    let ?Q = "\<lambda>m. \<forall>e. fst m = Inl e \<longrightarrow> \<not> errors_Is e ErrNotFound"
    show ?thesis
      unfolding tags_Create_def E Inr prod.case sum.case Let_def
      apply (rule seq_stmt [where Q = ?Q], simp)
      apply (rule seq_wrap [where Q = ?Q], simp)
      apply (rule if_split [THEN iffD2], rule conjI, simp, rule impI)
      apply (rule seq_wrap [where Q = ?Q], simp)
      apply (rule if_split [THEN iffD2], rule conjI, simp, rule impI)
      apply (rule seq_stmt [where Q = ?Q], simp)
      apply (use get in \<open>simp add: insert_tag_def\<close>)
      done
  qed
qed

lemma calm_Create:
  assumes "calm st" and "store_inv st" and "protects (st_cipher st) (nt_AppKey nt)" and "nt_DevEUI nt \<notin> tr_dev_eui ` set (db_tags st)"
  shows "is_ok (fst (tags_Create nt st))"
proof -
  obtain x r where E: "Encrypt (st_cipher st) (nt_AppKey nt) (tagAAD (nt_DevEUI nt) ''app_key'') (st_entropy st) = (x, r)"
    by fastforce
  then obtain k where k: "x = Inr k" using Encrypt_twice(1) [OF assms(1) E] by (auto simp: is_ok_iff)
  have "db_up st" using assms(1) by (simp add: calm_def)
  with tags_Create_up [OF _ assms(2,4) E [unfolded k]]
    scanTag_created [OF Decrypt_Encrypt_column [OF assms(3) E [unfolded k]]] show ?thesis by auto
qed

lemma simulates_CreateTag:
  assumes inv: "store_inv st" and rd: "readable st" and key: "protects (st_cipher st) (nt_AppKey nt)"
  shows "simulates (calm st) st (OpCreateTag nt) (store_outcome (OpCreateTag nt) st)"
proof (cases nt st rule: tags_Create_cases)
  case (rolled_back e st')
  have same: "directory_of st' = directory_of st" "readable st'"
    using directory_same [OF same_db_tables [OF rolled_back(2)]] readable_same [OF same_db_tables [OF rolled_back(2)]] rd
    by simp_all
  have "out_of OTag (Inl e) = OFailed"
    using tags_Create_error [OF inv key] rolled_back(1) by (simp add: out_of_def)
  moreover have "\<not> calm st \<or> eui_used (nt_DevEUI nt) (directory_of st)"
    using calm_Create [OF _ inv key] rolled_back(1) by (auto simp: eui_used_iff [OF inv rd])
  ultimately show ?thesis using same rolled_back(1) by (auto simp: simulates_def failing_def)
next
  case (committed k ent fs)
  let ?t = "db_tag_seq st + 1" and ?s = "st\<lparr>st_entropy := ent, db_faults := fs\<rparr>"
  have inv2: "store_inv ?s" by (rule same_tables_inv [OF _ inv]) (simp add: same_tables_def)
  have dec: "Decrypt (st_cipher st) k (tagAAD (nt_DevEUI nt) ''app_key'') = Inr (nt_AppKey nt)"
    using Decrypt_Encrypt_column [OF key committed(1)] .
  have get: "same_tables (insert_tag nt k ?s) (snd (tags_Get ?t (insert_tag nt k ?s)))"
    by (rule same_db_tables [OF tags_Get_same])
  have d: "directory_of (snd (tags_Create nt st)) = (directory_of st)(?t \<mapsto> new_entry ?t nt (st_clock st))"
    using directory_insert [OF inv2, of k nt] dec directory_same [OF get] committed(4) by simp
  have r: "readable (snd (tags_Create nt st))"
    using readable_insert [of ?s k nt] rd dec readable_same [OF get] committed(4) by simp
  have ids: "\<forall>u \<in> dom (directory_of st). u < ?t"
    using inv by (auto simp: directory_dom [OF inv] store_inv_def tags_inv_def)
  have out: "out_of OTag (fst (tags_Create nt st)) = OTag (tag_of_new ?t nt (st_clock st)) \<or>
      \<not> calm st \<and> out_of OTag (fst (tags_Create nt st)) = OFailed"
  proof (cases "fst (tags_Create nt st)")
    case (Inl e)
    with tags_Create_error [OF inv key] calm_Create [OF _ inv key committed(2)] show ?thesis by (auto simp: out_of_def)
  next
    case (Inr x)
    have "find_tag ?t (insert_tag nt k ?s) = Some (tag_row_of ?t nt k (st_clock st))"
      using find_tag_insert [OF inv2, of nt k] by simp
    then have "fst (tags_Get ?t (insert_tag nt k ?s)) = Inr (tag_of_new ?t nt (st_clock st)) \<or>
        \<not> is_ok (fst (tags_Get ?t (insert_tag nt k ?s)))"
      using scanTag_created [OF dec] by (cases ?t "insert_tag nt k ?s" rule: tags_Get_cases) (auto simp: insert_tag_env)
    with Inr committed(4) show ?thesis by (auto simp: out_of_def)
  qed
  have "\<not> eui_used (nt_DevEUI nt) (directory_of st)" using committed(2) by (simp add: eui_used_iff [OF inv rd])
  moreover have "\<exists>t now. (\<forall>u \<in> dom (directory_of st). u < t) \<and>
      directory_of (snd (tags_Create nt st)) = (directory_of st)(t \<mapsto> new_entry t nt now) \<and>
      (out_of OTag (fst (tags_Create nt st)) = OTag (tag_of_new t nt now) \<or> \<not> calm st \<and> out_of OTag (fst (tags_Create nt st)) = OFailed)"
    by (rule exI [of _ ?t], rule exI [of _ "st_clock st"]) (use d ids out in blast)
  ultimately show ?thesis using r by (simp add: simulates_def)
qed

section \<open>The refinement\<close>

lemma other_rows:
  assumes "\<not> dir_op op"
  shows "db_tags (exec_op op st) = db_tags st \<and> db_sessions (exec_op op st) = db_sessions st \<and> st_cipher (exec_op op st) = st_cipher st"
proof -
  have prune: "db_tags (snd (events_Prune k st)) = db_tags st \<and> db_sessions (snd (events_Prune k st)) = db_sessions st \<and>
      st_cipher (snd (events_Prune k st)) = st_cipher st" for k
    unfolding events_Prune_def Let_def by (rule seq_wrap) simp_all
  have app: "db_tags (snd (events_Append e st)) = db_tags st \<and> db_sessions (snd (events_Append e st)) = db_sessions st \<and>
      st_cipher (snd (events_Append e st)) = st_cipher st" for e
    by (cases e st rule: events_Append_cases) (auto simp: same_db_def insert_event_def)
  show ?thesis
    using assms gateway_ops_tables [of st] reads_same(5) [of st] prune app
    by (cases op) (simp_all add: same_tables_def same_db_def)
qed

lemma simulates_other:
  assumes "\<not> dir_op op" and "readable st"
  shows "simulates (calm st) st op (store_outcome op st)"
proof -
  have "directory_of (exec_op op st) = directory_of st"
    by (rule directory_rows) (simp_all add: other_rows [OF assms(1)])
  moreover have "readable (exec_op op st)"
    using other_rows [OF assms(1), of st] assms(2) by (simp add: readable_def)
  ultimately show ?thesis using assms(1) by (cases op) (simp_all add: simulates_def)
qed

lemma simulates_step:
  assumes "store_inv st" and "readable st" and "keeps_keys (st_cipher st) op"
  shows "simulates (calm st) st op (store_outcome op st)"
proof (cases "dir_op op")
  case True
  with assms show ?thesis
    by (cases op) (simp_all only: dir_op.simps keeps_keys.simps simulates_CreateTag simulates_DeleteTag simulates_GetTag
      simulates_GetByDevEUI simulates_ListTags simulates_GetSession simulates_NextDevNonce simulates_SaveJoinResult
      simulates_TakeFCntUp simulates_SetFCntDown)
qed (rule simulates_other [OF _ assms(2)])

lemma same_cipher: "same_db s t \<Longrightarrow> st_cipher t = st_cipher s"
  by (simp add: same_db_def)

lemma exec_op_cipher: "st_cipher (exec_op op st) = st_cipher st"
proof (cases op)
  case (OpCreateTag nt)
  show ?thesis
  proof (cases nt st rule: tags_Create_cases)
    case (committed k ent fs)
    then show ?thesis
      using OpCreateTag same_db_tables [OF tags_Get_same [of "insert_tag nt k (st\<lparr>st_entropy := ent, db_faults := fs\<rparr>)" "db_tag_seq st + 1"]]
      by (simp add: same_tables_def insert_tag_env)
  qed (use OpCreateTag in \<open>simp add: same_db_def\<close>)
next
  case (OpDeleteTag t)
  have "st_cipher (snd (tags_Delete t st)) = st_cipher st" unfolding tags_Delete_def by (rule seq_wrap) simp_all
  with OpDeleteTag show ?thesis by simp
next
  case (OpNextDevNonce t)
  then show ?thesis by (cases t st rule: NextDevNonce_cases) (simp_all add: same_db_def)
next
  case (OpTakeFCntUp t)
  then show ?thesis by (cases t st rule: TakeFCntUp_cases) (simp_all add: same_db_def)
next
  case (OpSetFCntDown t f)
  then show ?thesis by (cases t f st rule: SetFCntDown_cases) (simp_all add: same_db_def)
next
  case (OpSaveJoinResult t js)
  then show ?thesis by (cases t js st rule: SaveJoinResult_cases) (simp_all add: same_db_def)
qed (use other_rows [of op st] in \<open>simp_all add: reads_same [THEN same_cipher]\<close>)

text \<open>C7: the repositories implement a directory of tags. Run any sequence of operations on a well-formed,
  readable store, with any statements failing and any entropy: the outcomes and the final store, read
  back with its keys decrypted, are those of an abstract directory of plain tags and sessions, where an
  operation that fails changes nothing, except that a failing creation may have been committed and that a
  counter that has run out still counts. As long as nothing fails in the environment an operation does not fail
  without reason.\<close>

theorem store_refines_directory:
  assumes "store_inv st" and "readable st" and "\<forall>op \<in> set ops. keeps_keys (st_cipher st) op"
    and "store_run ops st = (tr, st')"
  shows "dir_path tr (directory_of st) (directory_of st') \<and> map (\<lambda>(c, op, out). op) tr = ops \<and> store_inv st' \<and> readable st'"
  using assms
proof (induction ops arbitrary: st tr)
  case (Cons op ops)
  obtain out st1 where o: "store_outcome op st = (out, st1)" by fastforce
  obtain tr2 st2 where r: "store_run ops st1 = (tr2, st2)" by fastforce
  have tr: "tr = (calm st, op, out) # tr2" "st2 = st'" using Cons.prems(4) o r by auto
  have st1: "st1 = exec_op op st" using store_outcome_exec [of op st] o by simp
  have sim: "dir_next (calm st) op out (directory_of st) (directory_of st1)" "readable st1"
    using simulates_step [OF Cons.prems(1,2), of op] Cons.prems(3) o by (simp_all add: simulates_def)
  have "store_inv st1" unfolding st1 by (rule exec_op_inv [OF Cons.prems(1)])
  from Cons.IH [OF this sim(2) _ r [unfolded tr(2)]] Cons.prems(3) sim(1) show ?case
    by (auto simp: tr(1) st1 exec_op_cipher)
qed simp

definition example_ops :: "store_op list" where
  "example_ops = [OpCreateTag example_new_tag, OpNextDevNonce 1, OpTakeFCntUp 1, OpCreateTag example_new_tag, OpDeleteTag 2,
     OpEnv [Some ''disk I/O error''] [] [], OpTakeFCntUp 1]"

theorem store_refines_directory_witness:
  "\<exists>tr st'. store_run example_ops (store_New NewInsecureDisabled) = (tr, st') \<and>
     dir_path tr (\<lambda>_. None) (directory_of st') \<and>
     map (\<lambda>(calm, op, out). (calm, out)) (tl tr) =
       [(True, ONonce 1), (True, OFCnt 0), (True, OFailed), (True, OMissing), (True, OOther), (False, OFailed)]"
proof -
  let ?st = "store_New NewInsecureDisabled"
  obtain tr st' where r: "store_run example_ops ?st = (tr, st')" by fastforce
  have "\<forall>op \<in> set example_ops. keeps_keys (st_cipher ?st) op"
    by (simp add: example_ops_def store_New_def protects_def NewInsecureDisabled_def example_new_tag_def secret_prefix_def)
  from store_refines_directory [OF store_inv_New _ this r]
  have "dir_path tr (directory_of ?st) (directory_of st')" by (simp add: readable_def store_New_def)
  moreover have "directory_of ?st = (\<lambda>_. None)"
    by (rule ext) (simp add: directory_of_def find_tag_def store_New_def)
  moreover have "map (\<lambda>(calm, op, out). (calm, out)) (tl (fst (store_run example_ops ?st))) =
      [(True, ONonce 1), (True, OFCnt 0), (True, OFailed), (True, OMissing), (True, OOther), (False, OFailed)]"
    by code_simp
  ultimately show ?thesis using r by auto
qed

end
