(* ===== verification/Json.thy ===== *)
theory Json
  imports Gotext
begin

text \<open>
  \<open>encoding/json\<close> as the program uses it. \<open>json_print\<close> is what \<open>Marshal\<close> writes for a value and
  \<open>json_parse\<close> what the scanner of \<open>Unmarshal\<close> accepts; the decoders below fill Go variables from a
  parsed value with Go's rules (keys match ignoring case, \<open>null\<close> leaves a variable alone, a number
  must be an integer literal in range for an integer variable). A number is kept as its literal.

  Strings are byte strings. Bytes from 128 up are passed through, so the replacement of invalid
  UTF-8 and the escaping of U+2028 and U+2029 are not modelled; the nesting limit of the scanner is
  not modelled either.
\<close>

datatype json =
    JNull
  | JBool bool
  | JNum string
  | JStr string
  | JArr "json list"
  | JObj "(string \<times> json) list"

section \<open>Printing\<close>

definition json_esc :: "char \<Rightarrow> string" where
  "json_esc c =
     (let n = of_char c :: nat in
      if n = 34 then [CHR 0x5C, CHR 0x22]
      else if n = 92 then [CHR 0x5C, CHR 0x5C]
      else if n = 8 then [CHR 0x5C, CHR ''b'']
      else if n = 12 then [CHR 0x5C, CHR ''f'']
      else if n = 10 then [CHR 0x5C, CHR ''n'']
      else if n = 13 then [CHR 0x5C, CHR ''r'']
      else if n = 9 then [CHR 0x5C, CHR ''t'']
      else if n < 32 \<or> n = 60 \<or> n = 62 \<or> n = 38 then
        [CHR 0x5C, CHR ''u'', CHR ''0'', CHR ''0'', hex_digit (n div 16), hex_digit (n mod 16)]
      else [c])"

definition json_quote :: "string \<Rightarrow> string" where
  "json_quote s = CHR 0x22 # concat (map json_esc s) @ [CHR 0x22]"

fun commas :: "string list \<Rightarrow> string" where
  "commas [] = []"
| "commas [x] = x"
| "commas (x # y # xs) = x @ CHR '','' # commas (y # xs)"

fun json_print :: "json \<Rightarrow> string" where
  "json_print JNull = ''null''"
| "json_print (JBool b) = (if b then ''true'' else ''false'')"
| "json_print (JNum lit) = lit"
| "json_print (JStr s) = json_quote s"
| "json_print (JArr xs) = CHR ''['' # commas (map json_print xs) @ '']''"
| "json_print (JObj kvs) = CHR ''{'' # commas (map (\<lambda>(k, v). json_quote k @ CHR '':'' # json_print v) kvs) @ ''}''"

section \<open>Parsing\<close>

definition is_ws :: "char \<Rightarrow> bool" where
  "is_ws c = (of_char c \<in> {9, 10, 13, 32 :: nat})"

fun skip_ws :: "string \<Rightarrow> string" where
  "skip_ws [] = []"
| "skip_ws (c # s) = (if is_ws c then skip_ws s else c # s)"

definition hex4 :: "string \<Rightarrow> nat option" where
  "hex4 s =
     (case map hex_val s of
        [Some a, Some b, Some c, Some d] \<Rightarrow> Some (a * 4096 + b * 256 + c * 16 + d)
      | _ \<Rightarrow> None)"

definition utf8 :: "nat \<Rightarrow> string" where
  "utf8 u =
     (if u < 128 then [char_of u]
      else if u < 2048 then [char_of (192 + u div 64), char_of (128 + u mod 64)]
      else if u < 65536 then [char_of (224 + u div 4096), char_of (128 + u div 64 mod 64), char_of (128 + u mod 64)]
      else [char_of (240 + u div 262144), char_of (128 + u div 4096 mod 64), char_of (128 + u div 64 mod 64),
            char_of (128 + u mod 64)])"

definition unesc :: "char \<Rightarrow> char option" where
  "unesc e =
     (if e \<in> {CHR 0x22, CHR 0x5C, CHR ''/''} then Some e
      else if e = CHR ''b'' then Some (CHR 0x08)
      else if e = CHR ''f'' then Some (CHR 0x0C)
      else if e = CHR ''n'' then Some (CHR 0x0A)
      else if e = CHR ''r'' then Some (CHR 0x0D)
      else if e = CHR ''t'' then Some (CHR 0x09)
      else None)"

text \<open>A \<open>\u\<close> escape after its four digits \<open>u\<close>: the text it stands for and what is left.\<close>

definition surrogate :: "nat \<Rightarrow> string \<Rightarrow> string \<times> string" where
  "surrogate u s =
     (if 55296 \<le> u \<and> u < 57344 then
        (case (take 2 s = [CHR 0x5C, CHR ''u''], hex4 (take 4 (drop 2 s))) of
           (True, Some l) \<Rightarrow>
             if u < 56320 \<and> 56320 \<le> l \<and> l < 57344
             then (utf8 (65536 + (u - 55296) * 1024 + (l - 56320)), drop 6 s)
             else (utf8 65533, s)
         | _ \<Rightarrow> (utf8 65533, s))
      else (utf8 u, s))"

lemma surrogate_length: "length (snd (surrogate u s)) \<le> length s"
  by (auto simp: surrogate_def split: bool.splits option.splits)

text \<open>The rest of a string literal after its opening quote.\<close>

function parse_str :: "string \<Rightarrow> (string \<times> string) option" where
  "parse_str [] = None"
| "parse_str (c # s) =
     (if c = CHR 0x22 then Some ([], s)
      else if c = CHR 0x5C then
        (case s of
           [] \<Rightarrow> None
         | e # s \<Rightarrow>
             if e = CHR ''u'' then
               (case hex4 (take 4 s) of
                  None \<Rightarrow> None
                | Some u \<Rightarrow>
                    (case parse_str (snd (surrogate u (drop 4 s))) of
                       None \<Rightarrow> None
                     | Some (t, r) \<Rightarrow> Some (fst (surrogate u (drop 4 s)) @ t, r)))
             else
               (case unesc e of
                  None \<Rightarrow> None
                | Some x \<Rightarrow> map_option (\<lambda>(t, r). (x # t, r)) (parse_str s)))
      else if of_char c < (32 :: nat) then None
      else map_option (\<lambda>(t, r). (c # t, r)) (parse_str s))"
  by pat_completeness auto
termination
  by (relation "measure length")
    (auto intro: le_less_trans [OF surrogate_length])

definition is_num_char :: "char \<Rightarrow> bool" where
  "is_num_char c = (c \<in> set ''+-.eE0123456789'')"

definition is_dec :: "char \<Rightarrow> bool" where
  "is_dec c = (dec_val c \<noteq> None)"

text \<open>The number grammar: the parts of a literal, each of which must be well formed.\<close>

definition num_int_ok :: "string \<Rightarrow> bool" where
  "num_int_ok s = (s \<noteq> [] \<and> list_all is_dec s \<and> (hd s = CHR ''0'' \<longrightarrow> tl s = []))"

definition num_exp_ok :: "string \<Rightarrow> bool" where
  "num_exp_ok s =
     (let ds = (case s of [] \<Rightarrow> [] | c # cs \<Rightarrow> if c = CHR ''+'' \<or> c = CHR ''-'' then cs else s)
      in ds \<noteq> [] \<and> list_all is_dec ds)"

definition json_num_ok :: "string \<Rightarrow> bool" where
  "json_num_ok lit =
     (let s = (case lit of [] \<Rightarrow> [] | c # cs \<Rightarrow> if c = CHR ''-'' then cs else lit);
          i = takeWhile is_dec s; r = dropWhile is_dec s
      in num_int_ok i \<and>
         (case r of
            [] \<Rightarrow> True
          | c # t \<Rightarrow>
              if c = CHR ''.'' then
                (let f = takeWhile is_dec t; e = dropWhile is_dec t in
                 f \<noteq> [] \<and> (case e of [] \<Rightarrow> True | c # x \<Rightarrow> (c = CHR ''e'' \<or> c = CHR ''E'') \<and> num_exp_ok x))
              else (c = CHR ''e'' \<or> c = CHR ''E'') \<and> num_exp_ok t))"

fun parse_value :: "nat \<Rightarrow> string \<Rightarrow> (json \<times> string) option"
  and parse_elems :: "nat \<Rightarrow> string \<Rightarrow> (json list \<times> string) option"
  and parse_members :: "nat \<Rightarrow> string \<Rightarrow> ((string \<times> json) list \<times> string) option" where
  "parse_value 0 s = None"
| "parse_value (Suc n) s =
     (case skip_ws s of
        [] \<Rightarrow> None
      | c # r \<Rightarrow>
          if c = CHR 0x22 then map_option (\<lambda>(t, r). (JStr t, r)) (parse_str r)
          else if c = CHR ''['' then
            (if strings_HasPrefix (skip_ws r) '']'' then Some (JArr [], tl (skip_ws r))
             else map_option (\<lambda>(xs, r). (JArr xs, r)) (parse_elems n r))
          else if c = CHR ''{'' then
            (if strings_HasPrefix (skip_ws r) ''}'' then Some (JObj [], tl (skip_ws r))
             else map_option (\<lambda>(kvs, r). (JObj kvs, r)) (parse_members n r))
          else if strings_HasPrefix (c # r) ''null'' then Some (JNull, drop 4 (c # r))
          else if strings_HasPrefix (c # r) ''true'' then Some (JBool True, drop 4 (c # r))
          else if strings_HasPrefix (c # r) ''false'' then Some (JBool False, drop 5 (c # r))
          else
            (let lit = takeWhile is_num_char (c # r) in
             if json_num_ok lit then Some (JNum lit, dropWhile is_num_char (c # r)) else None))"
| "parse_elems 0 s = None"
| "parse_elems (Suc n) s =
     (case parse_value n s of
        None \<Rightarrow> None
      | Some (v, r) \<Rightarrow>
          (case skip_ws r of
             [] \<Rightarrow> None
           | c # r \<Rightarrow>
               if c = CHR '']'' then Some ([v], r)
               else if c = CHR '','' then map_option (\<lambda>(vs, r). (v # vs, r)) (parse_elems n r)
               else None))"
| "parse_members 0 s = None"
| "parse_members (Suc n) s =
     (case skip_ws s of
        [] \<Rightarrow> None
      | q # s \<Rightarrow>
          if q \<noteq> CHR 0x22 then None
          else case parse_str s of
            None \<Rightarrow> None
          | Some (k, s) \<Rightarrow>
              (case skip_ws s of
                 [] \<Rightarrow> None
               | d # s \<Rightarrow>
                   if d \<noteq> CHR '':'' then None
                   else case parse_value n s of
                     None \<Rightarrow> None
                   | Some (v, r) \<Rightarrow>
                       (case skip_ws r of
                          [] \<Rightarrow> None
                        | c # r \<Rightarrow>
                            if c = CHR ''}'' then Some ([(k, v)], r)
                            else if c = CHR '','' then map_option (\<lambda>(kvs, r). ((k, v) # kvs, r)) (parse_members n r)
                            else None)))"

text \<open>The whole input must be one value. Each level of nesting takes at most two units of fuel per byte.\<close>

definition json_parse :: "string \<Rightarrow> json res" where
  "json_parse s =
     (case parse_value (2 * length s + 2) s of
        None \<Rightarrow> Inl (Err ''invalid JSON'')
      | Some (j, r) \<Rightarrow> if skip_ws r = [] then Inr j else Inl (Err ''invalid character after top-level value''))"

section \<open>What is printed is parsed back\<close>

fun wf_json :: "json \<Rightarrow> bool" where
  "wf_json (JNum lit) = (json_num_ok lit \<and> list_all is_num_char lit)"
| "wf_json (JArr xs) = list_all wf_json xs"
| "wf_json (JObj kvs) = list_all (\<lambda>(k, v). wf_json v) kvs"
| "wf_json _ = True"

lemma char_of_code: "of_char c = (n :: nat) \<Longrightarrow> c = char_of n"
  by (drule sym) simp

lemma char_lits: "char_of (34 :: nat) = CHR 0x22" "char_of (92 :: nat) = CHR 0x5C" "char_of (8 :: nat) = CHR 0x08"
  "char_of (12 :: nat) = CHR 0x0C" "char_of (10 :: nat) = CHR 0x0A" "char_of (13 :: nat) = CHR 0x0D"
  "char_of (9 :: nat) = CHR 0x09"
  by (rule char_of_code [symmetric]; simp)+

lemma hex4_small:
  assumes "n < 256"
  shows "hex4 [CHR ''0'', CHR ''0'', hex_digit (n div 16), hex_digit (n mod 16)] = Some n"
proof -
  have "hex_val (CHR ''0'') = Some 0" by (simp add: hex_val_def Let_def)
  moreover have "hex_val (hex_digit (n div 16)) = Some (n div 16)" using assms by (intro hex_val_digit) simp
  moreover have "n div 16 * 16 + n mod 16 = n" by simp
  ultimately show ?thesis by (simp add: hex4_def)
qed

lemma parse_str_esc: "parse_str (json_esc c @ t) = map_option (\<lambda>(x, r). (c # x, r)) (parse_str t)"
proof -
  define n where "n = (of_char c :: nat)"
  then have n: "of_char c = n" by simp
  have c: "c = char_of n" using n by (rule char_of_code)
  consider "n = 34" | "n = 92" | "n = 8" | "n = 12" | "n = 10" | "n = 13" | "n = 9"
    | "n \<notin> {34, 92, 8, 12, 10, 13, 9}" "n < 32 \<or> n = 60 \<or> n = 62 \<or> n = 38"
    | "n \<notin> {34, 92, 60, 62, 38}" "32 \<le> n"
    by fastforce
  then show ?thesis
  proof cases
    case 8
    then have e: "json_esc c = [CHR 0x5C, CHR ''u'', CHR ''0'', CHR ''0'', hex_digit (n div 16), hex_digit (n mod 16)]"
      by (auto simp: json_esc_def n)
    from 8 have s: "surrogate n t = ([c], t)" by (auto simp: surrogate_def utf8_def c)
    from 8 have "n < 256" by auto
    from hex4_small [OF this] s show ?thesis
      by (cases "parse_str t") (simp_all add: e split: prod.splits)
  next
    case 9
    then have "c \<noteq> CHR 0x22" "c \<noteq> CHR 0x5C" using n by auto
    with 9 show ?thesis by (auto simp: json_esc_def n Let_def)
  qed (simp_all add: json_esc_def n unesc_def c char_lits)
qed

lemma parse_str_quoted: "parse_str (concat (map json_esc s) @ CHR 0x22 # r) = Some (s, r)"
  by (induction s) (simp_all add: parse_str_esc del: parse_str.simps(2), simp)

text \<open>What may follow a printed value: nothing, or a character that no number contains.\<close>

definition ends_value :: "string \<Rightarrow> bool" where
  "ends_value r = (r = [] \<or> \<not> is_num_char (hd r))"

lemma ends_value_simps [simp]:
  "ends_value []" "ends_value (CHR '','' # r)" "ends_value (CHR '']'' # r)" "ends_value (CHR ''}'' # r)"
  "ends_value (CHR 0x0A # r)"
  by (simp_all add: ends_value_def is_num_char_def)

lemma num_char_facts:
  assumes "is_num_char c"
  shows "\<not> is_ws c" "c \<noteq> CHR 0x22" "c \<noteq> CHR ''[''" "c \<noteq> CHR ''{''" "c \<noteq> CHR ''n''" "c \<noteq> CHR ''t''" "c \<noteq> CHR ''f''"
  using assms by (auto simp: is_num_char_def is_ws_def)

lemma parse_value_num:
  assumes "json_num_ok lit" and "list_all is_num_char lit" and "ends_value r"
  shows "parse_value (Suc n) (lit @ r) = Some (JNum lit, r)"
proof -
  obtain c cs where lit: "lit = c # cs"
    using assms(1) by (cases lit) (simp_all add: json_num_ok_def num_int_ok_def)
  have tw: "takeWhile is_num_char (lit @ r) = lit" "dropWhile is_num_char (lit @ r) = r"
    using assms(2,3) by (cases r; simp add: ends_value_def takeWhile_append list_all_iff dropWhile_append)+
  have "is_num_char c" using assms(2) lit by simp
  note c = num_char_facts [OF this]
  show ?thesis
    using tw assms(1) c unfolding lit by (simp add: Let_def)
qed

lemma json_quote_length: "2 \<le> length (json_quote s)"
  by (simp add: json_quote_def)

lemma parse_value_quote: "parse_value (Suc n) (json_quote s @ r) = Some (JStr s, r)"
  by (simp add: json_quote_def is_ws_def parse_str_quoted)

lemma num_first:
  assumes "json_num_ok lit" and "list_all is_num_char lit"
  obtains c cs where "lit = c # cs" "is_num_char c"
  using assms by (cases lit) (simp_all add: json_num_ok_def num_int_ok_def)

lemma json_print_hd:
  assumes "wf_json j"
  shows "json_print j \<noteq> [] \<and> \<not> is_ws (hd (json_print j)) \<and> hd (json_print j) \<noteq> CHR '']'' \<and>
    hd (json_print j) \<noteq> CHR ''}''"
proof (cases j)
  case (JNum lit)
  with assms obtain c cs where "lit = c # cs" and c: "is_num_char c"
    by (auto elim: num_first)
  moreover have "c \<noteq> CHR '']''" "c \<noteq> CHR ''}''" using c by (auto simp: is_num_char_def)
  ultimately show ?thesis using JNum num_char_facts(1) by simp
qed (simp_all add: json_quote_def is_ws_def)

lemma json_print_first:
  assumes "wf_json j"
  obtains c cs where "json_print j = c # cs" "\<not> is_ws c" "c \<noteq> CHR '']''" "c \<noteq> CHR ''}''"
  using json_print_hd [OF assms] by (cases "json_print j") simp_all

lemma parse_elems_print:
  assumes "\<And>x r n. x \<in> set xs \<Longrightarrow> ends_value r \<Longrightarrow> 2 * length (json_print x) \<le> n \<Longrightarrow>
      parse_value n (json_print x @ r) = Some (x, r)"
    and "xs \<noteq> []" and "2 * length (commas (map json_print xs)) + 1 \<le> n"
  shows "parse_elems n (commas (map json_print xs) @ CHR '']'' # r) = Some (xs, r)"
  using assms
proof (induction xs arbitrary: n)
  case (Cons x xs)
  obtain m where n: "n = Suc m" using Cons.prems(3) by (cases n) simp_all
  show ?case
  proof (cases xs)
    case Nil
    have "parse_value m (json_print x @ CHR '']'' # r) = Some (x, CHR '']'' # r)"
      using Cons.prems(1) [of x "CHR '']'' # r" m] Cons.prems(3) Nil n by simp
    with Nil n show ?thesis by (simp add: is_ws_def)
  next
    case (Cons y ys)
    let ?rest = "commas (map json_print xs) @ CHR '']'' # r"
    have "parse_value m (json_print x @ CHR '','' # ?rest) = Some (x, CHR '','' # ?rest)"
      using Cons.prems(1) [of x "CHR '','' # ?rest" m] Cons.prems(3) Cons n by simp
    moreover have "parse_elems m ?rest = Some (xs, r)"
      by (rule Cons.IH) (use Cons.prems Cons n in auto)
    ultimately show ?thesis using Cons n by (simp add: is_ws_def)
  qed
qed simp

definition print_member :: "string \<times> json \<Rightarrow> string" where
  "print_member kv = json_quote (fst kv) @ CHR '':'' # json_print (snd kv)"

lemma json_print_obj: "json_print (JObj kvs) = CHR ''{'' # commas (map print_member kvs) @ ''}''"
  by (simp add: print_member_def [abs_def] case_prod_unfold)

lemma parse_members_print:
  assumes "\<And>k x r n. (k, x) \<in> set kvs \<Longrightarrow> ends_value r \<Longrightarrow> 2 * length (json_print x) \<le> n \<Longrightarrow>
      parse_value n (json_print x @ r) = Some (x, r)"
    and "kvs \<noteq> []" and "2 * length (commas (map print_member kvs)) + 1 \<le> n"
  shows "parse_members n (commas (map print_member kvs) @ CHR ''}'' # r) = Some (kvs, r)"
  using assms
proof (induction kvs arbitrary: n)
  case (Cons kv kvs)
  obtain k x where kv: "kv = (k, x)" by fastforce
  obtain m where n: "n = Suc m" using Cons.prems(3) by (cases n) simp_all
  have key: "print_member (k, x) @ t = CHR 0x22 # (concat (map json_esc k) @ CHR 0x22 # CHR '':'' # json_print x @ t)" for t
    by (simp add: print_member_def json_quote_def)
  show ?case
  proof (cases kvs)
    case Nil
    have "parse_value m (json_print x @ CHR ''}'' # r) = Some (x, CHR ''}'' # r)"
      using Cons.prems(1) [of k x "CHR ''}'' # r" m] Cons.prems(3) Nil n kv
      by (simp add: print_member_def)
    with Nil n kv show ?thesis by (simp add: key is_ws_def parse_str_quoted)
  next
    case (Cons y ys)
    let ?rest = "commas (map print_member kvs) @ CHR ''}'' # r"
    have "parse_value m (json_print x @ CHR '','' # ?rest) = Some (x, CHR '','' # ?rest)"
      using Cons.prems(1) [of k x "CHR '','' # ?rest" m] Cons.prems(3) Cons n kv
      by (simp add: print_member_def)
    moreover have "parse_members m ?rest = Some (kvs, r)"
      by (rule Cons.IH) (use Cons.prems Cons n in auto)
    ultimately show ?thesis using Cons n kv
      by (simp add: key [unfolded append.simps] is_ws_def parse_str_quoted)
  qed
qed simp

lemma commas_first:
  assumes "xs \<noteq> []" and "hd xs = c # cs"
  obtains t where "commas xs = c # t"
  using assms by (cases xs rule: commas.cases) auto

lemma parse_value_print:
  "wf_json j \<Longrightarrow> ends_value r \<Longrightarrow> 2 * length (json_print j) \<le> n \<Longrightarrow>
     parse_value n (json_print j @ r) = Some (j, r)"
proof (induction j arbitrary: r n)
  case JNull
  then show ?case by (cases n) (simp_all add: is_ws_def)
next
  case (JBool b)
  then show ?case by (cases n; cases b) (simp_all add: is_ws_def)
next
  case (JNum lit)
  then obtain c cs where "lit = c # cs" by (auto elim: num_first)
  with JNum.prems obtain m where n: "n = Suc m" by (cases n) simp_all
  from JNum.prems parse_value_num [of lit r m] show ?case
    unfolding n json_print.simps wf_json.simps by blast
next
  case (JStr s)
  then show ?case using json_quote_length [of s] by (cases n) (simp_all add: parse_value_quote del: parse_value.simps)
next
  case (JArr xs)
  then obtain m where n: "n = Suc m" by (cases n) simp_all
  show ?case
  proof (cases xs)
    case Nil
    with n show ?thesis by (simp add: is_ws_def)
  next
    case (Cons x ys)
    with JArr.prems(1) have "wf_json x" by simp
    then obtain c cs where c: "json_print x = c # cs" "\<not> is_ws c" "c \<noteq> CHR '']''"
      by (rule json_print_first) auto
    then obtain t where t: "commas (map json_print xs) = c # t"
      using Cons by (auto intro: commas_first [of "map json_print xs" c cs])
    have "parse_elems m (commas (map json_print xs) @ CHR '']'' # r) = Some (xs, r)"
    proof (rule parse_elems_print)
      fix x r n assume "x \<in> set xs" "ends_value r" "2 * length (json_print x) \<le> n"
      then show "parse_value n (json_print x @ r) = Some (x, r)"
        using JArr.IH JArr.prems(1) by (auto simp: list_all_iff)
    qed (use JArr.prems Cons n in auto)
    with n c t show ?thesis by (simp add: is_ws_def)
  qed
next
  case (JObj kvs)
  then obtain m where n: "n = Suc m" by (cases n) simp_all
  show ?case
  proof (cases kvs)
    case Nil
    with n show ?thesis by (simp add: is_ws_def)
  next
    case (Cons kv ys)
    then obtain t where t: "commas (map print_member kvs) = CHR 0x22 # t"
      by (auto intro: commas_first [of "map print_member kvs" "CHR 0x22" "tl (print_member kv)"]
          simp: print_member_def json_quote_def)
    have "parse_members m (commas (map print_member kvs) @ CHR ''}'' # r) = Some (kvs, r)"
    proof (rule parse_members_print)
      fix k x r n assume "(k, x) \<in> set kvs" "ends_value r" "2 * length (json_print x) \<le> n"
      then show "parse_value n (json_print x @ r) = Some (x, r)"
        using JObj.IH JObj.prems(1) by (fastforce simp: list_all_iff)
    qed (use JObj.prems Cons n in \<open>auto simp: json_print_obj simp del: json_print.simps\<close>)
    with n t show ?thesis unfolding json_print_obj by (simp add: is_ws_def)
  qed
qed

theorem json_parse_print:
  assumes "wf_json j" and "skip_ws r = []" and "ends_value r"
  shows "json_parse (json_print j @ r) = Inr j"
  using parse_value_print [OF assms(1,3), of "2 * length (json_print j @ r) + 2"] assms(2)
  by (simp add: json_parse_def)

lemma esc_no_newline: "CHR 0x0A \<notin> set (json_esc c)"
proof -
  have h: "CHR 0x0A \<noteq> hex_digit n" if "n < 16" for n
  proof
    assume "CHR 0x0A = hex_digit n"
    then have "hex_val (CHR 0x0A) = Some n" using hex_val_digit [OF that] by (simp only:)
    then show False by (simp add: hex_val_def Let_def)
  qed
  define n where "n = (of_char c :: nat)"
  have "CHR 0x0A \<noteq> hex_digit (n mod 16)" by (rule h) simp
  moreover have "CHR 0x0A \<noteq> hex_digit (n div 16)" if "n < 32 \<or> n = 60 \<or> n = 62 \<or> n = 38"
    by (rule h) (use that in auto)
  moreover have "CHR 0x0A \<noteq> c" if "32 \<le> n" using that by (auto simp: n_def)
  ultimately show ?thesis
    unfolding json_esc_def Let_def n_def [symmetric] by (simp split: if_split)
qed

lemma quote_no_newline: "CHR 0x0A \<notin> set (json_quote s)"
  using esc_no_newline by (auto simp: json_quote_def)

lemma commas_chars: "set (commas xs) \<subseteq> insert (CHR '','') (\<Union> (set ` set xs))"
  by (induction xs rule: commas.induct) auto

lemma json_print_no_newline: "wf_json j \<Longrightarrow> CHR 0x0A \<notin> set (json_print j)"
proof (induction j)
  case (JNum lit)
  have "\<not> is_num_char (CHR 0x0A)" by (simp add: is_num_char_def)
  with JNum show ?case by (auto simp: list_all_iff)
next
  case (JArr xs)
  have "CHR 0x0A \<notin> set (commas (map json_print xs))"
    using JArr commas_chars [of "map json_print xs"] by (fastforce simp: list_all_iff)
  then show ?case by simp
next
  case (JObj kvs)
  have "CHR 0x0A \<notin> set (print_member kv)" if "kv \<in> set kvs" for kv
  proof -
    obtain k v where kv: "kv = (k, v)" by fastforce
    with that JObj have "CHR 0x0A \<notin> set (json_print v)" by (fastforce simp: list_all_iff)
    then show ?thesis using quote_no_newline [of k] by (simp add: print_member_def kv)
  qed
  then have "CHR 0x0A \<notin> set (commas (map print_member kvs))"
    using commas_chars [of "map print_member kvs"] by fastforce
  then show ?case unfolding json_print_obj by simp
next
  case (JStr s)
  then show ?case using quote_no_newline by simp
qed simp_all

section \<open>Filling Go variables\<close>

text \<open>A decoder takes the parsed value and the variable's present value.\<close>

type_synonym 'a dec = "json \<Rightarrow> 'a \<Rightarrow> 'a res"

abbreviation type_error :: err where
  "type_error \<equiv> Err ''cannot unmarshal''"

definition dec_string :: "string dec" where
  "dec_string j cur = (case j of JStr s \<Rightarrow> Inr s | JNull \<Rightarrow> Inr cur | _ \<Rightarrow> Inl type_error)"

definition dec_bool :: "bool dec" where
  "dec_bool j cur = (case j of JBool b \<Rightarrow> Inr b | JNull \<Rightarrow> Inr cur | _ \<Rightarrow> Inl type_error)"

definition dec_int_in :: "int \<Rightarrow> int \<Rightarrow> int dec" where
  "dec_int_in lo hi j cur =
     (case j of
        JNum lit \<Rightarrow>
          (case strconv_ParseInt lit of
             (i, None) \<Rightarrow> if lo \<le> i \<and> i \<le> hi then Inr i else Inl type_error
           | (_, Some e) \<Rightarrow> Inl type_error)
      | JNull \<Rightarrow> Inr cur
      | _ \<Rightarrow> Inl type_error)"

abbreviation dec_int64 :: "int dec" where
  "dec_int64 \<equiv> dec_int_in (- (2 ^ 63)) (2 ^ 63 - 1)"

abbreviation dec_int32 :: "int dec" where
  "dec_int32 \<equiv> dec_int_in (- (2 ^ 31)) (2 ^ 31 - 1)"

definition dec_word :: "'w::len word dec" where
  "dec_word j cur =
     (case j of
        JNum lit \<Rightarrow>
          (case (if lit = [] then None else parse_dec 0 lit) of
             Some n \<Rightarrow> if n < 2 ^ LENGTH('w) then Inr (word_of_nat n) else Inl type_error
           | None \<Rightarrow> Inl type_error)
      | JNull \<Rightarrow> Inr cur
      | _ \<Rightarrow> Inl type_error)"

fun mapM :: "('a \<Rightarrow> 'b res) \<Rightarrow> 'a list \<Rightarrow> 'b list res" where
  "mapM f [] = Inr []"
| "mapM f (x # xs) = bindE (f x) (\<lambda>y. bindE (mapM f xs) (\<lambda>ys. Inr (y # ys)))"

definition dec_list :: "'a dec \<Rightarrow> 'a \<Rightarrow> 'a list dec" where
  "dec_list d zero j cur =
     (case j of JArr xs \<Rightarrow> mapM (\<lambda>x. d x zero) xs | JNull \<Rightarrow> Inr [] | _ \<Rightarrow> Inl type_error)"

text \<open>
  A \<open>float64\<close> is the decimal number its shortest text stands for; a literal with more digits than
  a \<open>float64\<close> holds would be rounded by Go and is not here.
\<close>

fun dec_exp :: "string \<Rightarrow> int" where
  "dec_exp s = (case s of
      [] \<Rightarrow> 0
    | c # cs \<Rightarrow>
        if c = CHR ''-'' then - int (the (parse_dec 0 cs))
        else if c = CHR ''+'' then int (the (parse_dec 0 cs)) else int (the (parse_dec 0 s)))"

definition pow10 :: "int \<Rightarrow> rat" where
  "pow10 e = (if 0 \<le> e then 10 ^ nat e else 1 / 10 ^ nat (- e))"

definition parse_float :: "string \<Rightarrow> rat" where
  "parse_float lit =
     (let neg = strings_HasPrefix lit ''-''; s = (if neg then tl lit else lit);
          i = takeWhile is_dec s; r = dropWhile is_dec s;
          f = (if strings_HasPrefix r ''.'' then takeWhile is_dec (tl r) else []);
          x = (if strings_HasPrefix r ''.'' then dropWhile is_dec (tl r) else r);
          m = of_nat (the (parse_dec 0 (i @ f))) * pow10 (- int (length f)) *
              (if x = [] then 1 else pow10 (dec_exp (tl x)))
      in if neg then - m else m)"

definition is_int_rat :: "rat \<Rightarrow> bool" where
  "is_int_rat r = (snd (quotient_of r) = 1)"

text \<open>The fewest decimals that write the number exactly, up to a bound.\<close>

fun decimals :: "nat \<Rightarrow> rat \<Rightarrow> nat" where
  "decimals 0 r = 0"
| "decimals (Suc n) r = (if is_int_rat r then 0 else Suc (decimals n (10 * r)))"

definition print_float :: "rat \<Rightarrow> string" where
  "print_float r =
     (let k = decimals 17 r; m = nat (floor (abs r * 10 ^ k)); ds = dec_nat m;
          padded = replicate (Suc k - length ds) (CHR ''0'') @ ds;
          i = take (length padded - k) padded; f = drop (length padded - k) padded
      in (if r < 0 then ''-'' else []) @ i @ (if f = [] then [] else CHR ''.'' # f))"

definition dec_float :: "rat dec" where
  "dec_float j cur = (case j of JNum lit \<Rightarrow> Inr (parse_float lit) | JNull \<Rightarrow> Inr cur | _ \<Rightarrow> Inl type_error)"

text \<open>A field of a struct: every object member whose key matches the field's name, in order.\<close>

definition key_matches :: "string \<Rightarrow> string \<Rightarrow> bool" where
  "key_matches f k = (strings_ToLower k = strings_ToLower f)"

fun get_field :: "string \<Rightarrow> 'a dec \<Rightarrow> (string \<times> json) list \<Rightarrow> 'a \<Rightarrow> 'a res" where
  "get_field f d [] cur = Inr cur"
| "get_field f d ((k, v) # kvs) cur =
     (if key_matches f k then bindE (d v cur) (get_field f d kvs) else get_field f d kvs cur)"

text \<open>The members a struct is filled from: \<open>null\<close> fills nothing, and only an object fits.\<close>

definition members :: "json \<Rightarrow> (string \<times> json) list res" where
  "members j = (case j of JObj kvs \<Rightarrow> Inr kvs | JNull \<Rightarrow> Inr [] | _ \<Rightarrow> Inl type_error)"

abbreviation enc_int :: "int \<Rightarrow> json" where
  "enc_int i \<equiv> JNum (fmt_d i)"

abbreviation enc_word :: "'w::len word \<Rightarrow> json" where
  "enc_word w \<equiv> JNum (dec_nat (unat w))"

abbreviation enc_float :: "rat \<Rightarrow> json" where
  "enc_float r \<equiv> JNum (print_float r)"

text \<open>\<open>omitempty\<close>: a member that is left out for the zero value.\<close>

definition omitempty :: "bool \<Rightarrow> string \<Rightarrow> json \<Rightarrow> (string \<times> json) list" where
  "omitempty z k v = (if z then [] else [(k, v)])"

lemma dec_enc [simp]:
  "dec_string (JStr s) scur = Inr s" "dec_bool (JBool b) bcur = Inr b"
  "dec_word (enc_word w) wcur = Inr (w :: 'w::len word)"
  "lo \<le> i \<Longrightarrow> i \<le> hi \<Longrightarrow> - (2 ^ 63) \<le> i \<Longrightarrow> i < 2 ^ 63 \<Longrightarrow> dec_int_in lo hi (enc_int i) icur = Inr i"
  by (simp_all add: dec_string_def dec_bool_def dec_word_def dec_int_in_def ParseInt_fmt_d parse_dec_nat)

lemma dec_list_enc: "(\<And>x. x \<in> set xs \<Longrightarrow> d (e x) zero = Inr x) \<Longrightarrow> dec_list d zero (JArr (map e xs)) cur = Inr xs"
proof -
  assume h: "\<And>x. x \<in> set xs \<Longrightarrow> d (e x) zero = Inr x"
  then have "mapM (\<lambda>x. d x zero) (map e xs) = Inr xs" by (induction xs) simp_all
  then show ?thesis by (simp add: dec_list_def)
qed

lemma get_field_append:
  "get_field f d (xs @ ys) cur = bindE (get_field f d xs cur) (get_field f d ys)"
proof (induction xs arbitrary: cur)
  case (Cons kv xs)
  obtain k v where "kv = (k, v)" by fastforce
  with Cons show ?case by (cases "d v cur") simp_all
qed simp

lemma get_field_omitempty:
  "get_field f d (omitempty e k v @ ys) cur =
     (if e \<or> \<not> key_matches f k then get_field f d ys cur else bindE (d v cur) (get_field f d ys))"
  by (simp add: omitempty_def)

text \<open>The members of a struct: name, whether \<open>omitempty\<close> leaves it out, value.\<close>

definition struct_members :: "(string \<times> bool \<times> json) list \<Rightarrow> (string \<times> json) list" where
  "struct_members fs = concat (map (\<lambda>(k, z, v). omitempty z k v) fs)"

definition distinct_names :: "(string \<times> bool \<times> json) list \<Rightarrow> bool" where
  "distinct_names fs = distinct (map (strings_ToLower \<circ> fst) fs)"

lemma get_field_other:
  assumes "strings_ToLower k \<notin> set (map (strings_ToLower \<circ> fst) fs)"
  shows "get_field k d (struct_members fs) cur = Inr cur"
  using assms by (induction fs) (auto simp: struct_members_def get_field_omitempty key_matches_def)

lemma get_struct_field:
  assumes "distinct_names fs" and "k \<in> fst ` set fs"
  shows "get_field k d (struct_members fs) cur =
    (case map_of fs k of None \<Rightarrow> Inr cur | Some (z, v) \<Rightarrow> if z then Inr cur else d v cur)"
  using assms
proof (induction fs)
  case (Cons f fs)
  obtain k' z v where f: "f = (k', z, v)" by (cases f)
  have split: "struct_members (f # fs) = omitempty z k' v @ struct_members fs"
    by (simp add: struct_members_def f)
  show ?case
  proof (cases "k = k'")
    case True
    with Cons.prems(1) have "strings_ToLower k \<notin> set (map (strings_ToLower \<circ> fst) fs)"
      by (simp add: distinct_names_def f)
    from get_field_other [OF this, of d] True show ?thesis
      unfolding split get_field_omitempty by (cases "d v cur") (simp_all add: f key_matches_def)
  next
    case False
    with Cons.prems have k: "k \<in> fst ` set fs" by (auto simp: f)
    with Cons.prems(1) have "\<not> key_matches k k'"
      by (force simp: distinct_names_def f key_matches_def)
    with Cons.IH [OF _ k] Cons.prems(1) False show ?thesis
      unfolding split get_field_omitempty by (simp add: f distinct_names_def)
  qed
qed simp

lemma wf_struct: "list_all (\<lambda>(k, v). wf_json v) (struct_members fs) \<longleftrightarrow> list_all (\<lambda>(k, z, v). z \<or> wf_json v) fs"
  by (induction fs) (auto simp: struct_members_def omitempty_def split: if_splits)

lemma members_JObj [simp]: "members (JObj kvs) = Inr kvs"
  by (simp add: members_def)

section \<open>Numbers that the program prints\<close>

lemma dec_nat_is_dec: "list_all is_dec (dec_nat n)"
  using dec_nat_chars [of _ n] by (simp add: list_all_iff is_dec_def)

lemma takeWhile_dec_nat [simp]: "takeWhile is_dec (dec_nat n) = dec_nat n" "dropWhile is_dec (dec_nat n) = []"
  using dec_nat_is_dec [of n] by (simp_all add: list_all_iff)

lemma is_dec_num_char: "is_dec c \<Longrightarrow> is_num_char c"
proof -
  assume "is_dec c"
  then obtain n where n: "of_char c = (n :: nat)" "48 \<le> n" "n \<le> 57"
    by (auto simp: is_dec_def dec_val_def Let_def split: if_splits)
  from n(2,3) have "n \<in> {48, 49, 50, 51, 52, 53, 54, 55, 56, 57}"
    by (simp only: insert_iff empty_iff) presburger
  then have "of_char c \<in> (of_char ` set ''0123456789'' :: nat set)" unfolding n(1) by simp
  then have "c \<in> set ''0123456789''" by (simp only: inj_image_mem_iff [OF inj_of_char])
  then show ?thesis by (auto simp: is_num_char_def)
qed

lemma dec_nat_num: "list_all is_num_char (dec_nat n)"
  using dec_nat_is_dec [of n] by (auto simp: list_all_iff is_dec_num_char)

lemma dec_nat_no_zero: "hd (dec_nat n) = CHR ''0'' \<Longrightarrow> n = 0 \<and> tl (dec_nat n) = []"
proof (induction n rule: dec_nat.induct)
  case (1 n)
  show ?case
  proof (cases "n < 10")
    case True
    have "dec_val (CHR ''0'') = Some 0" by (simp add: dec_val_def Let_def)
    moreover have "dec_val (dec_digit n) = Some n" using True by (rule dec_val_digit)
    moreover have "dec_nat n = [dec_digit n]" using True by (subst dec_nat.simps) simp
    ultimately show ?thesis using "1.prems" by auto
  next
    case False
    then have e: "dec_nat n = dec_nat (n div 10) @ [dec_digit (n mod 10)]" by (subst dec_nat.simps) simp
    with "1.prems" have "hd (dec_nat (n div 10)) = CHR ''0''" by simp
    with "1.IH" False have "n div 10 = 0" by simp
    with False show ?thesis by simp
  qed
qed

lemma dec_nat_int_ok: "num_int_ok (dec_nat n)"
  using dec_nat_no_zero [of n] dec_nat_is_dec [of n] by (simp add: num_int_ok_def)

lemma dec_nat_json: "json_num_ok (dec_nat n)"
proof -
  obtain c cs where c: "dec_nat n = c # cs" by (cases "dec_nat n") auto
  then have "c \<noteq> CHR ''-''" using dec_nat_hd_not_minus by blast
  with c have "(case dec_nat n of [] \<Rightarrow> [] | c # cs \<Rightarrow> if c = CHR ''-'' then cs else dec_nat n) = dec_nat n" by simp
  then show ?thesis by (simp add: json_num_ok_def dec_nat_int_ok)
qed

lemma fmt_d_json: "json_num_ok (fmt_d i) \<and> list_all is_num_char (fmt_d i)"
proof (cases "i < 0")
  case True
  then show ?thesis by (simp add: fmt_d_def json_num_ok_def dec_nat_int_ok dec_nat_num is_num_char_def)
qed (simp add: fmt_d_def dec_nat_json dec_nat_num)

lemma print_float_int: "print_float (of_int i) = fmt_d i"
proof -
  have k: "decimals 17 (of_int i) = 0"
    by (simp add: numeral_eq_Suc is_int_rat_def quotient_of_int)
  have m: "nat (floor (abs (of_int i :: rat))) = nat (abs i)"
    by (metis floor_of_int of_int_abs)
  have "replicate (Suc 0 - length (dec_nat (nat (abs i)))) (CHR ''0'') = []"
    by (cases "dec_nat (nat (abs i))") simp_all
  then show ?thesis
    by (cases "i < 0") (simp_all add: print_float_def k m fmt_d_def Let_def)
qed

lemma dec_nat_no_prefix: "\<not> strings_HasPrefix (dec_nat n) ''-''"
  using dec_nat_hd_not_minus [of n] by (cases "dec_nat n") auto

lemma parse_float_int: "parse_float (fmt_d i) = of_int i"
  using dec_nat_no_prefix [of "nat i"]
  by (auto simp: parse_float_def fmt_d_def parse_dec_nat pow10_def Let_def of_nat_nat)

lemma dec_float_enc [simp]: "dec_float (enc_float (of_int i)) cur = Inr (of_int i)"
  by (simp add: dec_float_def print_float_int parse_float_int)

lemma wf_nums [simp]: "wf_json (enc_int i)" "wf_json (enc_word w)" "wf_json (enc_float (of_int n))"
  by (simp_all add: fmt_d_json dec_nat_json dec_nat_num print_float_int)

end
