(* ===== verification/Transport.thy ===== *)
theory Transport
  imports Json
begin

text \<open>
  The link between tags and gateway (\<open>internal/transport\<close>): envelopes as one JSON object per line over
  a byte stream, and the server that accepts connections and closes them.
\<close>

definition TypeHello :: string where "TypeHello = ''hello''"
definition TypeUp :: string where "TypeUp = ''up''"
definition TypeDown :: string where "TypeDown = ''down''"

definition WindowRX1 :: string where "WindowRX1 = ''rx1''"
definition WindowRX2 :: string where "WindowRX2 = ''rx2''"
definition WindowClassC :: string where "WindowClassC = ''classc''"

record envelope =
  en_Type :: string
  en_DevEUI :: string
  en_DevAddr :: string
  en_Class :: string
  en_Region :: string
  en_Phy :: string
  en_Freq :: u32
  en_DR :: u8
  en_CodR :: string
  en_Window :: string
  en_At :: int

definition zero_envelope :: envelope where
  "zero_envelope = \<lparr>en_Type = [], en_DevEUI = [], en_DevAddr = [], en_Class = [], en_Region = [], en_Phy = [],
     en_Freq = 0, en_DR = 0, en_CodR = [], en_Window = [], en_At = 0\<rparr>"

text \<open>\<open>json.Marshal\<close> of an envelope: its fields in order, the \<open>omitempty\<close> ones only when set.\<close>

definition envelope_fields :: "envelope \<Rightarrow> (string \<times> bool \<times> json) list" where
  "envelope_fields e =
     [(''type'', False, JStr (en_Type e)), (''dev_eui'', False, JStr (en_DevEUI e)),
      (''dev_addr'', en_DevAddr e = [], JStr (en_DevAddr e)), (''class'', en_Class e = [], JStr (en_Class e)),
      (''region'', en_Region e = [], JStr (en_Region e)), (''phy'', en_Phy e = [], JStr (en_Phy e)),
      (''freq'', en_Freq e = 0, enc_word (en_Freq e)), (''dr'', en_DR e = 0, enc_word (en_DR e)),
      (''codr'', en_CodR e = [], JStr (en_CodR e)), (''window'', en_Window e = [], JStr (en_Window e)),
      (''at'', en_At e = 0, enc_int (en_At e))]"

definition enc_envelope :: "envelope \<Rightarrow> json" where
  "enc_envelope e = JObj (struct_members (envelope_fields e))"

definition dec_envelope :: "json \<Rightarrow> envelope res" where
  "dec_envelope j =
     bindE (members j) (\<lambda>kvs.
     bindE (get_field ''type'' dec_string kvs []) (\<lambda>typ.
     bindE (get_field ''dev_eui'' dec_string kvs []) (\<lambda>devEUI.
     bindE (get_field ''dev_addr'' dec_string kvs []) (\<lambda>devAddr.
     bindE (get_field ''class'' dec_string kvs []) (\<lambda>cls.
     bindE (get_field ''region'' dec_string kvs []) (\<lambda>region.
     bindE (get_field ''phy'' dec_string kvs []) (\<lambda>phy.
     bindE (get_field ''freq'' dec_word kvs 0) (\<lambda>freq.
     bindE (get_field ''dr'' dec_word kvs 0) (\<lambda>dr.
     bindE (get_field ''codr'' dec_string kvs []) (\<lambda>codR.
     bindE (get_field ''window'' dec_string kvs []) (\<lambda>window.
     bindE (get_field ''at'' dec_int64 kvs 0) (\<lambda>tm.
     Inr \<lparr>en_Type = typ, en_DevEUI = devEUI, en_DevAddr = devAddr, en_Class = cls, en_Region = region, en_Phy = phy,
          en_Freq = freq, en_DR = dr, en_CodR = codR, en_Window = window, en_At = tm\<rparr>))))))))))))"

text \<open>The bytes of one envelope.\<close>

definition conn_line :: "envelope \<Rightarrow> string" where
  "conn_line e = json_print (enc_envelope e) @ [CHR 0x0A]"

text \<open>
  \<open>Conn.Write\<close>, under the connection's write mutex: one write of the whole line. A write that fails
  may have sent part of it.
\<close>

definition conn_Write :: "(nat \<times> err) option \<Rightarrow> envelope \<Rightarrow> string \<Rightarrow> string \<times> unit res" where
  "conn_Write failed e wire =
     (case failed of
        None \<Rightarrow> (wire @ conn_line e, Inr ())
      | Some (n, err) \<Rightarrow> (wire @ take n (conn_line e), wrapE (''writing '' @ en_Type e) (Inl err)))"

text \<open>
  \<open>Conn.Read\<close> on the bytes that the peer sends until it closes: the next line with its newline, or
  what is left without one.
\<close>

definition conn_Read :: "string \<Rightarrow> envelope res \<times> string" where
  "conn_Read s =
     (let line = takeWhile (\<lambda>c. c \<noteq> CHR 0x0A) s; rest = dropWhile (\<lambda>c. c \<noteq> CHR 0x0A) s in
      if rest = [] \<and> line = [] then (Inl EOF, [])
      else (wrapE ''decoding envelope'' (bindE (json_parse (line @ take 1 rest)) dec_envelope), drop 1 rest))"

lemma conn_Read_shorter:
  assumes "conn_Read s = (Inr env, r)"
  shows "length r < length s"
proof (cases "dropWhile (\<lambda>c. c \<noteq> CHR 0x0A) s")
  case Nil
  with assms show ?thesis by (cases s) (auto simp: conn_Read_def Let_def split: if_splits)
next
  case (Cons c t)
  then have "length (c # t) \<le> length s" by (metis length_dropWhile_le)
  moreover have "r = t" using assms Cons by (simp add: conn_Read_def)
  ultimately show ?thesis by simp
qed

text \<open>What a reader that stops at the first error gets from a stream.\<close>

function read_all :: "string \<Rightarrow> envelope list" where
  "read_all s = (case conn_Read s of (Inl e, r) \<Rightarrow> [] | (Inr env, r) \<Rightarrow> env # read_all r)"
  by pat_completeness auto
termination
  by (relation "measure length") (auto dest: conn_Read_shorter [OF sym])

declare read_all.simps [simp del]

section \<open>The server\<close>

text \<open>
  Connections are numbered. The server keeps those with a running handler; \<open>sv_open\<close> are the
  connections the program has not closed yet.
\<close>

record server =
  sv_closed :: bool
  sv_active :: "nat set"
  sv_open :: "nat set"

definition Listen :: server where
  "Listen = \<lparr>sv_closed = False, sv_active = {}, sv_open = {}\<rparr>"

text \<open>Binding an address, with the error of \<open>net.Listen\<close> if it has one.\<close>

definition net_Listen :: "string \<Rightarrow> err option \<Rightarrow> server res" where
  "net_Listen addr e = (case e of None \<Rightarrow> Inr Listen | Some e \<Rightarrow> Inl (Wrap (''listening on '' @ addr) e))"

text \<open>\<open>accept\<close>: a connection that arrives after \<open>Close\<close> is closed at once.\<close>

definition sv_accept :: "nat \<Rightarrow> server \<Rightarrow> server" where
  "sv_accept c s =
     (let s = s\<lparr>sv_open := insert c (sv_open s)\<rparr> in
      if sv_closed s then s\<lparr>sv_open := sv_open s - {c}\<rparr>
      else s\<lparr>sv_active := insert c (sv_active s)\<rparr>)"

text \<open>The deferred clean-up of a handler that returns.\<close>

definition sv_handler_done :: "nat \<Rightarrow> server \<Rightarrow> server" where
  "sv_handler_done c s = s\<lparr>sv_active := sv_active s - {c}, sv_open := sv_open s - {c}\<rparr>"

definition sv_Close :: "server \<Rightarrow> server" where
  "sv_Close s = s\<lparr>sv_closed := True, sv_open := sv_open s - sv_active s\<rparr>"

inductive server_step :: "server \<Rightarrow> server \<Rightarrow> bool" where
  accept: "c \<notin> sv_open s \<Longrightarrow> server_step s (sv_accept c s)"
| handler_done: "c \<in> sv_active s \<Longrightarrow> server_step s (sv_handler_done c s)"
| close: "server_step s (sv_Close s)"

inductive server_reachable :: "server \<Rightarrow> bool" where
  init: "server_reachable Listen"
| step: "server_reachable s \<Longrightarrow> server_step s t \<Longrightarrow> server_reachable t"

inductive_cases server_stepE: "server_step s t"

definition server_inv :: "server \<Rightarrow> bool" where
  "server_inv s = (sv_open s \<subseteq> sv_active s \<and> (sv_closed s \<longrightarrow> sv_open s = {}))"

lemma server_step_inv: "server_step s t \<Longrightarrow> server_inv s \<Longrightarrow> server_inv t"
  by (erule server_stepE)
    (auto simp: server_inv_def sv_accept_def sv_handler_done_def sv_Close_def Let_def)

lemma server_reachable_inv: "server_reachable s \<Longrightarrow> server_inv s"
proof (induction rule: server_reachable.induct)
  case init
  show ?case by (simp add: server_inv_def Listen_def)
qed (rule server_step_inv)

section \<open>Lines\<close>

definition ascii :: "string \<Rightarrow> bool" where
  "ascii s = list_all (\<lambda>c. of_char c < (128 :: nat)) s"

definition envelope_ok :: "envelope \<Rightarrow> bool" where
  "envelope_ok e =
     (list_all ascii [en_Type e, en_DevEUI e, en_DevAddr e, en_Class e, en_Region e, en_Phy e, en_CodR e, en_Window e] \<and>
      - (2 ^ 63) \<le> en_At e \<and> en_At e < 2 ^ 63)"

lemma envelope_names: "distinct_names (envelope_fields e)"
  by (simp add: distinct_names_def envelope_fields_def strings_ToLower_def lower_char_def)

lemma wf_envelope: "wf_json (enc_envelope e)"
  by (simp add: enc_envelope_def wf_struct envelope_fields_def del: wf_json.simps(1))

lemma envelope_keys:
  "fst ` set (envelope_fields e) = set [''type'', ''dev_eui'', ''dev_addr'', ''class'', ''region'', ''phy'', ''freq'',
     ''dr'', ''codr'', ''window'', ''at'']"
  by (simp add: envelope_fields_def)

lemmas envelope_get = get_struct_field [OF envelope_names, unfolded envelope_keys]

lemma dec_enc_envelope: "envelope_ok e \<Longrightarrow> dec_envelope (enc_envelope e) = Inr e"
  by (simp add: dec_envelope_def enc_envelope_def envelope_get)
    (simp add: envelope_fields_def envelope_ok_def)

lemma conn_Read_line: "envelope_ok e \<Longrightarrow> conn_Read (conn_line e @ rest) = (Inr e, rest)"
proof -
  assume ok: "envelope_ok e"
  have nl: "CHR 0x0A \<notin> set (json_print (enc_envelope e))"
    by (rule json_print_no_newline [OF wf_envelope])
  then have t: "takeWhile (\<lambda>c. c \<noteq> CHR 0x0A) (conn_line e @ rest) = json_print (enc_envelope e)"
    "dropWhile (\<lambda>c. c \<noteq> CHR 0x0A) (conn_line e @ rest) = CHR 0x0A # rest"
    by (auto simp: conn_line_def takeWhile_append dropWhile_append)
  have "json_parse (json_print (enc_envelope e) @ [CHR 0x0A]) = Inr (enc_envelope e)"
    by (rule json_parse_print [OF wf_envelope]) (simp_all add: is_ws_def)
  then show ?thesis by (simp add: conn_Read_def t dec_enc_envelope [OF ok])
qed

section \<open>Properties\<close>

text \<open>C30: the framing loses nothing and mixes nothing up. Whatever ASCII text and numbers the envelopes
  hold, the bytes of any sequence of writes are read back as exactly that sequence: an envelope
  never contains a raw newline, left-out fields come back as their zero values, and the reader
  stops cleanly at the end of the stream.\<close>

theorem ndjson_roundtrip:
  "list_all envelope_ok es \<Longrightarrow> read_all (concat (map conn_line es)) = es"
proof (induction es)
  case Nil
  show ?case by (subst read_all.simps) (simp add: conn_Read_def)
next
  case (Cons e es)
  then show ?case by (subst read_all.simps) (simp add: conn_Read_line)
qed

definition example_envelope :: envelope where
  "example_envelope = zero_envelope\<lparr>en_Type := TypeUp, en_DevEUI := ''01'', en_Phy := [CHR 0x0A, CHR 0x22],
     en_Freq := 868100000, en_At := -5\<rparr>"

theorem ndjson_roundtrip_witness:
  "read_all (conn_line example_envelope @ conn_line zero_envelope) = [example_envelope, zero_envelope]"
  using ndjson_roundtrip [of "[example_envelope, zero_envelope]"]
  by (simp add: envelope_ok_def example_envelope_def zero_envelope_def ascii_def TypeUp_def)

text \<open>The server leaks no connection. In every state it can reach, a connection that is still open
  has a running handler that will close it, and after \<open>Close\<close> no accepted connection is open,
  including the ones that arrive while it is closing.\<close>

theorem server_no_leak:
  "server_reachable s \<Longrightarrow> sv_open s \<subseteq> sv_active s \<and> (sv_closed s \<longrightarrow> sv_open s = {})"
  using server_reachable_inv by (simp add: server_inv_def)

theorem server_no_leak_witness:
  "sv_open (sv_accept 2 (sv_Close (sv_accept 1 Listen))) = {}"
proof -
  have "server_reachable (sv_accept 1 Listen)"
    by (rule server_reachable.step [OF server_reachable.init server_step.accept]) (simp add: Listen_def)
  then have "server_reachable (sv_Close (sv_accept 1 Listen))"
    by (rule server_reachable.step [OF _ server_step.close])
  then have "server_reachable (sv_accept 2 (sv_Close (sv_accept 1 Listen)))"
    by (rule server_reachable.step [OF _ server_step.accept])
      (simp add: sv_Close_def sv_accept_def Listen_def)
  from server_no_leak [OF this] show ?thesis by (simp add: sv_accept_def sv_Close_def Let_def)
qed

end
