(* ===== verification/Protocol.thy ===== *)
theory Protocol
  imports Transport
begin

text \<open>
  The Basic Station messages between gateway and network server
  (\<open>internal/gateway/protocol\<close>): the message structs, their JSON form and the dispatch of
  \<open>Decode\<close> on the message type.

  A nil slice and an empty one are both the empty list, except for \<open>Sx1301Conf\<close>, which the
  program leaves nil and encodes as \<open>null\<close>; the maps in it are kept as the JSON they came from. A
  \<open>float64\<close> is a rational; the program only makes whole ones.
\<close>

definition TypeVersion :: string where "TypeVersion = ''version''"
definition TypeRouterConfig :: string where "TypeRouterConfig = ''router_config''"
definition TypeJreq :: string where "TypeJreq = ''jreq''"
definition TypeUpdf :: string where "TypeUpdf = ''updf''"
definition TypeDnmsg :: string where "TypeDnmsg = ''dnmsg''"
definition TypeDntxed :: string where "TypeDntxed = ''dntxed''"

definition int64_ok :: "int \<Rightarrow> bool" where
  "int64_ok i = (- (2 ^ 63) \<le> i \<and> i < 2 ^ 63)"

definition int32_ok :: "int \<Rightarrow> bool" where
  "int32_ok i = (- (2 ^ 31) \<le> i \<and> i < 2 ^ 31)"

definition enc_list :: "('a \<Rightarrow> json) \<Rightarrow> 'a list \<Rightarrow> json" where
  "enc_list e xs = JArr (map e xs)"

text \<open>A \<open>[]map[string]any\<close>.\<close>

definition is_map :: "json \<Rightarrow> bool" where
  "is_map j = (case j of JObj kvs \<Rightarrow> True | JNull \<Rightarrow> True | _ \<Rightarrow> False)"

definition enc_conf :: "json list option \<Rightarrow> json" where
  "enc_conf c = (case c of None \<Rightarrow> JNull | Some xs \<Rightarrow> JArr xs)"

definition dec_conf :: "json list option dec" where
  "dec_conf j cur =
     (case j of
        JArr xs \<Rightarrow> if list_all is_map xs then Inr (Some xs) else Inl type_error
      | JNull \<Rightarrow> Inr None
      | _ \<Rightarrow> Inl type_error)"

definition conf_ok :: "json list option \<Rightarrow> bool" where
  "conf_ok c = (case c of None \<Rightarrow> True | Some xs \<Rightarrow> list_all is_map xs \<and> list_all wf_json xs)"

section \<open>Messages\<close>

record up_info =
  ui_RCtx :: int
  ui_XTime :: int
  ui_GpsTime :: int
  ui_RSSI :: rat
  ui_SNR :: rat

definition up_info_fields :: "up_info \<Rightarrow> (string \<times> bool \<times> json) list" where
  "up_info_fields m =
     [(''rctx'', False, enc_int (ui_RCtx m)), (''xtime'', False, enc_int (ui_XTime m)),
      (''gpstime'', False, enc_int (ui_GpsTime m)), (''rssi'', False, enc_float (ui_RSSI m)),
      (''snr'', False, enc_float (ui_SNR m))]"

definition enc_up_info :: "up_info \<Rightarrow> json" where
  "enc_up_info m = JObj (struct_members (up_info_fields m))"

definition zero_up_info :: up_info where
  "zero_up_info = \<lparr>ui_RCtx = 0, ui_XTime = 0, ui_GpsTime = 0, ui_RSSI = 0, ui_SNR = 0\<rparr>"

definition dec_up_info :: "up_info dec" where
  "dec_up_info j cur =
     bindE (members j) (\<lambda>kvs.
     bindE (get_field ''rctx'' dec_int64 kvs (ui_RCtx cur)) (\<lambda>v1.
     bindE (get_field ''xtime'' dec_int64 kvs (ui_XTime cur)) (\<lambda>v2.
     bindE (get_field ''gpstime'' dec_int64 kvs (ui_GpsTime cur)) (\<lambda>v3.
     bindE (get_field ''rssi'' dec_float kvs (ui_RSSI cur)) (\<lambda>v4.
     bindE (get_field ''snr'' dec_float kvs (ui_SNR cur)) (\<lambda>v5.
     Inr \<lparr>ui_RCtx = v1, ui_XTime = v2, ui_GpsTime = v3, ui_RSSI = v4, ui_SNR = v5\<rparr>))))))"

definition up_info_ok :: "up_info \<Rightarrow> bool" where
  "up_info_ok m = (int64_ok (ui_RCtx m) \<and> int64_ok (ui_XTime m) \<and> int64_ok (ui_GpsTime m) \<and>
      ui_RSSI m \<in> \<int> \<and> ui_SNR m \<in> \<int>)"

record version =
  ve_MsgType :: string
  ve_Station :: string
  ve_Firmware :: string
  ve_Package :: string
  ve_Model :: string
  ve_Protocol :: int
  ve_Features :: string

definition version_fields :: "version \<Rightarrow> (string \<times> bool \<times> json) list" where
  "version_fields m =
     [(''msgtype'', False, JStr (ve_MsgType m)), (''station'', False, JStr (ve_Station m)),
      (''firmware'', False, JStr (ve_Firmware m)), (''package'', ve_Package m = [], JStr (ve_Package m)),
      (''model'', False, JStr (ve_Model m)), (''protocol'', False, enc_int (ve_Protocol m)),
      (''features'', ve_Features m = [], JStr (ve_Features m))]"

definition enc_version :: "version \<Rightarrow> json" where
  "enc_version m = JObj (struct_members (version_fields m))"

definition dec_version :: "json \<Rightarrow> version res" where
  "dec_version j =
     bindE (members j) (\<lambda>kvs.
     bindE (get_field ''msgtype'' dec_string kvs []) (\<lambda>v1.
     bindE (get_field ''station'' dec_string kvs []) (\<lambda>v2.
     bindE (get_field ''firmware'' dec_string kvs []) (\<lambda>v3.
     bindE (get_field ''package'' dec_string kvs []) (\<lambda>v4.
     bindE (get_field ''model'' dec_string kvs []) (\<lambda>v5.
     bindE (get_field ''protocol'' dec_int64 kvs 0) (\<lambda>v6.
     bindE (get_field ''features'' dec_string kvs []) (\<lambda>v7.
     Inr \<lparr>ve_MsgType = v1, ve_Station = v2, ve_Firmware = v3, ve_Package = v4, ve_Model = v5,
          ve_Protocol = v6, ve_Features = v7\<rparr>))))))))"

definition version_ok :: "version \<Rightarrow> bool" where
  "version_ok m = (ascii (ve_MsgType m) \<and> ascii (ve_Station m) \<and> ascii (ve_Firmware m) \<and>
      ascii (ve_Package m) \<and> ascii (ve_Model m) \<and> int64_ok (ve_Protocol m) \<and>
      ascii (ve_Features m))"

record router_config =
  rc_MsgType :: string
  rc_NetID :: "u32 list"
  rc_JoinEui :: "u64 list list"
  rc_Region :: string
  rc_HwSpec :: string
  rc_FreqRange :: "u32 list"
  rc_DRs :: "int list list"
  rc_Sx1301Conf :: "json list option"
  rc_NoCCA :: bool
  rc_NoDC :: bool
  rc_NoDwell :: bool
  rc_MaxEIRP :: rat

definition router_config_fields :: "router_config \<Rightarrow> (string \<times> bool \<times> json) list" where
  "router_config_fields m =
     [(''msgtype'', False, JStr (rc_MsgType m)), (''NetID'', False, enc_list enc_word (rc_NetID m)),
      (''JoinEui'', False, enc_list (enc_list enc_word) (rc_JoinEui m)),
      (''region'', False, JStr (rc_Region m)), (''hwspec'', False, JStr (rc_HwSpec m)),
      (''freq_range'', False, enc_list enc_word (rc_FreqRange m)),
      (''DRs'', False, enc_list (enc_list (\<lambda>i. enc_int i)) (rc_DRs m)),
      (''sx1301_conf'', False, enc_conf (rc_Sx1301Conf m)), (''nocca'', False, JBool (rc_NoCCA m)),
      (''nodc'', False, JBool (rc_NoDC m)), (''nodwell'', False, JBool (rc_NoDwell m)),
      (''max_eirp'', False, enc_float (rc_MaxEIRP m))]"

definition enc_router_config :: "router_config \<Rightarrow> json" where
  "enc_router_config m = JObj (struct_members (router_config_fields m))"

definition dec_router_config :: "json \<Rightarrow> router_config res" where
  "dec_router_config j =
     bindE (members j) (\<lambda>kvs.
     bindE (get_field ''msgtype'' dec_string kvs []) (\<lambda>v1.
     bindE (get_field ''NetID'' (dec_list dec_word 0) kvs []) (\<lambda>v2.
     bindE (get_field ''JoinEui'' (dec_list (dec_list dec_word 0) []) kvs []) (\<lambda>v3.
     bindE (get_field ''region'' dec_string kvs []) (\<lambda>v4.
     bindE (get_field ''hwspec'' dec_string kvs []) (\<lambda>v5.
     bindE (get_field ''freq_range'' (dec_list dec_word 0) kvs []) (\<lambda>v6.
     bindE (get_field ''DRs'' (dec_list (dec_list dec_int64 0) []) kvs []) (\<lambda>v7.
     bindE (get_field ''sx1301_conf'' dec_conf kvs None) (\<lambda>v8.
     bindE (get_field ''nocca'' dec_bool kvs False) (\<lambda>v9.
     bindE (get_field ''nodc'' dec_bool kvs False) (\<lambda>v10.
     bindE (get_field ''nodwell'' dec_bool kvs False) (\<lambda>v11.
     bindE (get_field ''max_eirp'' dec_float kvs 0) (\<lambda>v12.
     Inr \<lparr>rc_MsgType = v1, rc_NetID = v2, rc_JoinEui = v3, rc_Region = v4, rc_HwSpec = v5,
          rc_FreqRange = v6, rc_DRs = v7, rc_Sx1301Conf = v8, rc_NoCCA = v9, rc_NoDC = v10,
          rc_NoDwell = v11, rc_MaxEIRP = v12\<rparr>)))))))))))))"

definition router_config_ok :: "router_config \<Rightarrow> bool" where
  "router_config_ok m = (ascii (rc_MsgType m) \<and> ascii (rc_Region m) \<and> ascii (rc_HwSpec m) \<and>
      list_all (list_all int64_ok) (rc_DRs m) \<and> conf_ok (rc_Sx1301Conf m) \<and>
      rc_MaxEIRP m \<in> \<int>)"

record jreq =
  jq_MsgType :: string
  jq_MHdr :: u8
  jq_JoinEui :: string
  jq_DevEui :: string
  jq_DevNonce :: u16
  jq_MIC :: int
  jq_DR :: u8
  jq_Freq :: u32
  jq_UpInfo :: up_info

definition jreq_fields :: "jreq \<Rightarrow> (string \<times> bool \<times> json) list" where
  "jreq_fields m =
     [(''msgtype'', False, JStr (jq_MsgType m)), (''MHdr'', False, enc_word (jq_MHdr m)),
      (''JoinEui'', False, JStr (jq_JoinEui m)), (''DevEui'', False, JStr (jq_DevEui m)),
      (''DevNonce'', False, enc_word (jq_DevNonce m)), (''MIC'', False, enc_int (jq_MIC m)),
      (''DR'', False, enc_word (jq_DR m)), (''Freq'', False, enc_word (jq_Freq m)),
      (''upinfo'', False, enc_up_info (jq_UpInfo m))]"

definition enc_jreq :: "jreq \<Rightarrow> json" where
  "enc_jreq m = JObj (struct_members (jreq_fields m))"

definition dec_jreq :: "json \<Rightarrow> jreq res" where
  "dec_jreq j =
     bindE (members j) (\<lambda>kvs.
     bindE (get_field ''msgtype'' dec_string kvs []) (\<lambda>v1.
     bindE (get_field ''MHdr'' dec_word kvs 0) (\<lambda>v2.
     bindE (get_field ''JoinEui'' dec_string kvs []) (\<lambda>v3.
     bindE (get_field ''DevEui'' dec_string kvs []) (\<lambda>v4.
     bindE (get_field ''DevNonce'' dec_word kvs 0) (\<lambda>v5.
     bindE (get_field ''MIC'' dec_int32 kvs 0) (\<lambda>v6.
     bindE (get_field ''DR'' dec_word kvs 0) (\<lambda>v7.
     bindE (get_field ''Freq'' dec_word kvs 0) (\<lambda>v8.
     bindE (get_field ''upinfo'' dec_up_info kvs zero_up_info) (\<lambda>v9.
     Inr \<lparr>jq_MsgType = v1, jq_MHdr = v2, jq_JoinEui = v3, jq_DevEui = v4, jq_DevNonce = v5, jq_MIC = v6,
          jq_DR = v7, jq_Freq = v8, jq_UpInfo = v9\<rparr>))))))))))"

definition jreq_ok :: "jreq \<Rightarrow> bool" where
  "jreq_ok m = (ascii (jq_MsgType m) \<and> ascii (jq_JoinEui m) \<and> ascii (jq_DevEui m) \<and>
      int32_ok (jq_MIC m) \<and> up_info_ok (jq_UpInfo m))"

record updf =
  uf_MsgType :: string
  uf_MHdr :: u8
  uf_DevAddr :: int
  uf_FCtrl :: u8
  uf_FCnt :: u32
  uf_FOpts :: string
  uf_FPort :: int
  uf_FRMPayload :: string
  uf_MIC :: int
  uf_DR :: u8
  uf_Freq :: u32
  uf_UpInfo :: up_info

definition updf_fields :: "updf \<Rightarrow> (string \<times> bool \<times> json) list" where
  "updf_fields m =
     [(''msgtype'', False, JStr (uf_MsgType m)), (''MHdr'', False, enc_word (uf_MHdr m)),
      (''DevAddr'', False, enc_int (uf_DevAddr m)), (''FCtrl'', False, enc_word (uf_FCtrl m)),
      (''FCnt'', False, enc_word (uf_FCnt m)), (''FOpts'', False, JStr (uf_FOpts m)),
      (''FPort'', False, enc_int (uf_FPort m)), (''FRMPayload'', False, JStr (uf_FRMPayload m)),
      (''MIC'', False, enc_int (uf_MIC m)), (''DR'', False, enc_word (uf_DR m)),
      (''Freq'', False, enc_word (uf_Freq m)), (''upinfo'', False, enc_up_info (uf_UpInfo m))]"

definition enc_updf :: "updf \<Rightarrow> json" where
  "enc_updf m = JObj (struct_members (updf_fields m))"

definition dec_updf :: "json \<Rightarrow> updf res" where
  "dec_updf j =
     bindE (members j) (\<lambda>kvs.
     bindE (get_field ''msgtype'' dec_string kvs []) (\<lambda>v1.
     bindE (get_field ''MHdr'' dec_word kvs 0) (\<lambda>v2.
     bindE (get_field ''DevAddr'' dec_int32 kvs 0) (\<lambda>v3.
     bindE (get_field ''FCtrl'' dec_word kvs 0) (\<lambda>v4.
     bindE (get_field ''FCnt'' dec_word kvs 0) (\<lambda>v5.
     bindE (get_field ''FOpts'' dec_string kvs []) (\<lambda>v6.
     bindE (get_field ''FPort'' dec_int64 kvs 0) (\<lambda>v7.
     bindE (get_field ''FRMPayload'' dec_string kvs []) (\<lambda>v8.
     bindE (get_field ''MIC'' dec_int32 kvs 0) (\<lambda>v9.
     bindE (get_field ''DR'' dec_word kvs 0) (\<lambda>v10.
     bindE (get_field ''Freq'' dec_word kvs 0) (\<lambda>v11.
     bindE (get_field ''upinfo'' dec_up_info kvs zero_up_info) (\<lambda>v12.
     Inr \<lparr>uf_MsgType = v1, uf_MHdr = v2, uf_DevAddr = v3, uf_FCtrl = v4, uf_FCnt = v5, uf_FOpts = v6,
          uf_FPort = v7, uf_FRMPayload = v8, uf_MIC = v9, uf_DR = v10, uf_Freq = v11, uf_UpInfo = v12\<rparr>)))))))))))))"

definition updf_ok :: "updf \<Rightarrow> bool" where
  "updf_ok m = (ascii (uf_MsgType m) \<and> int32_ok (uf_DevAddr m) \<and> ascii (uf_FOpts m) \<and>
      int64_ok (uf_FPort m) \<and> ascii (uf_FRMPayload m) \<and> int32_ok (uf_MIC m) \<and>
      up_info_ok (uf_UpInfo m))"

record dnmsg =
  dn_MsgType :: string
  dn_DevEui :: string
  dn_DC :: int
  dn_DIID :: int
  dn_Pdu :: string
  dn_RxDelay :: int
  dn_RX1DR :: u8
  dn_RX1Freq :: u32
  dn_RX2DR :: u8
  dn_RX2Freq :: u32
  dn_Priority :: int
  dn_XTime :: int
  dn_RCtx :: int

definition dnmsg_fields :: "dnmsg \<Rightarrow> (string \<times> bool \<times> json) list" where
  "dnmsg_fields m =
     [(''msgtype'', False, JStr (dn_MsgType m)), (''DevEui'', False, JStr (dn_DevEui m)),
      (''dC'', False, enc_int (dn_DC m)), (''diid'', False, enc_int (dn_DIID m)),
      (''pdu'', False, JStr (dn_Pdu m)), (''RxDelay'', False, enc_int (dn_RxDelay m)),
      (''RX1DR'', False, enc_word (dn_RX1DR m)), (''RX1Freq'', False, enc_word (dn_RX1Freq m)),
      (''RX2DR'', False, enc_word (dn_RX2DR m)), (''RX2Freq'', False, enc_word (dn_RX2Freq m)),
      (''priority'', False, enc_int (dn_Priority m)), (''xtime'', False, enc_int (dn_XTime m)),
      (''rctx'', False, enc_int (dn_RCtx m))]"

definition enc_dnmsg :: "dnmsg \<Rightarrow> json" where
  "enc_dnmsg m = JObj (struct_members (dnmsg_fields m))"

definition dec_dnmsg :: "json \<Rightarrow> dnmsg res" where
  "dec_dnmsg j =
     bindE (members j) (\<lambda>kvs.
     bindE (get_field ''msgtype'' dec_string kvs []) (\<lambda>v1.
     bindE (get_field ''DevEui'' dec_string kvs []) (\<lambda>v2.
     bindE (get_field ''dC'' dec_int64 kvs 0) (\<lambda>v3.
     bindE (get_field ''diid'' dec_int64 kvs 0) (\<lambda>v4.
     bindE (get_field ''pdu'' dec_string kvs []) (\<lambda>v5.
     bindE (get_field ''RxDelay'' dec_int64 kvs 0) (\<lambda>v6.
     bindE (get_field ''RX1DR'' dec_word kvs 0) (\<lambda>v7.
     bindE (get_field ''RX1Freq'' dec_word kvs 0) (\<lambda>v8.
     bindE (get_field ''RX2DR'' dec_word kvs 0) (\<lambda>v9.
     bindE (get_field ''RX2Freq'' dec_word kvs 0) (\<lambda>v10.
     bindE (get_field ''priority'' dec_int64 kvs 0) (\<lambda>v11.
     bindE (get_field ''xtime'' dec_int64 kvs 0) (\<lambda>v12.
     bindE (get_field ''rctx'' dec_int64 kvs 0) (\<lambda>v13.
     Inr \<lparr>dn_MsgType = v1, dn_DevEui = v2, dn_DC = v3, dn_DIID = v4, dn_Pdu = v5, dn_RxDelay = v6,
          dn_RX1DR = v7, dn_RX1Freq = v8, dn_RX2DR = v9, dn_RX2Freq = v10, dn_Priority = v11,
          dn_XTime = v12, dn_RCtx = v13\<rparr>))))))))))))))"

definition dnmsg_ok :: "dnmsg \<Rightarrow> bool" where
  "dnmsg_ok m = (ascii (dn_MsgType m) \<and> ascii (dn_DevEui m) \<and> int64_ok (dn_DC m) \<and>
      int64_ok (dn_DIID m) \<and> ascii (dn_Pdu m) \<and> int64_ok (dn_RxDelay m) \<and>
      int64_ok (dn_Priority m) \<and> int64_ok (dn_XTime m) \<and> int64_ok (dn_RCtx m))"

record dntxed =
  dt_MsgType :: string
  dt_DIID :: int
  dt_DevEui :: string
  dt_RCtx :: int
  dt_XTime :: int
  dt_TxTime :: rat
  dt_GpsTime :: int

definition dntxed_fields :: "dntxed \<Rightarrow> (string \<times> bool \<times> json) list" where
  "dntxed_fields m =
     [(''msgtype'', False, JStr (dt_MsgType m)), (''diid'', False, enc_int (dt_DIID m)),
      (''DevEui'', False, JStr (dt_DevEui m)), (''rctx'', False, enc_int (dt_RCtx m)),
      (''xtime'', False, enc_int (dt_XTime m)), (''txtime'', False, enc_float (dt_TxTime m)),
      (''gpstime'', False, enc_int (dt_GpsTime m))]"

definition enc_dntxed :: "dntxed \<Rightarrow> json" where
  "enc_dntxed m = JObj (struct_members (dntxed_fields m))"

definition dec_dntxed :: "json \<Rightarrow> dntxed res" where
  "dec_dntxed j =
     bindE (members j) (\<lambda>kvs.
     bindE (get_field ''msgtype'' dec_string kvs []) (\<lambda>v1.
     bindE (get_field ''diid'' dec_int64 kvs 0) (\<lambda>v2.
     bindE (get_field ''DevEui'' dec_string kvs []) (\<lambda>v3.
     bindE (get_field ''rctx'' dec_int64 kvs 0) (\<lambda>v4.
     bindE (get_field ''xtime'' dec_int64 kvs 0) (\<lambda>v5.
     bindE (get_field ''txtime'' dec_float kvs 0) (\<lambda>v6.
     bindE (get_field ''gpstime'' dec_int64 kvs 0) (\<lambda>v7.
     Inr \<lparr>dt_MsgType = v1, dt_DIID = v2, dt_DevEui = v3, dt_RCtx = v4, dt_XTime = v5, dt_TxTime = v6,
          dt_GpsTime = v7\<rparr>))))))))"

definition dntxed_ok :: "dntxed \<Rightarrow> bool" where
  "dntxed_ok m = (ascii (dt_MsgType m) \<and> int64_ok (dt_DIID m) \<and> ascii (dt_DevEui m) \<and>
      int64_ok (dt_RCtx m) \<and> int64_ok (dt_XTime m) \<and> dt_TxTime m \<in> \<int> \<and>
      int64_ok (dt_GpsTime m))"


datatype message =
    MVersion version
  | MRouterConfig router_config
  | MJreq jreq
  | MUpdf updf
  | MDnmsg dnmsg
  | MDntxed dntxed

definition enc_message :: "message \<Rightarrow> json" where
  "enc_message msg =
     (case msg of
        MVersion m \<Rightarrow> enc_version m
      | MRouterConfig m \<Rightarrow> enc_router_config m
      | MJreq m \<Rightarrow> enc_jreq m
      | MUpdf m \<Rightarrow> enc_updf m
      | MDnmsg m \<Rightarrow> enc_dnmsg m
      | MDntxed m \<Rightarrow> enc_dntxed m)"

definition Encode :: "message \<Rightarrow> string res" where
  "Encode msg = Inr (json_print (enc_message msg))"

definition ErrUnknownType :: err where
  "ErrUnknownType = Err ''unknown msgtype''"

definition dec_msgtype :: "json \<Rightarrow> string res" where
  "dec_msgtype j = bindE (members j) (\<lambda>kvs. get_field ''msgtype'' dec_string kvs [])"

text \<open>
  \<open>Decode\<close> reads the type first and then the whole message. For an unknown type it returns the
  envelope beside the error; the callers look at the error only.
\<close>

definition Decode :: "string \<Rightarrow> message res" where
  "Decode data =
     bindE (wrapE ''peeking msgtype'' (bindE (json_parse data) dec_msgtype)) (\<lambda>typ.
     if typ \<in> {TypeVersion, TypeRouterConfig, TypeJreq, TypeUpdf, TypeDnmsg, TypeDntxed} then
       wrapE (''decoding '' @ typ) (bindE (json_parse data) (\<lambda>j.
         if typ = TypeVersion then mapE MVersion (dec_version j)
         else if typ = TypeRouterConfig then mapE MRouterConfig (dec_router_config j)
         else if typ = TypeJreq then mapE MJreq (dec_jreq j)
         else if typ = TypeUpdf then mapE MUpdf (dec_updf j)
         else if typ = TypeDnmsg then mapE MDnmsg (dec_dnmsg j)
         else mapE MDntxed (dec_dntxed j)))
     else Inl (Wrap [] ErrUnknownType))"

section \<open>Encoding and decoding\<close>

lemma dec_float_Ints: "r \<in> \<int> \<Longrightarrow> dec_float (enc_float r) cur = Inr r"
  by (elim Ints_cases) simp

lemma wf_float_Ints: "r \<in> \<int> \<Longrightarrow> wf_json (enc_float r)"
  by (elim Ints_cases) (simp only: wf_nums)

lemma enc_dec_list:
  "(\<And>x. x \<in> set xs \<Longrightarrow> d (e x) zero = Inr x) \<Longrightarrow> dec_list d zero (enc_list e xs) cur = Inr xs"
  unfolding enc_list_def by (rule dec_list_enc)

lemma wf_enc_list: "(\<And>x. x \<in> set xs \<Longrightarrow> wf_json (e x)) \<Longrightarrow> wf_json (enc_list e xs)"
  by (simp add: enc_list_def list_all_iff)

lemma dec_int_lists:
  assumes "list_all (list_all int64_ok) xss"
  shows "dec_list (dec_list dec_int64 0) [] (enc_list (enc_list (\<lambda>i. enc_int i)) xss) cur = Inr xss"
  using assms by (intro enc_dec_list dec_enc(4)) (fastforce simp: list_all_iff int64_ok_def)+

lemma dec_conf_enc: "conf_ok c \<Longrightarrow> dec_conf (enc_conf c) cur = Inr c"
  by (auto simp: conf_ok_def dec_conf_def enc_conf_def split: option.splits)

lemma wf_enc_conf: "conf_ok c \<Longrightarrow> wf_json (enc_conf c)"
  by (auto simp: conf_ok_def enc_conf_def split: option.splits)

lemma up_info_names: "distinct_names (up_info_fields m)"
  by (simp add: distinct_names_def up_info_fields_def strings_ToLower_def lower_char_def)

lemma up_info_keys:
  "fst ` set (up_info_fields m) = set [''rctx'', ''xtime'', ''gpstime'', ''rssi'', ''snr'']"
  by (simp add: up_info_fields_def)

lemmas up_info_get = get_struct_field [OF up_info_names, unfolded up_info_keys]

lemma dec_enc_up_info: "up_info_ok m \<Longrightarrow> dec_up_info (enc_up_info m) cur = Inr m"
  by (simp add: dec_up_info_def enc_up_info_def up_info_get)
    (simp add: up_info_fields_def up_info_ok_def int64_ok_def int32_ok_def dec_float_Ints)

lemma version_names: "distinct_names (version_fields m)"
  by (simp add: distinct_names_def version_fields_def strings_ToLower_def lower_char_def)

lemma version_keys:
  "fst ` set (version_fields m) = set [''msgtype'', ''station'', ''firmware'', ''package'', ''model'', ''protocol'', ''features'']"
  by (simp add: version_fields_def)

lemmas version_get = get_struct_field [OF version_names, unfolded version_keys]

lemma dec_enc_version: "version_ok m \<Longrightarrow> dec_version (enc_version m) = Inr m"
  by (simp add: dec_version_def enc_version_def version_get)
    (simp add: version_fields_def version_ok_def int64_ok_def int32_ok_def dec_float_Ints)

lemma router_config_names: "distinct_names (router_config_fields m)"
  by (simp add: distinct_names_def router_config_fields_def strings_ToLower_def lower_char_def)

lemma router_config_keys:
  "fst ` set (router_config_fields m) = set [''msgtype'', ''NetID'', ''JoinEui'', ''region'', ''hwspec'', ''freq_range'', ''DRs'', ''sx1301_conf'',
      ''nocca'', ''nodc'', ''nodwell'', ''max_eirp'']"
  by (simp add: router_config_fields_def)

lemmas router_config_get = get_struct_field [OF router_config_names, unfolded router_config_keys]

lemma dec_enc_router_config: "router_config_ok m \<Longrightarrow> dec_router_config (enc_router_config m) = Inr m"
  by (simp add: dec_router_config_def enc_router_config_def router_config_get)
    (simp add: router_config_fields_def router_config_ok_def int64_ok_def int32_ok_def enc_dec_list dec_int_lists [simplified] dec_float_Ints dec_conf_enc)

lemma jreq_names: "distinct_names (jreq_fields m)"
  by (simp add: distinct_names_def jreq_fields_def strings_ToLower_def lower_char_def)

lemma jreq_keys:
  "fst ` set (jreq_fields m) = set [''msgtype'', ''MHdr'', ''JoinEui'', ''DevEui'', ''DevNonce'', ''MIC'', ''DR'', ''Freq'', ''upinfo'']"
  by (simp add: jreq_fields_def)

lemmas jreq_get = get_struct_field [OF jreq_names, unfolded jreq_keys]

lemma dec_enc_jreq: "jreq_ok m \<Longrightarrow> dec_jreq (enc_jreq m) = Inr m"
  by (simp add: dec_jreq_def enc_jreq_def jreq_get)
    (simp add: jreq_fields_def jreq_ok_def int64_ok_def int32_ok_def dec_float_Ints dec_enc_up_info)

lemma updf_names: "distinct_names (updf_fields m)"
  by (simp add: distinct_names_def updf_fields_def strings_ToLower_def lower_char_def)

lemma updf_keys:
  "fst ` set (updf_fields m) = set [''msgtype'', ''MHdr'', ''DevAddr'', ''FCtrl'', ''FCnt'', ''FOpts'', ''FPort'', ''FRMPayload'',
      ''MIC'', ''DR'', ''Freq'', ''upinfo'']"
  by (simp add: updf_fields_def)

lemmas updf_get = get_struct_field [OF updf_names, unfolded updf_keys]

lemma dec_enc_updf: "updf_ok m \<Longrightarrow> dec_updf (enc_updf m) = Inr m"
  by (simp add: dec_updf_def enc_updf_def updf_get)
    (simp add: updf_fields_def updf_ok_def int64_ok_def int32_ok_def dec_float_Ints dec_enc_up_info)

lemma dnmsg_names: "distinct_names (dnmsg_fields m)"
  by (simp add: distinct_names_def dnmsg_fields_def strings_ToLower_def lower_char_def)

lemma dnmsg_keys:
  "fst ` set (dnmsg_fields m) = set [''msgtype'', ''DevEui'', ''dC'', ''diid'', ''pdu'', ''RxDelay'', ''RX1DR'', ''RX1Freq'', ''RX2DR'',
      ''RX2Freq'', ''priority'', ''xtime'', ''rctx'']"
  by (simp add: dnmsg_fields_def)

lemmas dnmsg_get = get_struct_field [OF dnmsg_names, unfolded dnmsg_keys]

lemma dec_enc_dnmsg: "dnmsg_ok m \<Longrightarrow> dec_dnmsg (enc_dnmsg m) = Inr m"
  by (simp add: dec_dnmsg_def enc_dnmsg_def dnmsg_get)
    (simp add: dnmsg_fields_def dnmsg_ok_def int64_ok_def int32_ok_def dec_float_Ints)

lemma dntxed_names: "distinct_names (dntxed_fields m)"
  by (simp add: distinct_names_def dntxed_fields_def strings_ToLower_def lower_char_def)

lemma dntxed_keys:
  "fst ` set (dntxed_fields m) = set [''msgtype'', ''diid'', ''DevEui'', ''rctx'', ''xtime'', ''txtime'', ''gpstime'']"
  by (simp add: dntxed_fields_def)

lemmas dntxed_get = get_struct_field [OF dntxed_names, unfolded dntxed_keys]

lemma dec_enc_dntxed: "dntxed_ok m \<Longrightarrow> dec_dntxed (enc_dntxed m) = Inr m"
  by (simp add: dec_dntxed_def enc_dntxed_def dntxed_get)
    (simp add: dntxed_fields_def dntxed_ok_def int64_ok_def int32_ok_def dec_float_Ints)

lemma wf_up_info: "up_info_ok m \<Longrightarrow> wf_json (enc_up_info m)"
  by (simp add: enc_up_info_def wf_struct up_info_fields_def up_info_ok_def wf_float_Ints del: wf_json.simps(1))

lemma wf_version: "version_ok m \<Longrightarrow> wf_json (enc_version m)"
  by (simp add: enc_version_def wf_struct version_fields_def version_ok_def del: wf_json.simps(1))

lemma wf_router_config: "router_config_ok m \<Longrightarrow> wf_json (enc_router_config m)"
  by (simp add: enc_router_config_def wf_struct router_config_fields_def router_config_ok_def wf_float_Ints wf_enc_list wf_enc_conf del: wf_json.simps(1))

lemma wf_jreq: "jreq_ok m \<Longrightarrow> wf_json (enc_jreq m)"
  by (simp add: enc_jreq_def wf_struct jreq_fields_def jreq_ok_def wf_up_info del: wf_json.simps(1))

lemma wf_updf: "updf_ok m \<Longrightarrow> wf_json (enc_updf m)"
  by (simp add: enc_updf_def wf_struct updf_fields_def updf_ok_def wf_up_info del: wf_json.simps(1))

lemma wf_dnmsg: "dnmsg_ok m \<Longrightarrow> wf_json (enc_dnmsg m)"
  by (simp add: enc_dnmsg_def wf_struct dnmsg_fields_def dnmsg_ok_def del: wf_json.simps(1))

lemma wf_dntxed: "dntxed_ok m \<Longrightarrow> wf_json (enc_dntxed m)"
  by (simp add: enc_dntxed_def wf_struct dntxed_fields_def dntxed_ok_def wf_float_Ints del: wf_json.simps(1))

lemma msgtype_enc:
  "dec_msgtype (enc_version ve) = Inr (ve_MsgType ve)"
  "dec_msgtype (enc_router_config rc) = Inr (rc_MsgType rc)"
  "dec_msgtype (enc_jreq jq) = Inr (jq_MsgType jq)"
  "dec_msgtype (enc_updf uf) = Inr (uf_MsgType uf)"
  "dec_msgtype (enc_dnmsg dn) = Inr (dn_MsgType dn)"
  "dec_msgtype (enc_dntxed dt) = Inr (dt_MsgType dt)"
  by (simp_all add: dec_msgtype_def enc_version_def version_get enc_router_config_def router_config_get enc_jreq_def jreq_get enc_updf_def updf_get enc_dnmsg_def dnmsg_get enc_dntxed_def dntxed_get,
      simp_all add: version_fields_def router_config_fields_def jreq_fields_def updf_fields_def dnmsg_fields_def dntxed_fields_def)

definition message_ok :: "message \<Rightarrow> bool" where
  "message_ok msg =
     (case msg of
        MVersion m \<Rightarrow> ve_MsgType m = TypeVersion \<and> version_ok m
      | MRouterConfig m \<Rightarrow> rc_MsgType m = TypeRouterConfig \<and> router_config_ok m
      | MJreq m \<Rightarrow> jq_MsgType m = TypeJreq \<and> jreq_ok m
      | MUpdf m \<Rightarrow> uf_MsgType m = TypeUpdf \<and> updf_ok m
      | MDnmsg m \<Rightarrow> dn_MsgType m = TypeDnmsg \<and> dnmsg_ok m
      | MDntxed m \<Rightarrow> dt_MsgType m = TypeDntxed \<and> dntxed_ok m)"

lemmas message_type_defs = TypeVersion_def TypeRouterConfig_def TypeJreq_def TypeUpdf_def TypeDnmsg_def TypeDntxed_def

lemmas dec_enc_messages = dec_enc_version dec_enc_router_config dec_enc_jreq dec_enc_updf dec_enc_dnmsg dec_enc_dntxed

lemmas wf_messages = wf_version wf_router_config wf_jreq wf_updf wf_dnmsg wf_dntxed

lemma Decode_Encode:
  assumes "message_ok msg" and "Encode msg = Inr b"
  shows "Decode b = Inr msg"
proof -
  have "wf_json (enc_message msg)"
    using assms(1) by (cases msg) (simp_all add: message_ok_def enc_message_def wf_messages)
  from json_parse_print [OF this, of "[]"] have p: "json_parse b = Inr (enc_message msg)"
    using assms(2) by (simp add: Encode_def)
  show ?thesis
    using assms(1) by (cases msg)
      (simp_all add: Decode_def p enc_message_def msgtype_enc message_ok_def dec_enc_messages message_type_defs)
qed

text \<open>The \<open>MsgType\<close> a message carries, and the one its struct stands for.\<close>

definition msg_type :: "message \<Rightarrow> string" where
  "msg_type msg =
     (case msg of
        MVersion m \<Rightarrow> ve_MsgType m | MRouterConfig m \<Rightarrow> rc_MsgType m | MJreq m \<Rightarrow> jq_MsgType m
      | MUpdf m \<Rightarrow> uf_MsgType m | MDnmsg m \<Rightarrow> dn_MsgType m | MDntxed m \<Rightarrow> dt_MsgType m)"

definition msg_kind :: "message \<Rightarrow> string" where
  "msg_kind msg =
     (case msg of
        MVersion m \<Rightarrow> TypeVersion | MRouterConfig m \<Rightarrow> TypeRouterConfig | MJreq m \<Rightarrow> TypeJreq
      | MUpdf m \<Rightarrow> TypeUpdf | MDnmsg m \<Rightarrow> TypeDnmsg | MDntxed m \<Rightarrow> TypeDntxed)"

lemma dec_message_type:
  assumes "dec_msgtype j = Inr typ"
  shows "dec_version j = Inr ve \<Longrightarrow> ve_MsgType ve = typ" "dec_router_config j = Inr rc \<Longrightarrow> rc_MsgType rc = typ"
    "dec_jreq j = Inr jq \<Longrightarrow> jq_MsgType jq = typ" "dec_updf j = Inr uf \<Longrightarrow> uf_MsgType uf = typ"
    "dec_dnmsg j = Inr dn \<Longrightarrow> dn_MsgType dn = typ" "dec_dntxed j = Inr dt \<Longrightarrow> dt_MsgType dt = typ"
  using assms
  by (auto simp: dec_msgtype_def dec_version_def dec_router_config_def dec_jreq_def dec_updf_def dec_dnmsg_def
      dec_dntxed_def res_simps)

lemma mapE_Inr_iff: "mapE f r = Inr y \<longleftrightarrow> (\<exists>x. r = Inr x \<and> y = f x)"
  by (cases r) auto

lemma Decode_Inr:
  assumes "Decode b = Inr msg"
  obtains j where "json_parse b = Inr j" "dec_msgtype j = Inr (msg_kind msg)" "msg_type msg = msg_kind msg"
proof -
  from assms obtain j t where j: "json_parse b = Inr j" "dec_msgtype j = Inr t"
    by (auto simp: Decode_def res_simps)
  from assms j have "t = msg_kind msg \<and> msg_type msg = t"
    by (auto simp: Decode_def res_simps mapE_Inr_iff msg_kind_def msg_type_def dec_message_type split: if_splits)
  with j that show thesis by simp
qed

section \<open>Properties\<close>


definition example_jreq :: jreq where
  "example_jreq = \<lparr>jq_MsgType = TypeJreq, jq_MHdr = 0, jq_JoinEui = ''0202020202020202'', jq_DevEui = ''0101010101010101'',
     jq_DevNonce = 7, jq_MIC = - 123456, jq_DR = 5, jq_Freq = 868100000,
     jq_UpInfo = \<lparr>ui_RCtx = 1, ui_XTime = 999, ui_GpsTime = 0, ui_RSSI = - 42, ui_SNR = 9\<rparr>\<rparr>"

lemma example_jreq_ok: "jreq_ok example_jreq"
  by (simp add: jreq_ok_def example_jreq_def up_info_ok_def int64_ok_def int32_ok_def ascii_def TypeJreq_def)


text \<open>C32: \<open>Decode\<close> never confuses message types. Whatever bytes arrive, a decoded message is in the struct
  that its own \<open>msgtype\<close> field names, and a type the program does not know is an error that
  wraps \<open>ErrUnknownType\<close>.\<close>

theorem decode_dispatch:
  "(\<forall>msg. Decode b = Inr msg \<longrightarrow> msg_type msg = msg_kind msg) \<and>
   (\<forall>j typ. json_parse b = Inr j \<longrightarrow> dec_msgtype j = Inr typ \<longrightarrow>
      typ \<notin> {TypeVersion, TypeRouterConfig, TypeJreq, TypeUpdf, TypeDnmsg, TypeDntxed} \<longrightarrow>
      (\<exists>e. Decode b = Inl e \<and> errors_Is e ErrUnknownType))"
proof -
  have "msg_type msg = msg_kind msg" if "Decode b = Inr msg" for msg
    by (rule Decode_Inr [OF that])
  moreover have "errors_Is (Wrap [] ErrUnknownType) ErrUnknownType" by (simp add: ErrUnknownType_def)
  ultimately show ?thesis by (auto simp: Decode_def)
qed

theorem decode_dispatch_witness:
  "\<exists>e. Decode (json_print (JObj [(''msgtype'', JStr ''runcmd'')])) = Inl e \<and> errors_Is e ErrUnknownType"
proof -
  let ?j = "JObj [(''msgtype'', JStr ''runcmd'')]"
  have p: "json_parse (json_print ?j) = Inr ?j"
    using json_parse_print [of ?j "[]"] by simp
  have t: "dec_msgtype ?j = Inr ''runcmd''"
    by (simp add: dec_msgtype_def key_matches_def)
  show ?thesis
    using decode_dispatch [of "json_print ?j"] p t by (simp add: message_type_defs)
qed

end
