(* ===== verification/Lns.thy ===== *)
theory Lns
  imports Protocol
begin

text \<open>
  The gateway's connection to the network server (\<open>internal/gateway/lns.go\<close>). The WebSocket is what
  the client wrote to it (\<open>ln_out\<close>), the outcomes of the writes to come (\<open>ln_faults\<close>, every further
  write succeeds), and the results of its reads, which are an argument: running out of them means
  that the read blocks.
\<close>

record lns =
  ln_out :: "string list"
  ln_faults :: "err option list"
  ln_config :: "router_config option"
  ln_closed :: bool

text \<open>A write on the WebSocket, as both sides do it.\<close>

fun ws_write :: "err option list \<Rightarrow> string \<Rightarrow> string list \<Rightarrow> unit res \<times> string list \<times> err option list" where
  "ws_write [] b out = (Inr (), out @ [b], [])"
| "ws_write (None # fs) b out = (Inr (), out @ [b], fs)"
| "ws_write (Some e # fs) b out = (Inl e, out, fs)"

definition lns_send :: "message \<Rightarrow> lns \<Rightarrow> (unit, lns) run" where
  "lns_send msg l =
     seqE (Encode msg, l) (\<lambda>b l.
     case ws_write (ln_faults l) b (ln_out l) of (r, out, fs) \<Rightarrow> (r, l\<lparr>ln_out := out, ln_faults := fs\<rparr>))"

definition SendJreq :: "jreq \<Rightarrow> lns \<Rightarrow> (unit, lns) run" where
  "SendJreq j l = lns_send (MJreq (j\<lparr>jq_MsgType := TypeJreq\<rparr>)) l"

definition SendUpdf :: "updf \<Rightarrow> lns \<Rightarrow> (unit, lns) run" where
  "SendUpdf u l = lns_send (MUpdf (u\<lparr>uf_MsgType := TypeUpdf\<rparr>)) l"

definition SendDntxed :: "dntxed \<Rightarrow> lns \<Rightarrow> (unit, lns) run" where
  "SendDntxed d l = lns_send (MDntxed (d\<lparr>dt_MsgType := TypeDntxed\<rparr>)) l"

definition setConfig :: "router_config \<Rightarrow> lns \<Rightarrow> lns" where
  "setConfig rc l = l\<lparr>ln_config := Some rc\<rparr>"

definition lns_Close :: "lns \<Rightarrow> lns" where
  "lns_Close l = l\<lparr>ln_closed := True\<rparr>"

text \<open>The handshake reads until a router_config comes, and passes over everything it cannot decode.\<close>

fun awaitRouterConfig :: "string res list \<Rightarrow> (router_config res \<times> string res list) option" where
  "awaitRouterConfig [] = None"
| "awaitRouterConfig (Inl e # rs) = Some (Inl (Wrap ''reading router_config'' e), rs)"
| "awaitRouterConfig (Inr data # rs) =
     (case Decode data of
        Inr (MRouterConfig rc) \<Rightarrow> Some (Inr rc, rs)
      | _ \<Rightarrow> awaitRouterConfig rs)"

text \<open>
  \<open>ConnectLNS\<close> after the dial, whose failure is an argument. The result is the client, if any, with
  the reads that are left; the connection itself is returned too, closed when the handshake failed.
\<close>

definition ConnectLNS :: "err option \<Rightarrow> err option list \<Rightarrow> version \<Rightarrow> string res list \<Rightarrow> (unit res \<times> lns \<times> string res list) option" where
  "ConnectLNS dial faults v reads =
     (let l = \<lparr>ln_out = [], ln_faults = faults, ln_config = None, ln_closed = False\<rparr> in
      case dial of
        Some e \<Rightarrow> Some (Inl (Wrap ''dialing LNS'' e), lns_Close l, reads)
      | None \<Rightarrow>
          (case lns_send (MVersion (v\<lparr>ve_MsgType := TypeVersion\<rparr>)) l of
             (Inl e, l) \<Rightarrow> Some (Inl (Wrap ''sending version'' e), lns_Close l, reads)
           | (Inr _, l) \<Rightarrow>
               (case awaitRouterConfig reads of
                  None \<Rightarrow> None
                | Some (Inl e, rs) \<Rightarrow> Some (Inl e, lns_Close l, rs)
                | Some (Inr rc, rs) \<Rightarrow> Some (Inr (), setConfig rc l, rs))))"

text \<open>
  \<open>Run\<close> over the reads: \<open>None\<close> while the next read blocks. The callback changes the rest of the
  program's state and may use this client to send.
\<close>

fun lns_Run :: "(dnmsg \<Rightarrow> lns \<times> 's \<Rightarrow> lns \<times> 's) option \<Rightarrow> string res list \<Rightarrow> lns \<times> 's \<Rightarrow> unit res option \<times> lns \<times> 's" where
  "lns_Run onDnmsg [] s = (None, s)"
| "lns_Run onDnmsg (Inl e # rs) s =
     (Some (if errors_Is e Canceled then Inr () else Inl (Wrap ''reading from LNS'' e)), s)"
| "lns_Run onDnmsg (Inr data # rs) s =
     (case Decode data of
        Inr (MDnmsg dn) \<Rightarrow> lns_Run onDnmsg rs (case onDnmsg of None \<Rightarrow> s | Some f \<Rightarrow> f dn s)
      | Inr (MRouterConfig rc) \<Rightarrow> lns_Run onDnmsg rs (setConfig rc (fst s), snd s)
      | _ \<Rightarrow> lns_Run onDnmsg rs s)"

section \<open>What is on the wire\<close>

text \<open>The messages that the other side decodes from what was written.\<close>

definition decoded :: "string list \<Rightarrow> message list" where
  "decoded bs = concat (map (\<lambda>b. case Decode b of Inr msg \<Rightarrow> [msg] | Inl e \<Rightarrow> []) bs)"

lemma decoded_simps [simp]: "decoded [] = []" "decoded (xs @ ys) = decoded xs @ decoded ys"
  by (simp_all add: decoded_def)

lemma decoded_encoded: "message_ok msg \<Longrightarrow> decoded [json_print (enc_message msg)] = [msg]"
  using Decode_Encode [of msg] by (simp add: decoded_def Encode_def)

lemma ws_write_cases:
  obtains (sent) fs' where "ws_write fs b out = (Inr (), out @ [b], fs')"
    | (failed) e fs' where "ws_write fs b out = (Inl e, out, fs')"
  by (cases "(fs, b, out)" rule: ws_write.cases) auto

lemma lns_send_cases:
  obtains (sent) l' where "lns_send msg l = (Inr (), l')" "ln_out l' = ln_out l @ [json_print (enc_message msg)]"
      "ln_config l' = ln_config l" "ln_closed l' = ln_closed l"
    | (failed) e l' where "lns_send msg l = (Inl e, l')" "ln_out l' = ln_out l"
      "ln_config l' = ln_config l" "ln_closed l' = ln_closed l"
proof -
  let ?b = "json_print (enc_message msg)"
  consider fs' where "ws_write (ln_faults l) ?b (ln_out l) = (Inr (), ln_out l @ [?b], fs')"
    | e fs' where "ws_write (ln_faults l) ?b (ln_out l) = (Inl e, ln_out l, fs')"
    by (rule ws_write_cases)
  then show thesis
  proof cases
    case (1 fs')
    then show ?thesis by (intro sent [of "l\<lparr>ln_out := ln_out l @ [?b], ln_faults := fs'\<rparr>"]) (simp_all add: lns_send_def Encode_def)
  next
    case (2 e fs')
    then show ?thesis by (intro failed [of e "l\<lparr>ln_faults := fs'\<rparr>"]) (simp_all add: lns_send_def Encode_def)
  qed
qed

lemma lns_send_ok: "ln_faults l = [] \<Longrightarrow> lns_send msg l = (Inr (), l\<lparr>ln_out := ln_out l @ [json_print (enc_message msg)]\<rparr>)"
  by (simp add: lns_send_def Encode_def)

lemma awaitRouterConfig_skips:
  assumes "\<And>b rc. Inr b \<in> set pre \<Longrightarrow> Decode b \<noteq> Inr (MRouterConfig rc)" and "\<And>e. Inl e \<notin> set pre"
  shows "awaitRouterConfig (pre @ rs) = awaitRouterConfig rs"
  using assms
proof (induction pre)
  case (Cons r pre)
  obtain b where "r = Inr b" using Cons.prems(2) by (cases r) auto
  with Cons show ?case by (auto split: sum.splits message.splits)
qed simp

text \<open>A handshake that succeeds has read a router_config, and the version is all it wrote.\<close>

lemma ConnectLNS_Inr:
  assumes "ConnectLNS dial faults v reads = Some (Inr u, l, rs)"
  shows "dial = None \<and> ln_out l = [json_print (enc_message (MVersion (v\<lparr>ve_MsgType := TypeVersion\<rparr>)))] \<and>
    (\<exists>rc. ln_config l = Some rc \<and> awaitRouterConfig reads = Some (Inr rc, rs)) \<and> \<not> ln_closed l"
proof -
  let ?l = "\<lparr>ln_out = [], ln_faults = faults, ln_config = None, ln_closed = False\<rparr>"
    and ?m = "MVersion (v\<lparr>ve_MsgType := TypeVersion\<rparr>)"
  show ?thesis
  proof (rule lns_send_cases [of ?m ?l], goal_cases)
    case (1 l')
    with assms show ?case
      by (auto simp: ConnectLNS_def Let_def setConfig_def split: option.splits sum.splits)
  next
    case (2 e l')
    with assms show ?case by (auto simp: ConnectLNS_def Let_def split: option.splits)
  qed
qed

text \<open>Whatever the handshake does, a failure leaves no connection open.\<close>

lemma ConnectLNS_Inl: "ConnectLNS dial faults v reads = Some (Inl e, l, rs) \<Longrightarrow> ln_closed l"
  by (auto simp: ConnectLNS_def Let_def lns_Close_def split: option.splits sum.splits prod.splits)

end
