(* ===== verification/Phy.thy ===== *)
theory Phy
  imports Secret
begin

text \<open>
  LoRaWAN frames as the program handles them. The PHY library (\<open>brocaar/lorawan\<close>) is not part of
  the repository: its values are records with the fields the program reads and writes, and its
  operations are the fields of a record \<open>lorawan\<close> that the definitions take as an argument. The
  same holds for AES (\<open>aes_lib\<close>). Modelled from the source are the text codecs
  (\<open>internal/tag/codec.go\<close>) and the session-key derivation (\<open>internal/tag/keys.go\<close>).
\<close>

type_synonym eui64 = bytes
type_synonym aes128_key = bytes
type_synonym dev_addr = bytes
type_synonym net_id = bytes

datatype m_type =
    JoinRequest | JoinAccept | UnconfirmedDataUp | UnconfirmedDataDown
  | ConfirmedDataUp | ConfirmedDataDown | RejoinRequest | Proprietary

text \<open>A MAC command of the library is only passed on and marshalled: it is known by a handle.\<close>

type_synonym mac_command = nat

datatype payload =
    DataPayload bytes
  | MACCommand mac_command

record fctrl =
  fc_ADR :: bool
  fc_ADRACKReq :: bool
  fc_ACK :: bool
  fc_FPending :: bool
  fc_ClassB :: bool

record fhdr =
  fh_DevAddr :: dev_addr
  fh_FCtrl :: fctrl
  fh_FCnt :: u32
  fh_FOpts :: "payload list"

record mac_payload =
  mp_FHDR :: fhdr
  mp_FPort :: "u8 option"
  mp_FRMPayload :: "payload list"

record join_request_payload =
  jr_JoinEUI :: eui64
  jr_DevEUI :: eui64
  jr_DevNonce :: u16

record join_accept_payload =
  ja_JoinNonce :: u32
  ja_HomeNetID :: net_id
  ja_DevAddr :: dev_addr
  ja_RX1DROffset :: u8
  ja_RX2DataRate :: u8
  ja_RXDelay :: u8
  ja_CFList :: "bytes option"

datatype mac_pl =
    JoinRequestPayload join_request_payload
  | JoinAcceptPayload join_accept_payload
  | MACPayload mac_payload
  | RawPayload bytes

record phy =
  phy_MType :: m_type
  phy_MAC :: mac_pl
  phy_MIC :: bytes

text \<open>The methods of the PHY library that the program calls.\<close>

record lorawan =
  SetUplinkJoinMIC :: "aes128_key \<Rightarrow> phy \<Rightarrow> phy res"
  SetDownlinkJoinMIC :: "eui64 \<Rightarrow> u16 \<Rightarrow> aes128_key \<Rightarrow> phy \<Rightarrow> phy res"
  ValidateDownlinkJoinMIC :: "eui64 \<Rightarrow> u16 \<Rightarrow> aes128_key \<Rightarrow> phy \<Rightarrow> bool res"
  EncryptJoinAcceptPayload :: "aes128_key \<Rightarrow> phy \<Rightarrow> phy res"
  DecryptJoinAcceptPayload :: "aes128_key \<Rightarrow> phy \<Rightarrow> phy res"
  EncryptFRMPayload :: "aes128_key \<Rightarrow> phy \<Rightarrow> phy res"
  DecryptFRMPayload :: "aes128_key \<Rightarrow> phy \<Rightarrow> phy res"
  SetUplinkDataMIC :: "u32 \<Rightarrow> u8 \<Rightarrow> u8 \<Rightarrow> aes128_key \<Rightarrow> aes128_key \<Rightarrow> phy \<Rightarrow> phy res"
  SetDownlinkDataMIC :: "u32 \<Rightarrow> aes128_key \<Rightarrow> phy \<Rightarrow> phy res"
  ValidateDownlinkDataMIC :: "u32 \<Rightarrow> aes128_key \<Rightarrow> phy \<Rightarrow> bool res"
  DecodeFOptsToMACCommands :: "phy \<Rightarrow> phy res"
  DecodeFRMPayloadToMACCommands :: "phy \<Rightarrow> phy res"
  phy_MarshalBinary :: "phy \<Rightarrow> bytes res"
  phy_UnmarshalBinary :: "bytes \<Rightarrow> phy res"
  NetID_MarshalBinary :: "net_id \<Rightarrow> bytes res"
  JoinNonce_MarshalBinary :: "u32 \<Rightarrow> bytes res"
  DevNonce_MarshalBinary :: "u16 \<Rightarrow> bytes res"
  Payload_MarshalBinary :: "payload \<Rightarrow> bytes res"
  MHDR_MarshalBinary :: "phy \<Rightarrow> bytes res"
  EUI64_String :: "eui64 \<Rightarrow> string"
  DevAddr_String :: "dev_addr \<Rightarrow> string"

section \<open>Text codecs\<close>

definition parse_fixed :: "string \<Rightarrow> nat \<Rightarrow> string \<Rightarrow> bytes res" where
  "parse_fixed what n s =
     bindE (wrapE (''parse '' @ what) (hex_DecodeString s)) (\<lambda>b.
     if length b \<noteq> n then Inl (Err (what @ '' length'')) else Inr b)"

definition parseEUI64 :: "string \<Rightarrow> eui64 res" where
  "parseEUI64 s = parse_fixed ''EUI64'' 8 s"

definition parseAES128 :: "string \<Rightarrow> aes128_key res" where
  "parseAES128 s = parse_fixed ''AES128 key'' 16 s"

definition parseDevAddr :: "string \<Rightarrow> dev_addr res" where
  "parseDevAddr s = parse_fixed ''DevAddr'' 4 s"

definition hexBytes :: "bytes \<Rightarrow> string" where
  "hexBytes b = hex_EncodeToString b"

lemma parse_fixed_hex [simp]: "length b = n \<Longrightarrow> parse_fixed w n (hex_EncodeToString b) = Inr b"
  by (simp add: parse_fixed_def)

lemma parse_fixed_length: "parse_fixed w n s = Inr b \<Longrightarrow> length b = n"
  by (auto simp: parse_fixed_def res_simps split: if_splits)

lemma parse_hexBytes [simp]:
  "length b = 8 \<Longrightarrow> parseEUI64 (hexBytes b) = Inr b"
  "length b = 16 \<Longrightarrow> parseAES128 (hexBytes b) = Inr b"
  "length b = 4 \<Longrightarrow> parseDevAddr (hexBytes b) = Inr b"
  by (simp_all add: parseEUI64_def parseAES128_def parseDevAddr_def hexBytes_def)

lemma parse_lengths:
  "parseEUI64 s = Inr b \<Longrightarrow> length b = 8" "parseAES128 s = Inr b \<Longrightarrow> length b = 16"
  "parseDevAddr s = Inr b \<Longrightarrow> length b = 4"
  by (simp_all add: parseEUI64_def parseAES128_def parseDevAddr_def parse_fixed_length)

lemma parse_fixed_ok_iff: "is_ok (parse_fixed w n s) \<longleftrightarrow> length s = 2 * n \<and> list_all is_hex s"
proof (cases "hex_DecodeString s")
  case (Inl e)
  then show ?thesis
    using hex_Decode_ok_iff [of s] by (auto simp: parse_fixed_def list_all_iff)
next
  case (Inr b)
  then show ?thesis
    using hex_Decode_ok_iff [of s] hex_Decode_length [of s b] by (auto simp: parse_fixed_def list_all_iff)
qed

section \<open>Session keys\<close>

text \<open>\<open>copy(dst[i:j], src)\<close>: as many bytes as both slices hold.\<close>

definition copy_at :: "nat \<Rightarrow> nat \<Rightarrow> bytes \<Rightarrow> bytes \<Rightarrow> bytes" where
  "copy_at i j src dst =
     (let s = take (j - i) src in take i dst @ s @ drop (i + length s) dst)"

text \<open>The 16-byte block that is encrypted under the AppKey.\<close>

definition skey_block :: "u8 \<Rightarrow> bytes \<Rightarrow> bytes \<Rightarrow> bytes \<Rightarrow> bytes" where
  "skey_block typ joinNonceB netIDB devNonceB =
     copy_at 7 9 devNonceB (copy_at 4 7 netIDB (copy_at 1 4 joinNonceB ((replicate 16 0)[0 := typ])))"

definition deriveSKey :: "aes_lib \<Rightarrow> lorawan \<Rightarrow> u8 \<Rightarrow> aes128_key \<Rightarrow> net_id \<Rightarrow> u32 \<Rightarrow> u16 \<Rightarrow> aes128_key res" where
  "deriveSKey A L typ appKey netID joinNonce devNonce =
     bindE (wrapE ''marshal netID'' (NetID_MarshalBinary L netID)) (\<lambda>netIDB.
     bindE (wrapE ''marshal joinNonce'' (JoinNonce_MarshalBinary L joinNonce)) (\<lambda>joinNonceB.
     bindE (wrapE ''marshal devNonce'' (DevNonce_MarshalBinary L devNonce)) (\<lambda>devNonceB.
     bindE (wrapE ''aes cipher'' (aes_NewCipher A appKey)) (\<lambda>blk.
     Inr (block_Encrypt A blk (skey_block typ joinNonceB netIDB devNonceB))))))"

definition DeriveNwkSKey :: "aes_lib \<Rightarrow> lorawan \<Rightarrow> aes128_key \<Rightarrow> net_id \<Rightarrow> u32 \<Rightarrow> u16 \<Rightarrow> aes128_key res" where
  "DeriveNwkSKey A L appKey netID joinNonce devNonce = deriveSKey A L 1 appKey netID joinNonce devNonce"

definition DeriveAppSKey :: "aes_lib \<Rightarrow> lorawan \<Rightarrow> aes128_key \<Rightarrow> net_id \<Rightarrow> u32 \<Rightarrow> u16 \<Rightarrow> aes128_key res" where
  "DeriveAppSKey A L appKey netID joinNonce devNonce = deriveSKey A L 2 appKey netID joinNonce devNonce"

lemma skey_block_layout:
  assumes "length jn = 3" and "length nid = 3" and "length dn = 2"
  shows "skey_block typ jn nid dn = typ # jn @ nid @ dn @ replicate 7 0"
proof -
  obtain j1 j2 j3 where j: "jn = [j1, j2, j3]" using assms(1) by (auto simp: length_Suc_conv numeral_eq_Suc)
  obtain n1 n2 n3 where n: "nid = [n1, n2, n3]" using assms(2) by (auto simp: length_Suc_conv numeral_eq_Suc)
  obtain d1 d2 where d: "dn = [d1, d2]" using assms(3) by (auto simp: length_Suc_conv numeral_eq_Suc)
  show ?thesis by (simp add: skey_block_def copy_at_def j n d numeral_eq_Suc)
qed

text \<open>AES as documented: a key of 16, 24 or 32 bytes gives a block cipher that permutes 16-byte blocks.\<close>

definition aes_block_ok :: "aes_lib \<Rightarrow> bool" where
  "aes_block_ok A =
     ((\<forall>k. length k = 16 \<longrightarrow> is_ok (aes_NewCipher A k)) \<and>
      (\<forall>c b. length b = 16 \<longrightarrow> length (block_Encrypt A c b) = 16) \<and>
      (\<forall>c. inj_on (block_Encrypt A c) {b. length b = 16}))"

text \<open>The wire encodings of the identifiers that go into the block: fixed width, one to one.\<close>

definition wire_ids_ok :: "lorawan \<Rightarrow> bool" where
  "wire_ids_ok L =
     ((\<forall>i b. NetID_MarshalBinary L i = Inr b \<longrightarrow> length b = 3) \<and>
      (\<forall>j b. JoinNonce_MarshalBinary L j = Inr b \<longrightarrow> length b = 3) \<and>
      (\<forall>d b. DevNonce_MarshalBinary L d = Inr b \<longrightarrow> length b = 2) \<and>
      (\<forall>j j' b. JoinNonce_MarshalBinary L j = Inr b \<longrightarrow> JoinNonce_MarshalBinary L j' = Inr b \<longrightarrow> j = j') \<and>
      (\<forall>d d' b. DevNonce_MarshalBinary L d = Inr b \<longrightarrow> DevNonce_MarshalBinary L d' = Inr b \<longrightarrow> d = d'))"

lemma deriveSKey_Inr:
  assumes "deriveSKey A L typ k i j d = Inr s"
  obtains ib jb db c where "NetID_MarshalBinary L i = Inr ib" "JoinNonce_MarshalBinary L j = Inr jb"
    "DevNonce_MarshalBinary L d = Inr db" "aes_NewCipher A k = Inr c"
    "s = block_Encrypt A c (skey_block typ jb ib db)"
  using assms by (auto simp: deriveSKey_def res_simps)

lemma skey_block_inject:
  assumes "length jn = 3" and "length nid = 3" and "length dn = 2"
    and "length jn' = 3" and "length nid' = 3" and "length dn' = 2"
  shows "skey_block typ jn nid dn = skey_block typ' jn' nid' dn' \<longleftrightarrow>
    typ = typ' \<and> jn = jn' \<and> nid = nid' \<and> dn = dn'"
  using assms by (auto simp: skey_block_layout)

lemma deriveSKey_length:
  assumes "aes_block_ok A" and "wire_ids_ok L" and "deriveSKey A L typ k i j d = Inr s"
  shows "length s = 16"
proof -
  obtain ib jb db c where d: "NetID_MarshalBinary L i = Inr ib" "JoinNonce_MarshalBinary L j = Inr jb"
    "DevNonce_MarshalBinary L d = Inr db" and s: "s = block_Encrypt A c (skey_block typ jb ib db)"
    by (rule deriveSKey_Inr [OF assms(3)])
  have "length ib = 3" "length jb = 3" "length db = 2"
    using assms(2) d by (auto simp: wire_ids_ok_def)
  then have "length (skey_block typ jb ib db) = 16" by (simp add: skey_block_layout)
  then show ?thesis using assms(1) s by (simp add: aes_block_ok_def)
qed

lemma deriveSKey_inject:
  assumes "aes_block_ok A" and "wire_ids_ok L"
    and "deriveSKey A L typ k i j d = Inr s" and "deriveSKey A L typ' k i' j' d' = Inr s"
  shows "typ = typ' \<and> j = j' \<and> d = d'"
proof -
  obtain ib jb db c where a: "NetID_MarshalBinary L i = Inr ib" "JoinNonce_MarshalBinary L j = Inr jb"
    "DevNonce_MarshalBinary L d = Inr db" "aes_NewCipher A k = Inr c"
    "s = block_Encrypt A c (skey_block typ jb ib db)"
    by (rule deriveSKey_Inr [OF assms(3)])
  obtain ib' jb' db' where b: "NetID_MarshalBinary L i' = Inr ib'" "JoinNonce_MarshalBinary L j' = Inr jb'"
    "DevNonce_MarshalBinary L d' = Inr db'" "s = block_Encrypt A c (skey_block typ' jb' ib' db')"
    by (rule deriveSKey_Inr [OF assms(4)]) (use a(4) in auto)
  have l: "length ib = 3" "length jb = 3" "length db = 2" "length ib' = 3" "length jb' = 3" "length db' = 2"
    using assms(2) a b by (auto simp: wire_ids_ok_def)
  then have "skey_block typ jb ib db = skey_block typ' jb' ib' db'"
    using assms(1) a(5) b(4) by (auto simp: aes_block_ok_def skey_block_layout dest!: inj_onD)
  with l have "typ = typ'" "jb = jb'" "db = db'" by (simp_all add: skey_block_inject)
  with a b assms(2) show ?thesis by (simp add: wire_ids_ok_def)
qed

end
