(* ===== verification/PhyExample.thy ===== *)
theory PhyExample
  imports Phy
begin

text \<open>
  The contracts of the PHY library and of AES that the properties assume, and one concrete
  instance of both parameters that satisfies them. The instance is a toy: it is only there to
  run the model and to show that the contracts can hold.
\<close>

section \<open>Contracts\<close>

definition phy_frame :: "m_type \<Rightarrow> mac_pl \<Rightarrow> phy" where
  "phy_frame t m = \<lparr>phy_MType = t, phy_MAC = m, phy_MIC = []\<rparr>"

definition plain_fctrl :: fctrl where
  "plain_fctrl = \<lparr>fc_ADR = False, fc_ADRACKReq = False, fc_ACK = False, fc_FPending = False, fc_ClassB = False\<rparr>"

definition data_pl :: "dev_addr \<Rightarrow> fctrl \<Rightarrow> u32 \<Rightarrow> u8 \<Rightarrow> bytes \<Rightarrow> mac_pl" where
  "data_pl devAddr fctl fcnt fport data = MACPayload
     \<lparr>mp_FHDR = \<lparr>fh_DevAddr = devAddr, fh_FCtrl = fctl, fh_FCnt = fcnt, fh_FOpts = []\<rparr>,
      mp_FPort = Some fport, mp_FRMPayload = [DataPayload data]\<rparr>"

text \<open>Data frames that the wire carries whole: a 16-bit counter and a payload that is not empty.\<close>

definition wire_data :: "dev_addr \<Rightarrow> u32 \<Rightarrow> bytes \<Rightarrow> bytes \<Rightarrow> bool" where
  "wire_data devAddr fcnt data mic =
     (length devAddr = 4 \<and> unat fcnt < 65536 \<and> data \<noteq> [] \<and> length mic = 4)"

text \<open>Unmarshalling inverts marshalling on the frames the program sends.\<close>

definition marshal_ok :: "lorawan \<Rightarrow> bool" where
  "marshal_ok L =
     ((\<forall>t devAddr fctl fcnt fport data mic b.
         t \<in> {UnconfirmedDataUp, ConfirmedDataUp, UnconfirmedDataDown} \<longrightarrow> wire_data devAddr fcnt data mic \<longrightarrow>
         phy_MarshalBinary L (phy_frame t (data_pl devAddr fctl fcnt fport data)\<lparr>phy_MIC := mic\<rparr>) = Inr b \<longrightarrow>
         phy_UnmarshalBinary L b = Inr (phy_frame t (data_pl devAddr fctl fcnt fport data)\<lparr>phy_MIC := mic\<rparr>)) \<and>
      (\<forall>j mic b. length (jr_JoinEUI j) = 8 \<longrightarrow> length (jr_DevEUI j) = 8 \<longrightarrow> length mic = 4 \<longrightarrow>
         phy_MarshalBinary L (phy_frame JoinRequest (JoinRequestPayload j)\<lparr>phy_MIC := mic\<rparr>) = Inr b \<longrightarrow>
         phy_UnmarshalBinary L b = Inr (phy_frame JoinRequest (JoinRequestPayload j)\<lparr>phy_MIC := mic\<rparr>)))"

text \<open>Encrypting the payload of a data frame changes its bytes only, and decrypting restores them.\<close>

definition frm_crypt_ok :: "lorawan \<Rightarrow> bool" where
  "frm_crypt_ok L =
     (\<forall>key t devAddr fctl fcnt fport data p.
        EncryptFRMPayload L key (phy_frame t (data_pl devAddr fctl fcnt fport data)) = Inr p \<longrightarrow>
        (\<exists>enc. p = phy_frame t (data_pl devAddr fctl fcnt fport enc) \<and> length enc = length data \<and>
           (\<forall>mic. DecryptFRMPayload L key (p\<lparr>phy_MIC := mic\<rparr>) =
              Inr (phy_frame t (data_pl devAddr fctl fcnt fport data)\<lparr>phy_MIC := mic\<rparr>))))"

text \<open>Signing sets a four-byte MIC, which is valid under the key it was made with.\<close>

definition data_mic_ok :: "lorawan \<Rightarrow> bool" where
  "data_mic_ok L =
     ((\<forall>f key p q. SetDownlinkDataMIC L f key p = Inr q \<longrightarrow>
         (\<exists>mic. length mic = 4 \<and> q = p\<lparr>phy_MIC := mic\<rparr> \<and> ValidateDownlinkDataMIC L f key q = Inr True)) \<and>
      (\<forall>f d c k k' p q. SetUplinkDataMIC L f d c k k' p = Inr q \<longrightarrow> (\<exists>mic. length mic = 4 \<and> q = p\<lparr>phy_MIC := mic\<rparr>)) \<and>
      (\<forall>k p q. SetUplinkJoinMIC L k p = Inr q \<longrightarrow> (\<exists>mic. length mic = 4 \<and> q = p\<lparr>phy_MIC := mic\<rparr>)))"

text \<open>
  A join-accept that was signed for a join-request and encrypted with the AppKey is recovered by
  the device that holds the key: decrypting gives the payload back and the MIC is valid.
\<close>

definition join_accept_ok :: "lorawan \<Rightarrow> bool" where
  "join_accept_ok L =
     (\<forall>key joinEUI devNonce ja p1 p2 b.
        SetDownlinkJoinMIC L joinEUI devNonce key (phy_frame JoinAccept (JoinAcceptPayload ja)) = Inr p1 \<longrightarrow>
        EncryptJoinAcceptPayload L key p1 = Inr p2 \<longrightarrow> phy_MarshalBinary L p2 = Inr b \<longrightarrow>
        (\<exists>q q'. phy_UnmarshalBinary L b = Inr q \<and> DecryptJoinAcceptPayload L key q = Inr q' \<and>
           phy_MAC q' = JoinAcceptPayload ja \<and> ValidateDownlinkJoinMIC L joinEUI devNonce key q' = Inr True))"

definition lorawan_ok :: "lorawan \<Rightarrow> bool" where
  "lorawan_ok L = (wire_ids_ok L \<and> marshal_ok L \<and> frm_crypt_ok L \<and> data_mic_ok L \<and> join_accept_ok L)"

section \<open>An instance\<close>

definition toy_key :: "bytes \<Rightarrow> byte" where
  "toy_key k = (case k of [] \<Rightarrow> 0 | x # _ \<Rightarrow> x)"

definition toy_aes :: aes_lib where
  "toy_aes = \<lparr>aes_NewCipher = (\<lambda>k. if length k \<in> {16, 24, 32} then Inr k else Inl (Err ''key size'')),
     block_Encrypt = (\<lambda>c b. map (\<lambda>x. x + toy_key c) b), cipher_NewGCM = (\<lambda>_. Inr box_aead)\<rparr>"

definition toy_mic :: "bytes \<Rightarrow> phy \<Rightarrow> phy res" where
  "toy_mic k p = Inr (p\<lparr>phy_MIC := replicate 4 (toy_key k)\<rparr>)"

fun toy_frm :: "(byte \<Rightarrow> byte) \<Rightarrow> phy \<Rightarrow> phy res" where
  "toy_frm f p = (case phy_MAC p of
     MACPayload m \<Rightarrow> (case mp_FRMPayload m of
         [DataPayload d] \<Rightarrow> Inr (p\<lparr>phy_MAC := MACPayload (m\<lparr>mp_FRMPayload := [DataPayload (map f d)]\<rparr>)\<rparr>)
       | _ \<Rightarrow> Inl (Err ''payload''))
   | _ \<Rightarrow> Inl (Err ''payload''))"

definition toy_encrypt_join :: "phy \<Rightarrow> phy res" where
  "toy_encrypt_join p = (case phy_MAC p of
     JoinAcceptPayload ja \<Rightarrow>
       if length (ja_HomeNetID ja) = 3 \<and> length (ja_DevAddr ja) = 4 \<and> ja_CFList ja = None
       then Inr (p\<lparr>phy_MAC := RawPayload (put_be32 (ja_JoinNonce ja) @ ja_HomeNetID ja @ ja_DevAddr ja @
              [ja_RX1DROffset ja, ja_RX2DataRate ja, ja_RXDelay ja])\<rparr>)
       else Inl (Err ''payload'')
   | _ \<Rightarrow> Inl (Err ''payload''))"

definition toy_decrypt_join :: "phy \<Rightarrow> phy res" where
  "toy_decrypt_join p = (case phy_MAC p of
     RawPayload b \<Rightarrow> if length b = 14 then Inr (p\<lparr>phy_MAC := JoinAcceptPayload
         \<lparr>ja_JoinNonce = be32 (take 4 b), ja_HomeNetID = take 3 (drop 4 b), ja_DevAddr = take 4 (drop 7 b),
          ja_RX1DROffset = b ! 11, ja_RX2DataRate = b ! 12, ja_RXDelay = b ! 13, ja_CFList = None\<rparr>\<rparr>)
       else Inl (Err ''payload'')
   | _ \<Rightarrow> Inl (Err ''payload''))"

definition toy_mhdr :: "m_type \<Rightarrow> byte" where
  "toy_mhdr t = (case t of JoinRequest \<Rightarrow> 0 | JoinAccept \<Rightarrow> 32 | UnconfirmedDataUp \<Rightarrow> 64 | UnconfirmedDataDown \<Rightarrow> 96
     | ConfirmedDataUp \<Rightarrow> 128 | ConfirmedDataDown \<Rightarrow> 160 | RejoinRequest \<Rightarrow> 192 | Proprietary \<Rightarrow> 224)"

definition toy_fctrl :: "fctrl \<Rightarrow> bytes" where
  "toy_fctrl f = map of_bool [fc_ADR f, fc_ADRACKReq f, fc_ACK f, fc_FPending f, fc_ClassB f]"

definition toy_of_fctrl :: "bytes \<Rightarrow> fctrl" where
  "toy_of_fctrl b = \<lparr>fc_ADR = (b ! 0 \<noteq> 0), fc_ADRACKReq = (b ! 1 \<noteq> 0), fc_ACK = (b ! 2 \<noteq> 0),
     fc_FPending = (b ! 3 \<noteq> 0), fc_ClassB = (b ! 4 \<noteq> 0)\<rparr>"

definition toy_be16 :: "bytes \<Rightarrow> u16" where
  "toy_be16 b = word_of_nat (256 * unat (b ! 0) + unat (b ! 1))"

definition toy_marshal :: "phy \<Rightarrow> bytes res" where
  "toy_marshal p = (case phy_MAC p of
     RawPayload b \<Rightarrow> Inr (32 # phy_MIC p @ b)
   | JoinRequestPayload j \<Rightarrow> Inr (0 # phy_MIC p @ jr_JoinEUI j @ jr_DevEUI j @ put_be16 (jr_DevNonce j))
   | MACPayload m \<Rightarrow> (case (mp_FPort m, mp_FRMPayload m) of
       (Some port, [DataPayload d]) \<Rightarrow>
         Inr (toy_mhdr (phy_MType p) # phy_MIC p @ put_be32 (fh_FCnt (mp_FHDR m)) @ fh_DevAddr (mp_FHDR m) @
           toy_fctrl (fh_FCtrl (mp_FHDR m)) @ port # d)
     | _ \<Rightarrow> Inl (Err ''payload''))
   | _ \<Rightarrow> Inl (Err ''payload''))"

definition toy_unmarshal :: "bytes \<Rightarrow> phy res" where
  "toy_unmarshal b =
     (if length b < 19 then Inl (Err ''length'')
      else let mic = take 4 (drop 1 b);
               data = data_pl (take 4 (drop 9 b)) (toy_of_fctrl (take 5 (drop 13 b))) (be32 (take 4 (drop 5 b))) (b ! 18) (drop 19 b) in
        if hd b = 32 then Inr \<lparr>phy_MType = JoinAccept, phy_MAC = RawPayload (drop 5 b), phy_MIC = mic\<rparr>
        else if hd b = 0 then Inr \<lparr>phy_MType = JoinRequest, phy_MAC = JoinRequestPayload
            \<lparr>jr_JoinEUI = take 8 (drop 5 b), jr_DevEUI = take 8 (drop 13 b), jr_DevNonce = toy_be16 (drop 21 b)\<rparr>, phy_MIC = mic\<rparr>
        else if hd b = 96 then Inr \<lparr>phy_MType = UnconfirmedDataDown, phy_MAC = data, phy_MIC = mic\<rparr>
        else if hd b = 64 then Inr \<lparr>phy_MType = UnconfirmedDataUp, phy_MAC = data, phy_MIC = mic\<rparr>
        else if hd b = 128 then Inr \<lparr>phy_MType = ConfirmedDataUp, phy_MAC = data, phy_MIC = mic\<rparr>
        else Inl (Err ''mtype''))"

definition toy_lorawan :: lorawan where
  "toy_lorawan = \<lparr>
     SetUplinkJoinMIC = toy_mic,
     SetDownlinkJoinMIC = (\<lambda>e d. toy_mic),
     ValidateDownlinkJoinMIC = (\<lambda>e d k p. Inr (phy_MIC p = replicate 4 (toy_key k))),
     EncryptJoinAcceptPayload = (\<lambda>k. toy_encrypt_join),
     DecryptJoinAcceptPayload = (\<lambda>k. toy_decrypt_join),
     EncryptFRMPayload = (\<lambda>k. toy_frm (\<lambda>x. x + toy_key k)),
     DecryptFRMPayload = (\<lambda>k. toy_frm (\<lambda>x. x - toy_key k)),
     SetUplinkDataMIC = (\<lambda>f d c k k'. toy_mic k),
     SetDownlinkDataMIC = (\<lambda>f. toy_mic),
     ValidateDownlinkDataMIC = (\<lambda>f k p. Inr (phy_MIC p = replicate 4 (toy_key k))),
     DecodeFOptsToMACCommands = Inr,
     DecodeFRMPayloadToMACCommands = Inr,
     phy_MarshalBinary = toy_marshal,
     phy_UnmarshalBinary = toy_unmarshal,
     NetID_MarshalBinary = (\<lambda>i. if length i = 3 then Inr i else Inl (Err ''netid'')),
     JoinNonce_MarshalBinary = (\<lambda>j. if unat j < 16777216 then Inr (tl (put_be32 j)) else Inl (Err ''nonce'')),
     DevNonce_MarshalBinary = (\<lambda>d. Inr (put_be16 d)),
     Payload_MarshalBinary = (\<lambda>p. case p of DataPayload d \<Rightarrow> Inr d | MACCommand c \<Rightarrow> Inr [of_nat c]),
     MHDR_MarshalBinary = (\<lambda>p. Inr [toy_mhdr (phy_MType p)]),
     EUI64_String = hex_EncodeToString,
     DevAddr_String = hex_EncodeToString\<rparr>"

lemma toy_aes_ok: "aes_block_ok toy_aes"
  by (auto simp: aes_block_ok_def toy_aes_def inj_on_def dest!: map_injective intro: injI)

lemma put_be32_3:
  assumes "unat j < 16777216" and "unat j' < 16777216" and "tl (put_be32 j) = tl (put_be32 j')"
  shows "j = j'"
proof -
  have "put_be32 j ! 0 = 0" "put_be32 j' ! 0 = 0"
    using assms(1,2) unat_put_be32(1) [of j] unat_put_be32(1) [of j'] by (simp_all add: unat_eq_zero)
  with assms(3) have "put_be32 j = put_be32 j'" by (simp add: put_be32_def)
  then show ?thesis by simp
qed

lemma toy_wire_ids: "wire_ids_ok toy_lorawan"
  by (auto simp: wire_ids_ok_def toy_lorawan_def split: if_splits intro: put_be32_3)

lemma toy_be16_put: "toy_be16 (put_be16 x) = x"
  unfolding toy_be16_def unat_put_be16 by simp

lemma toy_of_fctrl_toy_fctrl: "toy_of_fctrl (toy_fctrl f) = f"
  by (cases f) (simp add: toy_of_fctrl_def toy_fctrl_def)

lemma length_toy_fctrl [simp]: "length (toy_fctrl f) = 5"
  by (simp add: toy_fctrl_def)

lemma toy_unmarshal_data:
  assumes "length mic = 4" and "length a = 4" and "t \<in> {UnconfirmedDataUp, ConfirmedDataUp, UnconfirmedDataDown}"
  shows "toy_unmarshal (toy_mhdr t # mic @ put_be32 f @ a @ toy_fctrl c @ port # d) =
    Inr (phy_frame t (data_pl a c f port d)\<lparr>phy_MIC := mic\<rparr>)"
  using assms
  by (auto simp: toy_unmarshal_def toy_mhdr_def nth_append phy_frame_def toy_of_fctrl_toy_fctrl Let_def)

lemma toy_marshal_ok: "marshal_ok toy_lorawan"
proof -
  have "toy_unmarshal b = Inr (phy_frame JoinRequest (JoinRequestPayload j)\<lparr>phy_MIC := mic\<rparr>)"
    if "length (jr_JoinEUI j) = 8" "length (jr_DevEUI j) = 8" "length mic = 4"
      "b = 0 # mic @ jr_JoinEUI j @ jr_DevEUI j @ put_be16 (jr_DevNonce j)" for j mic b
    using that by (simp add: toy_unmarshal_def phy_frame_def toy_be16_put Let_def)
  moreover have "toy_unmarshal b = Inr (phy_frame t (data_pl a c f port d)\<lparr>phy_MIC := mic\<rparr>)"
    if "t \<in> {UnconfirmedDataUp, ConfirmedDataUp, UnconfirmedDataDown}" "wire_data a f d mic"
      "toy_marshal (phy_frame t (data_pl a c f port d)\<lparr>phy_MIC := mic\<rparr>) = Inr b" for t a c f port d mic b
    using that toy_unmarshal_data [of mic a t f c port d]
    by (simp add: wire_data_def toy_marshal_def phy_frame_def data_pl_def)
  ultimately show ?thesis
    unfolding marshal_ok_def toy_lorawan_def
    by (simp add: toy_marshal_def [of "phy_frame JoinRequest _\<lparr>phy_MIC := _\<rparr>"]) (simp add: phy_frame_def)
qed

lemma toy_frm_crypt: "frm_crypt_ok toy_lorawan"
  by (auto simp: frm_crypt_ok_def toy_lorawan_def phy_frame_def data_pl_def comp_def)

lemma toy_data_mic: "data_mic_ok toy_lorawan"
  by (auto simp: data_mic_ok_def toy_lorawan_def toy_mic_def intro!: exI [of _ "replicate 4 _"])

lemma toy_join_accept: "join_accept_ok toy_lorawan"
proof -
  have "\<exists>q q'. toy_unmarshal b = Inr q \<and> toy_decrypt_join q = Inr q' \<and>
      phy_MAC q' = JoinAcceptPayload ja \<and> phy_MIC q' = replicate 4 k"
    if e: "toy_encrypt_join ((phy_frame JoinAccept (JoinAcceptPayload ja))\<lparr>phy_MIC := replicate 4 k\<rparr>) = Inr p2"
      and m: "toy_marshal p2 = Inr b" for ja k p2 b
  proof -
    let ?raw = "put_be32 (ja_JoinNonce ja) @ ja_HomeNetID ja @ ja_DevAddr ja @
              [ja_RX1DROffset ja, ja_RX2DataRate ja, ja_RXDelay ja]"
    from e have l: "length (ja_HomeNetID ja) = 3" "length (ja_DevAddr ja) = 4" "ja_CFList ja = None"
      and p2: "p2 = \<lparr>phy_MType = JoinAccept, phy_MAC = RawPayload ?raw, phy_MIC = replicate 4 k\<rparr>"
      by (auto simp: toy_encrypt_join_def phy_frame_def split: if_splits)
    from m p2 have b: "b = 32 # replicate 4 k @ ?raw" by (simp add: toy_marshal_def)
    have u: "toy_unmarshal b = Inr \<lparr>phy_MType = JoinAccept, phy_MAC = RawPayload ?raw, phy_MIC = replicate 4 k\<rparr>"
      unfolding b toy_unmarshal_def by (simp add: l)
    have d: "toy_decrypt_join \<lparr>phy_MType = JoinAccept, phy_MAC = RawPayload ?raw, phy_MIC = replicate 4 k\<rparr> =
        Inr \<lparr>phy_MType = JoinAccept, phy_MAC = JoinAcceptPayload ja, phy_MIC = replicate 4 k\<rparr>"
      by (cases ja) (use l in \<open>simp add: toy_decrypt_join_def nth_append\<close>)
    show ?thesis using u d by simp
  qed
  then show ?thesis
    by (auto simp: join_accept_ok_def toy_lorawan_def toy_mic_def)
qed

lemma toy_lorawan_ok: "lorawan_ok toy_lorawan"
  by (simp add: lorawan_ok_def toy_wire_ids toy_marshal_ok toy_frm_crypt toy_data_mic toy_join_accept)

section \<open>Properties\<close>

text \<open>C27: the two session keys of a join are different 16-byte keys, and no other JoinNonce or
  DevNonce gives either of them: with AES a permutation of blocks, a key determines the type, the
  JoinNonce and the DevNonce it was derived from.\<close>

theorem session_keys_separate:
  assumes "aes_block_ok A" and "wire_ids_ok L"
    and "DeriveNwkSKey A L k i j d = Inr nwk" and "DeriveAppSKey A L k i j d = Inr app"
  shows "nwk \<noteq> app \<and> length nwk = 16 \<and> length app = 16 \<and>
     (\<forall>i' j' d'. DeriveNwkSKey A L k i' j' d' = Inr nwk \<longrightarrow> j' = j \<and> d' = d) \<and>
     (\<forall>i' j' d'. DeriveAppSKey A L k i' j' d' = Inr app \<longrightarrow> j' = j \<and> d' = d)"
proof -
  have n: "deriveSKey A L 1 k i j d = Inr nwk" and a: "deriveSKey A L 2 k i j d = Inr app"
    using assms(3,4) by (simp_all add: DeriveNwkSKey_def DeriveAppSKey_def)
  note inj = deriveSKey_inject [OF assms(1,2)]
  have "nwk \<noteq> app"
  proof
    assume "nwk = app"
    with inj [OF n] a show False by fastforce
  qed
  moreover have "j' = j \<and> d' = d" if "DeriveNwkSKey A L k i' j' d' = Inr nwk" for i' j' d'
    using inj [OF _ n] that by (simp add: DeriveNwkSKey_def)
  moreover have "j' = j \<and> d' = d" if "DeriveAppSKey A L k i' j' d' = Inr app" for i' j' d'
    using inj [OF _ a] that by (simp add: DeriveAppSKey_def)
  ultimately show ?thesis
    using deriveSKey_length [OF assms(1,2) n] deriveSKey_length [OF assms(1,2) a] by blast
qed

definition toy_app_key :: aes128_key where
  "toy_app_key = replicate 16 7"

theorem session_keys_separate_witness:
  "\<exists>nwk app. DeriveNwkSKey toy_aes toy_lorawan toy_app_key [0, 0, 19] 1 2 = Inr nwk \<and>
     DeriveAppSKey toy_aes toy_lorawan toy_app_key [0, 0, 19] 1 2 = Inr app \<and> nwk \<noteq> app"
proof -
  obtain nwk where n: "DeriveNwkSKey toy_aes toy_lorawan toy_app_key [0, 0, 19] 1 2 = Inr nwk"
    by (simp add: DeriveNwkSKey_def deriveSKey_def toy_lorawan_def toy_aes_def toy_app_key_def)
  obtain app where a: "DeriveAppSKey toy_aes toy_lorawan toy_app_key [0, 0, 19] 1 2 = Inr app"
    by (simp add: DeriveAppSKey_def deriveSKey_def toy_lorawan_def toy_aes_def toy_app_key_def)
  show ?thesis
    using session_keys_separate [OF toy_aes_ok toy_wire_ids n a] n a by blast
qed

end
