(* ===== verification/Frames.thy ===== *)
theory Frames
  imports PhyExample
begin

text \<open>
  Building and parsing the frames of a device: OTAA join (\<open>internal/tag/join.go\<close>) and data
  (\<open>internal/tag/data.go\<close>).
\<close>

section \<open>Join\<close>

record provisioning =
  pr_DevEUI :: eui64
  pr_JoinEUI :: eui64
  pr_AppKey :: aes128_key

record join_result =
  jres_DevAddr :: dev_addr
  jres_NwkSKey :: aes128_key
  jres_AppSKey :: aes128_key
  jres_NetID :: net_id
  jres_JoinNonce :: u32
  jres_RxDelay :: u8
  jres_RX1DROffset :: u8
  jres_RX2DataRate :: u8
  jres_CFList :: "bytes option"

definition BuildJoinRequest :: "lorawan \<Rightarrow> provisioning \<Rightarrow> u16 \<Rightarrow> bytes res" where
  "BuildJoinRequest L p devNonce =
     (let phy = phy_frame JoinRequest (JoinRequestPayload
            \<lparr>jr_JoinEUI = pr_JoinEUI p, jr_DevEUI = pr_DevEUI p, jr_DevNonce = devNonce\<rparr>) in
      bindE (wrapE ''signing join-request'' (SetUplinkJoinMIC L (pr_AppKey p) phy)) (\<lambda>phy.
      bindE (wrapE ''marshaling join-request'' (phy_MarshalBinary L phy)) (\<lambda>b. Inr b)))"

definition ParseJoinAccept :: "aes_lib \<Rightarrow> lorawan \<Rightarrow> provisioning \<Rightarrow> u16 \<Rightarrow> bytes \<Rightarrow> join_result res" where
  "ParseJoinAccept A L p devNonce data =
     bindE (wrapE ''unmarshaling join-accept'' (phy_UnmarshalBinary L data)) (\<lambda>phy.
     bindE (wrapE ''decrypting join-accept'' (DecryptJoinAcceptPayload L (pr_AppKey p) phy)) (\<lambda>phy.
     bindE (wrapE ''validating join-accept MIC''
              (ValidateDownlinkJoinMIC L (pr_JoinEUI p) devNonce (pr_AppKey p) phy)) (\<lambda>ok.
     if \<not> ok then Inl (Err ''join-accept MIC is invalid'')
     else case phy_MAC phy of
       JoinAcceptPayload jap \<Rightarrow>
         bindE (wrapE ''deriving NwkSKey''
                  (DeriveNwkSKey A L (pr_AppKey p) (ja_HomeNetID jap) (ja_JoinNonce jap) devNonce)) (\<lambda>nwkSKey.
         bindE (wrapE ''deriving AppSKey''
                  (DeriveAppSKey A L (pr_AppKey p) (ja_HomeNetID jap) (ja_JoinNonce jap) devNonce)) (\<lambda>appSKey.
         Inr \<lparr>jres_DevAddr = ja_DevAddr jap, jres_NwkSKey = nwkSKey, jres_AppSKey = appSKey,
              jres_NetID = ja_HomeNetID jap, jres_JoinNonce = ja_JoinNonce jap, jres_RxDelay = ja_RXDelay jap,
              jres_RX1DROffset = ja_RX1DROffset jap, jres_RX2DataRate = ja_RX2DataRate jap,
              jres_CFList = ja_CFList jap\<rparr>))
     | _ \<Rightarrow> Inl (Err ''join-accept payload has unexpected type''))))"

section \<open>Data uplinks\<close>

record uplink_params =
  up_DevAddr :: dev_addr
  up_NwkSKey :: aes128_key
  up_AppSKey :: aes128_key
  up_FCnt :: u32
  up_FPort :: u8
  up_Data :: bytes
  up_Confirmed :: bool
  up_ADR :: bool
  up_ACK :: bool

definition BuildUplink :: "lorawan \<Rightarrow> uplink_params \<Rightarrow> bytes res" where
  "BuildUplink L p =
     (let mType = if up_Confirmed p then ConfirmedDataUp else UnconfirmedDataUp;
          phy = phy_frame mType (MACPayload
            \<lparr>mp_FHDR = \<lparr>fh_DevAddr = up_DevAddr p,
                        fh_FCtrl = \<lparr>fc_ADR = up_ADR p, fc_ADRACKReq = False, fc_ACK = up_ACK p, fc_FPending = False, fc_ClassB = False\<rparr>,
                        fh_FCnt = up_FCnt p, fh_FOpts = []\<rparr>,
             mp_FPort = Some (up_FPort p), mp_FRMPayload = [DataPayload (up_Data p)]\<rparr>);
          frmKey = if up_FPort p = 0 then up_NwkSKey p else up_AppSKey p in
      bindE (wrapE ''encrypting FRMPayload'' (EncryptFRMPayload L frmKey phy)) (\<lambda>phy.
      bindE (wrapE ''signing uplink'' (SetUplinkDataMIC L 0 0 0 (up_NwkSKey p) (up_NwkSKey p) phy)) (\<lambda>phy.
      bindE (wrapE ''marshaling uplink'' (phy_MarshalBinary L phy)) (\<lambda>b. Inr b))))"

section \<open>Data downlinks\<close>

record mac_command_raw =
  mc_CID :: byte
  mc_Payload :: bytes

record downlink =
  dl_FPort :: u8
  dl_FCnt :: u32
  dl_Confirmed :: bool
  dl_ACK :: bool
  dl_FPending :: bool
  dl_Payload :: bytes
  dl_MACCommands :: "mac_command_raw list"

record downlink_params =
  dp_DevAddr :: dev_addr
  dp_NwkSKey :: aes128_key
  dp_AppSKey :: aes128_key

fun collectMACCommands :: "lorawan \<Rightarrow> payload list \<Rightarrow> mac_command_raw list res" where
  "collectMACCommands L [] = Inr []"
| "collectMACCommands L (DataPayload d # ps) = collectMACCommands L ps"
| "collectMACCommands L (MACCommand c # ps) =
     bindE (wrapE ''marshaling MAC command'' (Payload_MarshalBinary L (MACCommand c))) (\<lambda>b.
     bindE (collectMACCommands L ps) (\<lambda>cmds.
     case b of [] \<Rightarrow> Inr cmds | cid # rest \<Rightarrow> Inr (\<lparr>mc_CID = cid, mc_Payload = rest\<rparr> # cmds)))"

fun firstDataPayload :: "payload list \<Rightarrow> bytes option" where
  "firstDataPayload [] = None"
| "firstDataPayload (DataPayload d # ps) = Some d"
| "firstDataPayload (MACCommand c # ps) = firstDataPayload ps"

text \<open>
  \<open>mac\<close> points into the frame, so that after a method of the frame has changed the payload in
  place, it reads the changed payload.
\<close>

definition mac_in :: "phy \<Rightarrow> mac_payload \<Rightarrow> mac_payload" where
  "mac_in phy old = (case phy_MAC phy of MACPayload m \<Rightarrow> m | _ \<Rightarrow> old)"

text \<open>The MAC commands in FOpts, which LoRaWAN 1.0 does not encrypt.\<close>

definition parse_fopts :: "lorawan \<Rightarrow> phy \<Rightarrow> mac_payload \<Rightarrow> downlink \<Rightarrow> (phy \<times> mac_payload \<times> downlink) res" where
  "parse_fopts L phy mac out =
     (if fh_FOpts (mp_FHDR mac) \<noteq> [] then
        bindE (wrapE ''decoding FOpts MAC commands'' (DecodeFOptsToMACCommands L phy)) (\<lambda>phy.
        bindE (collectMACCommands L (fh_FOpts (mp_FHDR (mac_in phy mac)))) (\<lambda>cmds.
        Inr (phy, mac_in phy mac, out\<lparr>dl_MACCommands := dl_MACCommands out @ cmds\<rparr>)))
      else Inr (phy, mac, out))"

text \<open>The FRMPayload: MAC commands under the NwkSKey on port 0, application data otherwise.\<close>

definition parse_frm :: "lorawan \<Rightarrow> downlink_params \<Rightarrow> phy \<Rightarrow> mac_payload \<Rightarrow> downlink \<Rightarrow> downlink res" where
  "parse_frm L p phy mac out =
     (case mp_FPort mac of
        None \<Rightarrow> Inr out
      | Some fport \<Rightarrow>
          let out = out\<lparr>dl_FPort := fport\<rparr> in
          if fport = 0 then
            bindE (wrapE ''decrypting MAC FRMPayload'' (DecryptFRMPayload L (dp_NwkSKey p) phy)) (\<lambda>phy.
            bindE (wrapE ''decoding FRMPayload MAC commands'' (DecodeFRMPayloadToMACCommands L phy)) (\<lambda>phy.
            bindE (collectMACCommands L (mp_FRMPayload (mac_in phy mac))) (\<lambda>cmds.
            Inr (out\<lparr>dl_MACCommands := dl_MACCommands out @ cmds\<rparr>))))
          else
            bindE (wrapE ''decrypting FRMPayload'' (DecryptFRMPayload L (dp_AppSKey p) phy)) (\<lambda>phy.
            case firstDataPayload (mp_FRMPayload (mac_in phy mac)) of
              Some d \<Rightarrow> Inr (out\<lparr>dl_Payload := d\<rparr>)
            | None \<Rightarrow> Inr out))"

definition ParseDownlink :: "lorawan \<Rightarrow> downlink_params \<Rightarrow> bytes \<Rightarrow> downlink res" where
  "ParseDownlink L p data =
     bindE (wrapE ''unmarshaling downlink'' (phy_UnmarshalBinary L data)) (\<lambda>phy.
     if phy_MType phy \<notin> {UnconfirmedDataDown, ConfirmedDataDown} then Inl (Err ''not a data downlink'')
     else
       bindE (wrapE ''validating downlink MIC'' (ValidateDownlinkDataMIC L 0 (dp_NwkSKey p) phy)) (\<lambda>ok.
       if \<not> ok then Inl (Err ''downlink MIC is invalid'')
       else case phy_MAC phy of
         MACPayload mac \<Rightarrow>
           let out = \<lparr>dl_FPort = 0, dl_FCnt = fh_FCnt (mp_FHDR mac), dl_Confirmed = (phy_MType phy = ConfirmedDataDown),
                      dl_ACK = fc_ACK (fh_FCtrl (mp_FHDR mac)), dl_FPending = fc_FPending (fh_FCtrl (mp_FHDR mac)),
                      dl_Payload = [], dl_MACCommands = []\<rparr> in
           bindE (parse_fopts L phy mac out) (\<lambda>(phy, mac, out).
           parse_frm L p phy mac out)
       | _ \<Rightarrow> Inl (Err ''downlink payload has unexpected type'')))"

section \<open>What is accepted\<close>

lemma BuildJoinRequest_Inr:
  "BuildJoinRequest L p n = Inr b \<longleftrightarrow>
     (\<exists>q. SetUplinkJoinMIC L (pr_AppKey p) (phy_frame JoinRequest (JoinRequestPayload
            \<lparr>jr_JoinEUI = pr_JoinEUI p, jr_DevEUI = pr_DevEUI p, jr_DevNonce = n\<rparr>)) = Inr q \<and>
        phy_MarshalBinary L q = Inr b)"
  by (auto simp: BuildJoinRequest_def Let_def res_simps)

lemma ParseJoinAccept_Inr:
  assumes "ParseJoinAccept A L p n data = Inr r"
  obtains q q' ja where "phy_UnmarshalBinary L data = Inr q"
    "DecryptJoinAcceptPayload L (pr_AppKey p) q = Inr q'"
    "ValidateDownlinkJoinMIC L (pr_JoinEUI p) n (pr_AppKey p) q' = Inr True"
    "phy_MAC q' = JoinAcceptPayload ja"
    "DeriveNwkSKey A L (pr_AppKey p) (ja_HomeNetID ja) (ja_JoinNonce ja) n = Inr (jres_NwkSKey r)"
    "DeriveAppSKey A L (pr_AppKey p) (ja_HomeNetID ja) (ja_JoinNonce ja) n = Inr (jres_AppSKey r)"
    "jres_DevAddr r = ja_DevAddr ja" "jres_RxDelay r = ja_RXDelay ja"
    "jres_RX1DROffset r = ja_RX1DROffset ja" "jres_RX2DataRate r = ja_RX2DataRate ja"
  using assms by (auto simp: ParseJoinAccept_def res_simps split: if_splits mac_pl.splits)

lemma collectMACCommands_append:
  assumes "collectMACCommands L ps = Inr a" and "collectMACCommands L qs = Inr b"
  shows "collectMACCommands L (ps @ qs) = Inr (a @ b)"
  using assms
proof (induction L ps arbitrary: a rule: collectMACCommands.induct)
  case (3 L c ps)
  then show ?case by (auto simp: res_simps split: list.splits)
qed (auto simp: res_simps)

lemma ParseDownlink_Inr:
  assumes "ParseDownlink L p data = Inr d"
  obtains q m where "phy_UnmarshalBinary L data = Inr q"
    "phy_MType q = UnconfirmedDataDown \<or> phy_MType q = ConfirmedDataDown"
    "ValidateDownlinkDataMIC L 0 (dp_NwkSKey p) q = Inr True" "phy_MAC q = MACPayload m"
    "dl_FCnt d = fh_FCnt (mp_FHDR m)"
  using assms
  apply (auto simp: ParseDownlink_def res_simps Let_def split: if_splits mac_pl.splits)
   apply (auto simp: parse_fopts_def parse_frm_def res_simps Let_def split: if_splits option.splits)
  done

section \<open>Frames that the network server builds\<close>

definition app_downlink :: "u8 \<Rightarrow> u32 \<Rightarrow> bytes \<Rightarrow> downlink" where
  "app_downlink fport fcnt data =
     \<lparr>dl_FPort = fport, dl_FCnt = fcnt, dl_Confirmed = False, dl_ACK = False, dl_FPending = False,
      dl_Payload = data, dl_MACCommands = []\<rparr>"

lemma ParseDownlink_built:
  assumes "lorawan_ok L"
    and "EncryptFRMPayload L app (phy_frame UnconfirmedDataDown (data_pl addr plain_fctrl fcnt fport data)) = Inr p1"
    and "SetDownlinkDataMIC L 0 nwk p1 = Inr p2" and "phy_MarshalBinary L p2 = Inr b"
    and "length addr = 4" and "data \<noteq> []" and "unat fcnt < 65536" and "fport \<noteq> 0"
    and "dp_NwkSKey p = nwk" and "dp_AppSKey p = app"
  shows "ParseDownlink L p b = Inr (app_downlink fport fcnt data)"
proof -
  from assms(1) have ok: "marshal_ok L" "frm_crypt_ok L" "data_mic_ok L" by (simp_all add: lorawan_ok_def)
  obtain enc where enc: "p1 = phy_frame UnconfirmedDataDown (data_pl addr plain_fctrl fcnt fport enc)" "length enc = length data"
    and dec: "\<And>mic. DecryptFRMPayload L app (p1\<lparr>phy_MIC := mic\<rparr>) =
       Inr (phy_frame UnconfirmedDataDown (data_pl addr plain_fctrl fcnt fport data)\<lparr>phy_MIC := mic\<rparr>)"
    using ok(2) assms(2) unfolding frm_crypt_ok_def by blast
  obtain mic where mic: "length mic = 4" "p2 = p1\<lparr>phy_MIC := mic\<rparr>" "ValidateDownlinkDataMIC L 0 nwk p2 = Inr True"
    using ok(3) assms(3) unfolding data_mic_ok_def by blast
  have "wire_data addr fcnt enc mic"
    using assms(5-7) enc(2) mic(1) by (auto simp: wire_data_def)
  then have u: "phy_UnmarshalBinary L b = Inr p2"
    using ok(1) assms(4) unfolding marshal_ok_def mic(2) enc(1) by blast
  have m: "phy_MAC p2 = data_pl addr plain_fctrl fcnt fport enc" "phy_MType p2 = UnconfirmedDataDown"
    by (simp_all add: mic(2) enc(1) phy_frame_def)
  have d: "DecryptFRMPayload L app p2 = Inr (phy_frame UnconfirmedDataDown (data_pl addr plain_fctrl fcnt fport data)\<lparr>phy_MIC := mic\<rparr>)"
    using dec [of mic] by (simp add: mic(2))
  show ?thesis
    unfolding ParseDownlink_def
    by (simp add: u m mic(3) assms(8-10) data_pl_def parse_fopts_def parse_frm_def d mac_in_def phy_frame_def
        app_downlink_def plain_fctrl_def)
qed

lemma ParseJoinAccept_built:
  assumes "lorawan_ok L" and "aes_block_ok A"
    and "SetDownlinkJoinMIC L (pr_JoinEUI p) n (pr_AppKey p) (phy_frame JoinAccept (JoinAcceptPayload ja)) = Inr p1"
    and "EncryptJoinAcceptPayload L (pr_AppKey p) p1 = Inr p2" and "phy_MarshalBinary L p2 = Inr b"
    and "DeriveNwkSKey A L (pr_AppKey p) (ja_HomeNetID ja) (ja_JoinNonce ja) n = Inr nwk"
    and "DeriveAppSKey A L (pr_AppKey p) (ja_HomeNetID ja) (ja_JoinNonce ja) n = Inr app"
  shows "ParseJoinAccept A L p n b = Inr \<lparr>jres_DevAddr = ja_DevAddr ja, jres_NwkSKey = nwk, jres_AppSKey = app,
     jres_NetID = ja_HomeNetID ja, jres_JoinNonce = ja_JoinNonce ja, jres_RxDelay = ja_RXDelay ja,
     jres_RX1DROffset = ja_RX1DROffset ja, jres_RX2DataRate = ja_RX2DataRate ja, jres_CFList = ja_CFList ja\<rparr>
   \<and> length nwk = 16 \<and> length app = 16"
proof -
  obtain q q' where q: "phy_UnmarshalBinary L b = Inr q" "DecryptJoinAcceptPayload L (pr_AppKey p) q = Inr q'"
    "phy_MAC q' = JoinAcceptPayload ja" "ValidateDownlinkJoinMIC L (pr_JoinEUI p) n (pr_AppKey p) q' = Inr True"
    using assms(1,3-5) unfolding lorawan_ok_def join_accept_ok_def by blast
  have "wire_ids_ok L" using assms(1) by (simp add: lorawan_ok_def)
  then have "length nwk = 16" "length app = 16"
    using deriveSKey_length [OF assms(2)] assms(6,7) by (auto simp: DeriveNwkSKey_def DeriveAppSKey_def)
  then show ?thesis by (simp add: ParseJoinAccept_def q assms(6,7))
qed

section \<open>Runs of the instance\<close>

definition toy_prov :: provisioning where
  "toy_prov = \<lparr>pr_DevEUI = replicate 8 1, pr_JoinEUI = replicate 8 2, pr_AppKey = toy_app_key\<rparr>"

definition toy_ja :: join_accept_payload where
  "toy_ja = \<lparr>ja_JoinNonce = 1, ja_HomeNetID = [0, 0, 19], ja_DevAddr = [1, 2, 3, 4], ja_RX1DROffset = 0,
     ja_RX2DataRate = 0, ja_RXDelay = 1, ja_CFList = None\<rparr>"

lemma toy_derive: "length k = 16 \<Longrightarrow> length i = 3 \<Longrightarrow> unat j < 16777216 \<Longrightarrow>
    \<exists>nwk app. DeriveNwkSKey toy_aes toy_lorawan k i j n = Inr nwk \<and> DeriveAppSKey toy_aes toy_lorawan k i j n = Inr app"
  by (simp add: DeriveNwkSKey_def DeriveAppSKey_def deriveSKey_def toy_lorawan_def toy_aes_def)

lemma toy_join_accept_frame:
  assumes "length (ja_HomeNetID ja) = 3" and "length (ja_DevAddr ja) = 4" and "ja_CFList ja = None"
  obtains p1 p2 b where "SetDownlinkJoinMIC toy_lorawan e n k (phy_frame JoinAccept (JoinAcceptPayload ja)) = Inr p1"
    "EncryptJoinAcceptPayload toy_lorawan k p1 = Inr p2" "phy_MarshalBinary toy_lorawan p2 = Inr b"
  using assms by (simp add: toy_lorawan_def toy_mic_def toy_encrypt_join_def phy_frame_def toy_marshal_def)

lemma toy_down_frame:
  obtains p1 p2 b where "EncryptFRMPayload toy_lorawan app (phy_frame UnconfirmedDataDown (data_pl addr plain_fctrl f port d)) = Inr p1"
    "SetDownlinkDataMIC toy_lorawan 0 nwk p1 = Inr p2" "phy_MarshalBinary toy_lorawan p2 = Inr b"
  by (simp add: toy_lorawan_def toy_mic_def phy_frame_def data_pl_def toy_marshal_def)

lemma toy_accept:
  obtains b res where "ParseJoinAccept toy_aes toy_lorawan toy_prov n b = Inr res"
    "length (jres_DevAddr res) = 4" "length (jres_NwkSKey res) = 16" "length (jres_AppSKey res) = 16"
proof -
  obtain p1 p2 b where f: "SetDownlinkJoinMIC toy_lorawan (pr_JoinEUI toy_prov) n (pr_AppKey toy_prov) (phy_frame JoinAccept (JoinAcceptPayload toy_ja)) = Inr p1"
    "EncryptJoinAcceptPayload toy_lorawan (pr_AppKey toy_prov) p1 = Inr p2" "phy_MarshalBinary toy_lorawan p2 = Inr b"
    by (rule toy_join_accept_frame [of toy_ja "pr_JoinEUI toy_prov" n "pr_AppKey toy_prov"]) (simp_all add: toy_ja_def)
  obtain nwk app where k: "DeriveNwkSKey toy_aes toy_lorawan (pr_AppKey toy_prov) (ja_HomeNetID toy_ja) (ja_JoinNonce toy_ja) n = Inr nwk"
    "DeriveAppSKey toy_aes toy_lorawan (pr_AppKey toy_prov) (ja_HomeNetID toy_ja) (ja_JoinNonce toy_ja) n = Inr app"
    using toy_derive [of "pr_AppKey toy_prov" "ja_HomeNetID toy_ja" "ja_JoinNonce toy_ja" n]
    by (auto simp: toy_prov_def toy_ja_def toy_app_key_def)
  note built = ParseJoinAccept_built [OF toy_lorawan_ok toy_aes_ok f k]
  show thesis
    by (rule that [OF built [THEN conjunct1]]) (use built in \<open>simp_all add: toy_ja_def\<close>)
qed

end
