(* ===== verification/Gateway.thy ===== *)
theory Gateway
  imports Lns Frames
begin

text \<open>
  The gateway simulator (\<open>internal/gateway\<close>): the channel plan, the bridge that turns a tag's frame
  into a Basic Station message, the choice of the receive window, and the handlers that connect
  tags and network server. Tag connections are numbered; \<open>gw_wires c\<close> is what the gateway has
  written to connection \<open>c\<close>, and \<open>gw_local c\<close> the local variable \<open>devEUI\<close> of its handler. The network
  server is reached through an interface, as in the code: a record of three operations on a state
  \<open>'s\<close>.
\<close>

section \<open>Channel plan\<close>

record channel_plan =
  cp_Region :: string
  cp_NetIDs :: "u32 list"
  cp_JoinEUIRanges :: "(u64 \<times> u64) list"
  cp_FreqRange :: "u32 \<times> u32"
  cp_DRs :: "int list list"

definition ParseChannelPlan :: "router_config \<Rightarrow> channel_plan" where
  "ParseChannelPlan rc =
     \<lparr>cp_Region = rc_Region rc, cp_NetIDs = rc_NetID rc,
      cp_JoinEUIRanges = concat (map (\<lambda>r. case r of [b, e] \<Rightarrow> [(b, e)] | _ \<Rightarrow> []) (rc_JoinEui rc)),
      cp_FreqRange = (case rc_FreqRange rc of [b, e] \<Rightarrow> (b, e) | _ \<Rightarrow> (0, 0)),
      cp_DRs = rc_DRs rc\<rparr>"

definition AllowsJoinEUI :: "channel_plan \<Rightarrow> u64 \<Rightarrow> bool" where
  "AllowsJoinEUI cp eui = (cp_JoinEUIRanges cp = [] \<or> list_ex (\<lambda>(b, e). b \<le> eui \<and> eui \<le> e) (cp_JoinEUIRanges cp))"

section \<open>Uplink messages\<close>

definition defaultRSSI :: rat where "defaultRSSI = - 42"
definition defaultSNR :: rat where "defaultSNR = 9"

definition SynthUpInfo :: "int \<Rightarrow> int \<Rightarrow> up_info" where
  "SynthUpInfo rctx xtime =
     \<lparr>ui_RCtx = rctx, ui_XTime = xtime, ui_GpsTime = 0, ui_RSSI = defaultRSSI, ui_SNR = defaultSNR\<rparr>"

record parsed_uplink =
  pu_Message :: message
  pu_IsJoin :: bool
  pu_DevEUI :: string
  pu_DevAddr :: string

definition uplinkFCtrl :: "fctrl \<Rightarrow> nat \<Rightarrow> u8" where
  "uplinkFCtrl f foptsLen =
     (let b = 0 :: u8;
          b = (if fc_ADR f then or b 0x80 else b);
          b = (if fc_ADRACKReq f then or b 0x40 else b);
          b = (if fc_ACK f then or b 0x20 else b);
          b = (if fc_ClassB f then or b 0x10 else b)
      in or b (and (word_of_nat foptsLen) 0x0f))"

text \<open>A payload that cannot be marshalled is left out.\<close>

fun marshalPayloads :: "lorawan \<Rightarrow> payload list \<Rightarrow> bytes" where
  "marshalPayloads L [] = []"
| "marshalPayloads L (pl # pls) =
     (case Payload_MarshalBinary L pl of Inl e \<Rightarrow> marshalPayloads L pls | Inr b \<Rightarrow> b @ marshalPayloads L pls)"

definition ParseUplink :: "lorawan \<Rightarrow> string \<Rightarrow> u32 \<Rightarrow> u8 \<Rightarrow> up_info \<Rightarrow> parsed_uplink res" where
  "ParseUplink L phyHex freq dr info =
     bindE (wrapE ''decoding phy hex'' (hex_DecodeString phyHex)) (\<lambda>raw.
     bindE (wrapE ''unmarshaling phy'' (phy_UnmarshalBinary L raw)) (\<lambda>phy.
     case MHDR_MarshalBinary L phy of
       Inr [mhdr] \<Rightarrow>
         let mic = int32_of (le32 (phy_MIC phy)) in
         if phy_MType phy = JoinRequest then
           (case phy_MAC phy of
              JoinRequestPayload jr \<Rightarrow>
                let devEUI = hex_EncodeToString (jr_DevEUI jr) in
                Inr \<lparr>pu_Message = MJreq \<lparr>jq_MsgType = [], jq_MHdr = mhdr,
                       jq_JoinEui = hex_EncodeToString (jr_JoinEUI jr), jq_DevEui = devEUI,
                       jq_DevNonce = jr_DevNonce jr, jq_MIC = mic, jq_DR = dr, jq_Freq = freq, jq_UpInfo = info\<rparr>,
                     pu_IsJoin = True, pu_DevEUI = devEUI, pu_DevAddr = []\<rparr>
            | _ \<Rightarrow> Inl (Err ''join-request payload type''))
         else if phy_MType phy = UnconfirmedDataUp \<or> phy_MType phy = ConfirmedDataUp then
           (case phy_MAC phy of
              MACPayload mac \<Rightarrow>
                let fopts = marshalPayloads L (fh_FOpts (mp_FHDR mac));
                    frm = marshalPayloads L (mp_FRMPayload mac);
                    fport = (case mp_FPort mac of None \<Rightarrow> - 1 | Some p \<Rightarrow> uint p);
                    devAddr = hex_EncodeToString (fh_DevAddr (mp_FHDR mac)) in
                Inr \<lparr>pu_Message = MUpdf \<lparr>uf_MsgType = [], uf_MHdr = mhdr,
                       uf_DevAddr = int32_of (be32 (fh_DevAddr (mp_FHDR mac))),
                       uf_FCtrl = uplinkFCtrl (fh_FCtrl (mp_FHDR mac)) (length fopts),
                       uf_FCnt = fh_FCnt (mp_FHDR mac), uf_FOpts = hex_EncodeToString fopts, uf_FPort = fport,
                       uf_FRMPayload = hex_EncodeToString frm, uf_MIC = mic, uf_DR = dr, uf_Freq = freq, uf_UpInfo = info\<rparr>,
                     pu_IsJoin = False, pu_DevEUI = [], pu_DevAddr = devAddr\<rparr>
            | _ \<Rightarrow> Inl (Err ''data payload type''))
         else Inl (Err ''unsupported uplink mtype'')
     | Inr _ \<Rightarrow> Inl (Err ''marshaling MHDR'')
     | Inl e \<Rightarrow> Inl (Wrap ''marshaling MHDR'' e)))"

section \<open>Receive windows\<close>

record rx_choice =
  rx_Window :: string
  rx_Freq :: u32
  rx_DR :: u8

definition ChooseRXWindow :: "dnmsg \<Rightarrow> rx_choice" where
  "ChooseRXWindow dn =
     (if dn_DC dn = 2 then \<lparr>rx_Window = WindowClassC, rx_Freq = dn_RX2Freq dn, rx_DR = dn_RX2DR dn\<rparr>
      else if dn_RX1Freq dn \<noteq> 0 then \<lparr>rx_Window = WindowRX1, rx_Freq = dn_RX1Freq dn, rx_DR = dn_RX1DR dn\<rparr>
      else \<lparr>rx_Window = WindowRX2, rx_Freq = dn_RX2Freq dn, rx_DR = dn_RX2DR dn\<rparr>)"

section \<open>The gateway\<close>

record 's lns_sender =
  send_jreq :: "jreq \<Rightarrow> 's \<Rightarrow> (unit, 's) run"
  send_updf :: "updf \<Rightarrow> 's \<Rightarrow> (unit, 's) run"
  send_dntxed :: "dntxed \<Rightarrow> 's \<Rightarrow> (unit, 's) run"

definition lns_client :: "lns lns_sender" where
  "lns_client = \<lparr>send_jreq = SendJreq, send_updf = SendUpdf, send_dntxed = SendDntxed\<rparr>"

record gateway =
  gw_eui :: string
  gw_byDevEUI :: "string \<rightharpoonup> nat"
  gw_devAddrToEUI :: "string \<rightharpoonup> string"
  gw_xtime :: u64
  gw_wires :: "nat \<Rightarrow> string"
  gw_local :: "nat \<Rightarrow> string"

definition gateway_New :: "string \<Rightarrow> gateway" where
  "gateway_New eui = \<lparr>gw_eui = eui, gw_byDevEUI = Map.empty, gw_devAddrToEUI = Map.empty, gw_xtime = 0,
     gw_wires = (\<lambda>_. []), gw_local = (\<lambda>_. [])\<rparr>"

definition register :: "string \<Rightarrow> nat \<Rightarrow> gateway \<Rightarrow> gateway" where
  "register devEUI c g = g\<lparr>gw_byDevEUI := (gw_byDevEUI g)(devEUI \<mapsto> c)\<rparr>"

definition unregister :: "string \<Rightarrow> gateway \<Rightarrow> gateway" where
  "unregister devEUI g = g\<lparr>gw_byDevEUI := (gw_byDevEUI g)(devEUI := None)\<rparr>"

definition bindDevAddr :: "string \<Rightarrow> string \<Rightarrow> gateway \<Rightarrow> gateway" where
  "bindDevAddr devAddr devEUI g = g\<lparr>gw_devAddrToEUI := (gw_devAddrToEUI g)(devAddr \<mapsto> devEUI)\<rparr>"

definition gw_lookup :: "string \<Rightarrow> gateway \<Rightarrow> nat option" where
  "gw_lookup devEUI g = gw_byDevEUI g devEUI"

definition ConnCount :: "gateway \<Rightarrow> nat" where
  "ConnCount g = card (dom (gw_byDevEUI g))"

text \<open>\<open>xtime\<close> is a signed 64-bit clock.\<close>

definition handleUplink :: "lorawan \<Rightarrow> 's lns_sender \<Rightarrow> envelope \<Rightarrow> gateway \<times> 's \<Rightarrow> (unit, gateway \<times> 's) run" where
  "handleUplink L S env gs =
     (case gs of (g, s) \<Rightarrow>
      let g = g\<lparr>gw_xtime := gw_xtime g + 1\<rparr>; info = SynthUpInfo 0 (sint (gw_xtime g)) in
      seqE (ParseUplink L (en_Phy env) (en_Freq env) (en_DR env) info, g, s) (\<lambda>pu (g, s).
      case pu_Message pu of
        MJreq m \<Rightarrow> (case send_jreq S m s of (r, s) \<Rightarrow> (r, g, s))
      | MUpdf m \<Rightarrow>
          let g = (if pu_DevAddr pu \<noteq> [] then bindDevAddr (pu_DevAddr pu) (en_DevEUI env) g else g) in
          (case send_updf S m s of (r, s) \<Rightarrow> (r, g, s))
      | _ \<Rightarrow> (Inl (Err ''unexpected parsed message''), g, s)))"

text \<open>One round of the loop of \<open>handleConn\<close> on connection \<open>c\<close>, and what it defers.\<close>

definition handle_env :: "lorawan \<Rightarrow> 's lns_sender \<Rightarrow> nat \<Rightarrow> envelope \<Rightarrow> gateway \<times> 's \<Rightarrow> gateway \<times> 's" where
  "handle_env L S c env gs =
     (if en_Type env = TypeHello then
        (case gs of (g, s) \<Rightarrow>
         let devEUI = en_DevEUI env;
             g = register devEUI c (g\<lparr>gw_local := (gw_local g)(c := devEUI)\<rparr>);
             g = (if en_DevAddr env \<noteq> [] then bindDevAddr (en_DevAddr env) devEUI g else g)
         in (g, s))
      else if en_Type env = TypeUp then snd (handleUplink L S env gs)
      else gs)"

definition conn_gone :: "nat \<Rightarrow> gateway \<Rightarrow> gateway" where
  "conn_gone c g = (if gw_local g c \<noteq> [] then unregister (gw_local g c) g else g)"

text \<open>\<open>handleConn\<close> over all the bytes a tag sends before it closes.\<close>

function handleConn :: "lorawan \<Rightarrow> 's lns_sender \<Rightarrow> nat \<Rightarrow> string \<Rightarrow> gateway \<times> 's \<Rightarrow> gateway \<times> 's" where
  "handleConn L S c input gs =
     (case conn_Read input of
        (Inl e, r) \<Rightarrow> (conn_gone c (fst gs), snd gs)
      | (Inr env, r) \<Rightarrow> handleConn L S c r (handle_env L S c env gs))"
  by pat_completeness auto
termination
  by (relation "measure (\<lambda>(L, S, c, input, gs). length input)") (auto dest: conn_Read_shorter [OF sym])

declare handleConn.simps [simp del]

definition down_envelope :: "dnmsg \<Rightarrow> envelope" where
  "down_envelope dn =
     (let rx = ChooseRXWindow dn in
      zero_envelope\<lparr>en_Type := TypeDown, en_DevEUI := dn_DevEui dn, en_Phy := dn_Pdu dn,
        en_Window := rx_Window rx, en_Freq := rx_Freq rx, en_DR := rx_DR rx\<rparr>)"

definition dntxed_of :: "dnmsg \<Rightarrow> dntxed" where
  "dntxed_of dn = \<lparr>dt_MsgType = [], dt_DIID = dn_DIID dn, dt_DevEui = dn_DevEui dn, dt_RCtx = dn_RCtx dn,
     dt_XTime = dn_XTime dn, dt_TxTime = 0, dt_GpsTime = 0\<rparr>"

text \<open>The downlink callback; \<open>w\<close> is the outcome of the write to the tag.\<close>

definition OnDnmsg :: "'s lns_sender \<Rightarrow> (nat \<times> err) option \<Rightarrow> dnmsg \<Rightarrow> gateway \<times> 's \<Rightarrow> gateway \<times> 's" where
  "OnDnmsg S w dn gs =
     (case gs of (g, s) \<Rightarrow>
      case gw_lookup (dn_DevEui dn) g of
        None \<Rightarrow> (g, s)
      | Some c \<Rightarrow>
          (case conn_Write w (down_envelope dn) (gw_wires g c) of
             (wire, r) \<Rightarrow>
               let g = g\<lparr>gw_wires := (gw_wires g)(c := wire)\<rparr> in
               if \<not> is_ok r then (g, s) else (g, snd (send_dntxed S (dntxed_of dn) s))))"

end
