(* ===== verification/MockLns.thy ===== *)
theory MockLns
  imports Gateway
begin

text \<open>
  The emulated network server (\<open>internal/mocklns\<close>). Its \<open>joinInfo\<close> objects are shared by reference:
  they live in a heap (a list that only grows), and the sessions map holds their addresses, so a push
  that has looked one up goes on using it after the device has joined again. Gateway connections are
  numbered; \<open>mk_out c\<close> is what was written to connection \<open>c\<close>, \<open>mk_faults\<close> the outcomes of the writes to
  come.
\<close>

record mock_config =
  mcfg_Region :: string
  mcfg_NetID :: net_id
  mcfg_AppKey :: aes128_key
  mcfg_DevAddr :: dev_addr
  mcfg_JoinNonce :: u32
  mcfg_RX2Freq :: u32
  mcfg_RX2DR :: u8
  mcfg_RxDelay :: int

definition withDefaults :: "mock_config \<Rightarrow> mock_config" where
  "withDefaults c =
     (let c = (if mcfg_Region c = [] then c\<lparr>mcfg_Region := ''EU863''\<rparr> else c);
          c = (if mcfg_RX2Freq c = 0 then c\<lparr>mcfg_RX2Freq := 869525000\<rparr> else c)
      in if mcfg_RxDelay c = 0 then c\<lparr>mcfg_RxDelay := 1\<rparr> else c)"

record join_info =
  ji_joinNonce :: u32
  ji_devNonce :: u16
  ji_fcntDown :: u32

record mock =
  mk_cfg :: mock_config
  mk_joinNonce :: u32
  mk_diid :: u64
  mk_updfs :: "updf list"
  mk_conn :: "nat option"
  mk_sessions :: "string \<rightharpoonup> nat"
  mk_heap :: "join_info list"
  mk_out :: "nat \<Rightarrow> string list"
  mk_faults :: "err option list"

definition mock_New :: "mock_config \<Rightarrow> mock" where
  "mock_New cfg =
     (let cfg = withDefaults cfg in
      \<lparr>mk_cfg = cfg, mk_joinNonce = mcfg_JoinNonce cfg, mk_diid = 0, mk_updfs = [], mk_conn = None,
       mk_sessions = Map.empty, mk_heap = [], mk_out = (\<lambda>_. []), mk_faults = []\<rparr>)"

definition Uplinks :: "mock \<Rightarrow> updf list" where
  "Uplinks m = mk_updfs m"

definition mock_write :: "nat \<Rightarrow> string \<Rightarrow> mock \<Rightarrow> (unit, mock) run" where
  "mock_write c b m =
     (case ws_write (mk_faults m) b (mk_out m c) of
        (r, out, fs) \<Rightarrow> (r, m\<lparr>mk_out := (mk_out m)(c := out), mk_faults := fs\<rparr>))"

definition mock_send :: "nat \<Rightarrow> message \<Rightarrow> mock \<Rightarrow> (unit, mock) run" where
  "mock_send c msg m = seqE (Encode msg, m) (\<lambda>b m. mock_write c b m)"

definition mock_parseEUI64 :: "string \<Rightarrow> eui64 res" where
  "mock_parseEUI64 s =
     bindE (wrapE ''parse EUI64'' (hex_DecodeString s)) (\<lambda>b.
     if length b \<noteq> 8 then Inl (Err ''EUI64 must be 8 bytes'') else Inr b)"

definition netIDToUint32 :: "net_id \<Rightarrow> u32" where
  "netIDToUint32 n = or (or (push_bit 16 (ucast (n ! 0))) (push_bit 8 (ucast (n ! 1)))) (ucast (n ! 2))"

definition mock_routerConfig :: "mock \<Rightarrow> router_config" where
  "mock_routerConfig m =
     \<lparr>rc_MsgType = TypeRouterConfig, rc_NetID = [netIDToUint32 (mcfg_NetID (mk_cfg m))], rc_JoinEui = [[0, - 1]],
      rc_Region = mcfg_Region (mk_cfg m), rc_HwSpec = ''sx1301/1'', rc_FreqRange = [863000000, 870000000],
      rc_DRs = [[12, 125, 0], [11, 125, 0], [10, 125, 0], [9, 125, 0], [8, 125, 0], [7, 125, 0]],
      rc_Sx1301Conf = None, rc_NoCCA = True, rc_NoDC = True, rc_NoDwell = True, rc_MaxEIRP = 16\<rparr>"

section \<open>Joins\<close>

definition join_accept_of :: "mock_config \<Rightarrow> u32 \<Rightarrow> join_accept_payload" where
  "join_accept_of cfg joinNonce =
     \<lparr>ja_JoinNonce = joinNonce, ja_HomeNetID = mcfg_NetID cfg, ja_DevAddr = mcfg_DevAddr cfg, ja_RX1DROffset = 0,
      ja_RX2DataRate = mcfg_RX2DR cfg, ja_RXDelay = word_of_int (mcfg_RxDelay cfg), ja_CFList = None\<rparr>"

definition buildJoinAccept :: "lorawan \<Rightarrow> mock_config \<Rightarrow> jreq \<Rightarrow> u32 \<Rightarrow> bytes res" where
  "buildJoinAccept L cfg jr joinNonce =
     bindE (mock_parseEUI64 (jq_JoinEui jr)) (\<lambda>joinEUI.
     bindE (SetDownlinkJoinMIC L joinEUI (jq_DevNonce jr) (mcfg_AppKey cfg)
              (phy_frame JoinAccept (JoinAcceptPayload (join_accept_of cfg joinNonce)))) (\<lambda>phy.
     bindE (EncryptJoinAcceptPayload L (mcfg_AppKey cfg) phy) (\<lambda>phy.
     phy_MarshalBinary L phy)))"

definition accept_dnmsg :: "mock_config \<Rightarrow> jreq \<Rightarrow> u64 \<Rightarrow> bytes \<Rightarrow> dnmsg" where
  "accept_dnmsg cfg jr diid accept =
     \<lparr>dn_MsgType = TypeDnmsg, dn_DevEui = jq_DevEui jr, dn_DC = 0, dn_DIID = sint diid,
      dn_Pdu = hex_EncodeToString accept, dn_RxDelay = mcfg_RxDelay cfg, dn_RX1DR = jq_DR jr, dn_RX1Freq = jq_Freq jr,
      dn_RX2DR = mcfg_RX2DR cfg, dn_RX2Freq = mcfg_RX2Freq cfg, dn_Priority = 0,
      dn_XTime = ui_XTime (jq_UpInfo jr), dn_RCtx = ui_RCtx (jq_UpInfo jr)\<rparr>"

definition remember :: "jreq \<Rightarrow> u32 \<Rightarrow> mock \<Rightarrow> mock" where
  "remember jr joinNonce m =
     m\<lparr>mk_heap := mk_heap m @ [\<lparr>ji_joinNonce = joinNonce, ji_devNonce = jq_DevNonce jr, ji_fcntDown = 0\<rparr>],
       mk_sessions := (mk_sessions m)(jq_DevEui jr \<mapsto> length (mk_heap m))\<rparr>"

definition handleJreq :: "lorawan \<Rightarrow> nat \<Rightarrow> jreq \<Rightarrow> mock \<Rightarrow> (unit, mock) run" where
  "handleJreq L c jr m =
     (let joinNonce = mk_joinNonce m + 1; m = m\<lparr>mk_joinNonce := joinNonce\<rparr> in
      seqE (wrapE ''building join-accept'' (buildJoinAccept L (mk_cfg m) jr joinNonce), m) (\<lambda>accept m.
      let m = remember jr joinNonce m; diid = mk_diid m + 1; m = m\<lparr>mk_diid := diid\<rparr> in
      mock_send c (MDnmsg (accept_dnmsg (mk_cfg m) jr diid accept)) m))"

text \<open>The loop of \<open>serve\<close> over its reads: \<open>None\<close> while the next read blocks.\<close>

fun mock_loop :: "lorawan \<Rightarrow> nat \<Rightarrow> string res list \<Rightarrow> mock \<Rightarrow> unit res option \<times> mock" where
  "mock_loop L c [] m = (None, m)"
| "mock_loop L c (Inl e # rs) m = (Some (Inl e), m)"
| "mock_loop L c (Inr data # rs) m =
     (case Decode data of
        Inr (MJreq jr) \<Rightarrow>
          (case handleJreq L c jr m of
             (Inl e, m) \<Rightarrow> (Some (Inl e), m)
           | (Inr _, m) \<Rightarrow> mock_loop L c rs m)
      | Inr (MUpdf u) \<Rightarrow> mock_loop L c rs (m\<lparr>mk_updfs := mk_updfs m @ [u]\<rparr>)
      | _ \<Rightarrow> mock_loop L c rs m)"

definition serve :: "lorawan \<Rightarrow> nat \<Rightarrow> string res list \<Rightarrow> mock \<Rightarrow> unit res option \<times> mock" where
  "serve L c reads m =
     (let m = m\<lparr>mk_conn := Some c\<rparr> in
      case reads of
        [] \<Rightarrow> (None, m)
      | Inl e # rs \<Rightarrow> (Some (Inl e), m)
      | Inr _ # rs \<Rightarrow>
          (case mock_send c (MRouterConfig (mock_routerConfig m)) m of
             (Inl e, m) \<Rightarrow> (Some (Inl e), m)
           | (Inr _, m) \<Rightarrow> mock_loop L c rs m))"

text \<open>
  The HTTP handler: nothing happens when the WebSocket is not accepted. The server goes on holding the
  connection of a session that has ended, until the next one.
\<close>

definition mock_Handler :: "lorawan \<Rightarrow> err option \<Rightarrow> nat \<Rightarrow> string res list \<Rightarrow> mock \<Rightarrow> mock" where
  "mock_Handler L accept_error c reads m = (case accept_error of Some e \<Rightarrow> m | None \<Rightarrow> snd (serve L c reads m))"

section \<open>Class C downlinks\<close>

definition buildDataDownlink ::
  "lorawan \<Rightarrow> aes128_key \<Rightarrow> aes128_key \<Rightarrow> dev_addr \<Rightarrow> u32 \<Rightarrow> u8 \<Rightarrow> bytes \<Rightarrow> bytes res" where
  "buildDataDownlink L nwk app devAddr fcnt fport data =
     bindE (EncryptFRMPayload L app (phy_frame UnconfirmedDataDown (data_pl devAddr plain_fctrl fcnt fport data))) (\<lambda>phy.
     bindE (SetDownlinkDataMIC L 0 nwk phy) (\<lambda>phy.
     phy_MarshalBinary L phy))"

text \<open>
  \<open>PushClassC\<close> in two parts: what it does under the lock, and the rest, which reads the shared
  \<open>joinInfo\<close> again without it. Another push or a join may come between the two.
\<close>

definition push_lock :: "string \<Rightarrow> mock \<Rightarrow> (nat option \<times> nat option) \<times> mock" where
  "push_lock devEUI m =
     (case mk_sessions m devEUI of
        None \<Rightarrow> ((mk_conn m, None), m)
      | Some a \<Rightarrow> ((mk_conn m, Some a),
          m\<lparr>mk_heap := (mk_heap m)[a := (mk_heap m ! a)\<lparr>ji_fcntDown := ji_fcntDown (mk_heap m ! a) + 1\<rparr>]\<rparr>))"

definition push_dnmsg :: "mock_config \<Rightarrow> string \<Rightarrow> u64 \<Rightarrow> bytes \<Rightarrow> dnmsg" where
  "push_dnmsg cfg devEUI diid pdu =
     \<lparr>dn_MsgType = TypeDnmsg, dn_DevEui = devEUI, dn_DC = 2, dn_DIID = sint diid, dn_Pdu = hex_EncodeToString pdu,
      dn_RxDelay = 0, dn_RX1DR = 0, dn_RX1Freq = 0, dn_RX2DR = mcfg_RX2DR cfg, dn_RX2Freq = mcfg_RX2Freq cfg,
      dn_Priority = 0, dn_XTime = 0, dn_RCtx = 0\<rparr>"

definition push_rest ::
  "aes_lib \<Rightarrow> lorawan \<Rightarrow> string \<Rightarrow> u8 \<Rightarrow> bytes \<Rightarrow> nat option \<times> nat option \<Rightarrow> mock \<Rightarrow> (unit, mock) run" where
  "push_rest A L devEUI fport data found m =
     (case found of
        (None, _) \<Rightarrow> (Inl (Err ''no gateway connected''), m)
      | (Some c, None) \<Rightarrow> (Inl (Err ''device has not joined''), m)
      | (Some c, Some a) \<Rightarrow>
          let cfg = mk_cfg m; ji = mk_heap m ! a in
          seqE (DeriveNwkSKey A L (mcfg_AppKey cfg) (mcfg_NetID cfg) (ji_joinNonce ji) (ji_devNonce ji), m) (\<lambda>nwk m.
          seqE (DeriveAppSKey A L (mcfg_AppKey cfg) (mcfg_NetID cfg) (ji_joinNonce ji) (ji_devNonce ji), m) (\<lambda>app m.
          seqE (buildDataDownlink L nwk app (mcfg_DevAddr cfg) (ji_fcntDown ji - 1) fport data, m) (\<lambda>pdu m.
          let diid = mk_diid m + 1; m = m\<lparr>mk_diid := diid\<rparr> in
          mock_send c (MDnmsg (push_dnmsg cfg devEUI diid pdu)) m))))"

definition PushClassC :: "aes_lib \<Rightarrow> lorawan \<Rightarrow> string \<Rightarrow> u8 \<Rightarrow> bytes \<Rightarrow> mock \<Rightarrow> (unit, mock) run" where
  "PushClassC A L devEUI fport data m =
     (case push_lock devEUI m of (found, m) \<Rightarrow> push_rest A L devEUI fport data found m)"

section \<open>The state it keeps\<close>

text \<open>Addresses point into the heap, and one address serves one device.\<close>

definition mock_ok :: "mock \<Rightarrow> bool" where
  "mock_ok m =
     ((\<forall>d a. mk_sessions m d = Some a \<longrightarrow> a < length (mk_heap m)) \<and>
      (\<forall>d d' a. mk_sessions m d = Some a \<longrightarrow> mk_sessions m d' = Some a \<longrightarrow> d = d'))"

lemma mock_write_frame:
  "mk_sessions (snd (mock_write c b m)) = mk_sessions m" "mk_heap (snd (mock_write c b m)) = mk_heap m"
  "mk_cfg (snd (mock_write c b m)) = mk_cfg m" "mk_joinNonce (snd (mock_write c b m)) = mk_joinNonce m"
  by (simp_all add: mock_write_def split: prod.splits)

lemma mock_send_frame:
  "mk_sessions (snd (mock_send c msg m)) = mk_sessions m" "mk_heap (snd (mock_send c msg m)) = mk_heap m"
  "mk_cfg (snd (mock_send c msg m)) = mk_cfg m" "mk_joinNonce (snd (mock_send c msg m)) = mk_joinNonce m"
  by (simp_all add: mock_send_def Encode_def mock_write_frame)

lemma mock_send_ok:
  "mk_faults m = [] \<Longrightarrow> mock_send c msg m = (Inr (), m\<lparr>mk_out := (mk_out m)(c := mk_out m c @ [json_print (enc_message msg)])\<rparr>)"
  by (simp add: mock_send_def mock_write_def Encode_def)

lemma remember_ok: "mock_ok m \<Longrightarrow> mock_ok (remember jr j m)"
  by (auto simp: mock_ok_def remember_def less_Suc_eq)

lemma mock_ok_frame:
  "mk_sessions m' = mk_sessions m \<Longrightarrow> mk_heap m' = mk_heap m \<Longrightarrow> mock_ok m' = mock_ok m"
  by (simp add: mock_ok_def)

lemma handleJreq_ok:
  assumes "mock_ok m"
  shows "mock_ok (snd (handleJreq L c jr m))"
proof -
  define m1 where "m1 = m\<lparr>mk_joinNonce := mk_joinNonce m + 1\<rparr>"
  have ok1: "mock_ok m1" using assms by (simp add: m1_def mock_ok_def)
  show ?thesis
  proof (cases "buildJoinAccept L (mk_cfg m) jr (mk_joinNonce m + 1)")
    case (Inl e)
    then show ?thesis using ok1 by (simp add: handleJreq_def Let_def m1_def)
  next
    case (Inr accept)
    define m2 where "m2 = (remember jr (mk_joinNonce m + 1) m1)\<lparr>mk_diid := mk_diid m + 1\<rparr>"
    have "mock_ok m2"
      using remember_ok [OF ok1, of jr "mk_joinNonce m + 1"] by (simp add: m2_def mock_ok_def)
    moreover have "handleJreq L c jr m = mock_send c (MDnmsg (accept_dnmsg (mk_cfg m) jr (mk_diid m + 1) accept)) m2"
      using Inr by (simp add: handleJreq_def Let_def m2_def m1_def remember_def)
    ultimately show ?thesis
      using mock_ok_frame [OF mock_send_frame(1,2)] by simp
  qed
qed

lemma mock_loop_ok: "mock_ok m \<Longrightarrow> mock_ok (snd (mock_loop L c rs m))"
proof (induction rs arbitrary: m)
  case (Cons r rs)
  show ?case
  proof (cases r)
    case (Inr data)
    have "mock_ok (snd (handleJreq L c jr m))" for jr by (rule handleJreq_ok [OF Cons.prems])
    moreover have "mock_ok (m\<lparr>mk_updfs := us\<rparr>)" for us using Cons.prems by (simp add: mock_ok_def)
    ultimately show ?thesis
      using Cons.IH Cons.prems Inr by (auto split: prod.splits sum.splits message.splits) (metis snd_conv)+
  qed (simp add: Cons.prems)
qed simp

lemma mock_Handler_ok: "mock_ok m \<Longrightarrow> mock_ok (mock_Handler L e c reads m)"
proof -
  assume ok: "mock_ok m"
  have "mock_ok (snd (serve L c reads m))"
  proof (cases reads)
    case (Cons x rs)
    obtain r m1 where s: "mock_send c (MRouterConfig (mock_routerConfig (m\<lparr>mk_conn := Some c\<rparr>))) (m\<lparr>mk_conn := Some c\<rparr>) = (r, m1)" by fastforce
    have "mock_ok (m\<lparr>mk_conn := Some c\<rparr>)" using ok by (simp add: mock_ok_def)
    then have "mock_ok m1" using mock_ok_frame [OF mock_send_frame(1,2)] s by (metis snd_conv)
    with ok Cons s show ?thesis
      by (cases x; cases r) (auto simp: serve_def Let_def mock_ok_def [of "_\<lparr>mk_conn := _\<rparr>"] mock_ok_def [of m] intro: mock_loop_ok)
  qed (use ok in \<open>simp add: serve_def mock_ok_def\<close>)
  with ok show ?thesis by (simp add: mock_Handler_def split: option.splits)
qed

lemma push_lock_ok: "mock_ok m \<Longrightarrow> mock_ok (snd (push_lock d m))"
  by (auto simp: push_lock_def mock_ok_def split: option.splits)

end
