(* ===== verification/Bridge.thy ===== *)
theory Bridge
  imports Gateway
begin

text \<open>
  What the gateway promises: the bridge forwards what the tag built without decrypting it, the link
  to the network server, and the routing of downlinks by DevEUI over any sequence of events.
\<close>

section \<open>From a tag's frame to a message\<close>

text \<open>The header marshals to one byte, and a data payload to its bytes.\<close>

definition bridge_ok :: "lorawan \<Rightarrow> bool" where
  "bridge_ok L =
     ((\<forall>p. \<exists>b. MHDR_MarshalBinary L p = Inr [b]) \<and>
      (\<forall>d. Payload_MarshalBinary L (DataPayload d) = Inr d))"

lemma toy_bridge: "bridge_ok toy_lorawan"
  by (simp add: bridge_ok_def toy_lorawan_def)

definition uplink_type :: "uplink_params \<Rightarrow> m_type" where
  "uplink_type p = (if up_Confirmed p then ConfirmedDataUp else UnconfirmedDataUp)"

definition uplink_fctrl :: "uplink_params \<Rightarrow> fctrl" where
  "uplink_fctrl p = plain_fctrl\<lparr>fc_ADR := up_ADR p, fc_ACK := up_ACK p\<rparr>"

definition uplink_key :: "uplink_params \<Rightarrow> aes128_key" where
  "uplink_key p = (if up_FPort p = 0 then up_NwkSKey p else up_AppSKey p)"

definition uplink_frame :: "uplink_params \<Rightarrow> bytes \<Rightarrow> phy" where
  "uplink_frame p data = phy_frame (uplink_type p) (data_pl (up_DevAddr p) (uplink_fctrl p) (up_FCnt p) (up_FPort p) data)"

lemma BuildUplink_built:
  assumes "lorawan_ok L" and "BuildUplink L p = Inr frame"
    and "length (up_DevAddr p) = 4" and "unat (up_FCnt p) < 65536" and "up_Data p \<noteq> []"
  obtains enc mic where "EncryptFRMPayload L (uplink_key p) (uplink_frame p (up_Data p)) = Inr (uplink_frame p enc)"
    "length enc = length (up_Data p)" "length mic = 4"
    "\<And>mic. DecryptFRMPayload L (uplink_key p) ((uplink_frame p enc)\<lparr>phy_MIC := mic\<rparr>) =
        Inr ((uplink_frame p (up_Data p))\<lparr>phy_MIC := mic\<rparr>)"
    "phy_UnmarshalBinary L frame = Inr ((uplink_frame p enc)\<lparr>phy_MIC := mic\<rparr>)"
proof -
  from assms(1) have ok: "marshal_ok L" "frm_crypt_ok L" "data_mic_ok L" by (simp_all add: lorawan_ok_def)
  obtain p1 p2 where b: "EncryptFRMPayload L (uplink_key p) (uplink_frame p (up_Data p)) = Inr p1"
    "SetUplinkDataMIC L 0 0 0 (up_NwkSKey p) (up_NwkSKey p) p1 = Inr p2" "phy_MarshalBinary L p2 = Inr frame"
    using assms(2) unfolding BuildUplink_def uplink_frame_def uplink_type_def uplink_key_def uplink_fctrl_def
      data_pl_def plain_fctrl_def
    by (simp add: res_simps Let_def) blast
  obtain enc where enc: "p1 = uplink_frame p enc" "length enc = length (up_Data p)"
    and dec: "\<And>mic. DecryptFRMPayload L (uplink_key p) (p1\<lparr>phy_MIC := mic\<rparr>) =
       Inr ((uplink_frame p (up_Data p))\<lparr>phy_MIC := mic\<rparr>)"
    using ok(2) b(1) unfolding frm_crypt_ok_def uplink_frame_def by blast
  obtain mic where mic: "length mic = 4" "p2 = p1\<lparr>phy_MIC := mic\<rparr>"
    using ok(3) b(2) unfolding data_mic_ok_def by blast
  have w: "wire_data (up_DevAddr p) (up_FCnt p) enc mic"
    using assms(3-5) enc(2) mic(1) by (auto simp: wire_data_def)
  have t: "uplink_type p \<in> {UnconfirmedDataUp, ConfirmedDataUp, UnconfirmedDataDown}" by (simp add: uplink_type_def)
  have "phy_UnmarshalBinary L frame = Inr ((uplink_frame p enc)\<lparr>phy_MIC := mic\<rparr>)"
    using ok(1) b(3) w t unfolding marshal_ok_def mic(2) enc(1) uplink_frame_def by blast
  with that b(1) enc mic dec show thesis by simp
qed

definition bridged_updf :: "uplink_params \<Rightarrow> bytes \<Rightarrow> bytes \<Rightarrow> u8 \<Rightarrow> u32 \<Rightarrow> u8 \<Rightarrow> up_info \<Rightarrow> updf" where
  "bridged_updf p enc mic mhdr freq dr info =
     \<lparr>uf_MsgType = [], uf_MHdr = mhdr, uf_DevAddr = int32_of (be32 (up_DevAddr p)),
      uf_FCtrl = or (if up_ADR p then 0x80 else 0) (if up_ACK p then 0x20 else 0), uf_FCnt = up_FCnt p, uf_FOpts = [],
      uf_FPort = uint (up_FPort p), uf_FRMPayload = hex_EncodeToString enc, uf_MIC = int32_of (le32 mic),
      uf_DR = dr, uf_Freq = freq, uf_UpInfo = info\<rparr>"

lemma ParseUplink_built:
  assumes "bridge_ok L" and "phy_UnmarshalBinary L frame = Inr ((uplink_frame p enc)\<lparr>phy_MIC := mic\<rparr>)"
  obtains mhdr where "ParseUplink L (hex_EncodeToString frame) freq dr info =
    Inr \<lparr>pu_Message = MUpdf (bridged_updf p enc mic mhdr freq dr info), pu_IsJoin = False, pu_DevEUI = [],
         pu_DevAddr = hex_EncodeToString (up_DevAddr p)\<rparr>"
proof -
  obtain h where h: "MHDR_MarshalBinary L ((uplink_frame p enc)\<lparr>phy_MIC := mic\<rparr>) = Inr [h]"
    using assms(1) by (auto simp: bridge_ok_def)
  have d: "Payload_MarshalBinary L (DataPayload enc) = Inr enc" using assms(1) by (simp add: bridge_ok_def)
  have t: "uplink_type p \<noteq> JoinRequest" "uplink_type p = UnconfirmedDataUp \<or> uplink_type p = ConfirmedDataUp"
    by (simp_all add: uplink_type_def)
  show thesis
    by (rule that [of h])
      (simp add: ParseUplink_def assms(2) h, simp add: uplink_frame_def phy_frame_def t data_pl_def d
        uplink_fctrl_def plain_fctrl_def bridged_updf_def uplinkFCtrl_def)
qed

definition bridged_jreq :: "provisioning \<Rightarrow> u16 \<Rightarrow> bytes \<Rightarrow> u8 \<Rightarrow> u32 \<Rightarrow> u8 \<Rightarrow> up_info \<Rightarrow> jreq" where
  "bridged_jreq p n mic mhdr freq dr info =
     \<lparr>jq_MsgType = [], jq_MHdr = mhdr, jq_JoinEui = hex_EncodeToString (pr_JoinEUI p),
      jq_DevEui = hex_EncodeToString (pr_DevEUI p), jq_DevNonce = n, jq_MIC = int32_of (le32 mic),
      jq_DR = dr, jq_Freq = freq, jq_UpInfo = info\<rparr>"

lemma ParseUplink_join:
  assumes "lorawan_ok L" and "bridge_ok L" and "BuildJoinRequest L p n = Inr frame"
    and "length (pr_DevEUI p) = 8" and "length (pr_JoinEUI p) = 8"
  obtains mic mhdr where "length mic = 4" "ParseUplink L (hex_EncodeToString frame) freq dr info =
    Inr \<lparr>pu_Message = MJreq (bridged_jreq p n mic mhdr freq dr info), pu_IsJoin = True,
         pu_DevEUI = hex_EncodeToString (pr_DevEUI p), pu_DevAddr = []\<rparr>"
proof -
  let ?j = "\<lparr>jr_JoinEUI = pr_JoinEUI p, jr_DevEUI = pr_DevEUI p, jr_DevNonce = n\<rparr>"
  let ?f = "phy_frame JoinRequest (JoinRequestPayload ?j)"
  from assms(1) have ok: "marshal_ok L" "data_mic_ok L" by (simp_all add: lorawan_ok_def)
  obtain q where q: "SetUplinkJoinMIC L (pr_AppKey p) ?f = Inr q" "phy_MarshalBinary L q = Inr frame"
    using assms(3) by (auto simp: BuildJoinRequest_Inr)
  obtain mic where mic: "length mic = 4" "q = ?f\<lparr>phy_MIC := mic\<rparr>"
    using ok(2) q(1) unfolding data_mic_ok_def by blast
  have "length (jr_JoinEUI ?j) = 8" "length (jr_DevEUI ?j) = 8" using assms(4,5) by simp_all
  then have u: "phy_UnmarshalBinary L frame = Inr (?f\<lparr>phy_MIC := mic\<rparr>)"
    using ok(1) q(2) mic unfolding marshal_ok_def by blast
  obtain h where h: "MHDR_MarshalBinary L (?f\<lparr>phy_MIC := mic\<rparr>) = Inr [h]"
    using assms(2) by (auto simp: bridge_ok_def)
  show thesis
    by (rule that [OF mic(1), of h])
      (simp add: ParseUplink_def u h, simp add: phy_frame_def bridged_jreq_def Let_def)
qed

section \<open>The link to the network server\<close>

text \<open>
  What the handlers rely on: an operation that succeeds puts exactly its message, with its type
  set, on the wire, and one that fails puts nothing there.
\<close>

definition on_wire :: "message \<Rightarrow> string" where
  "on_wire msg = json_print (enc_message msg)"

definition typed_jreq :: "jreq \<Rightarrow> message" where
  "typed_jreq m = MJreq (m\<lparr>jq_MsgType := TypeJreq\<rparr>)"

definition typed_updf :: "updf \<Rightarrow> message" where
  "typed_updf m = MUpdf (m\<lparr>uf_MsgType := TypeUpdf\<rparr>)"

definition typed_dntxed :: "dntxed \<Rightarrow> message" where
  "typed_dntxed m = MDntxed (m\<lparr>dt_MsgType := TypeDntxed\<rparr>)"

locale lns_link =
  fixes S :: "'s lns_sender"
    and wire :: "'s \<Rightarrow> string list"
  assumes jreq: "send_jreq S m s = (r, s') \<Longrightarrow> wire s' = (if is_ok r then wire s @ [on_wire (typed_jreq m)] else wire s)"
    and updf: "send_updf S u s = (r, s') \<Longrightarrow> wire s' = (if is_ok r then wire s @ [on_wire (typed_updf u)] else wire s)"
    and dntxed: "send_dntxed S d s = (r, s') \<Longrightarrow> wire s' = (if is_ok r then wire s @ [on_wire (typed_dntxed d)] else wire s)"
begin

lemma handleUplink_wire:
  assumes "handleUplink L S env (g, s) = (r, g', s')"
  shows "if is_ok r then
      (\<exists>pu. ParseUplink L (en_Phy env) (en_Freq env) (en_DR env) (SynthUpInfo 0 (sint (gw_xtime g + 1))) = Inr pu \<and>
         (\<exists>msg. wire s' = wire s @ [on_wire msg] \<and>
            ((\<exists>m. pu_Message pu = MJreq m \<and> msg = typed_jreq m) \<or> (\<exists>m. pu_Message pu = MUpdf m \<and> msg = typed_updf m))))
    else wire s' = wire s"
proof (cases "ParseUplink L (en_Phy env) (en_Freq env) (en_DR env) (SynthUpInfo 0 (sint (gw_xtime g + 1)))")
  case (Inl e)
  with assms show ?thesis by (auto simp: handleUplink_def Let_def)
next
  case (Inr pu)
  show ?thesis
  proof (cases "pu_Message pu")
    case (MJreq m)
    obtain r1 s1 where "send_jreq S m s = (r1, s1)" by fastforce
    with assms Inr MJreq jreq [of m s r1 s1] show ?thesis by (auto simp: handleUplink_def Let_def)
  next
    case (MUpdf m)
    obtain r1 s1 where "send_updf S m s = (r1, s1)" by fastforce
    with assms Inr MUpdf updf [of m s r1 s1] show ?thesis by (auto simp: handleUplink_def Let_def)
  qed (use assms Inr in \<open>auto simp: handleUplink_def Let_def\<close>)
qed

text \<open>A downlink is confirmed to the network server only after it was written to its tag.\<close>

lemma OnDnmsg_wire:
  assumes "OnDnmsg S w dn (g, s) = (g', s')"
  shows "wire s' = wire s \<or>
    (\<exists>c. gw_lookup (dn_DevEui dn) g = Some c \<and> gw_wires g' c = gw_wires g c @ conn_line (down_envelope dn) \<and>
       wire s' = wire s @ [on_wire (typed_dntxed (dntxed_of dn))])"
proof (cases "gw_lookup (dn_DevEui dn) g")
  case None
  with assms show ?thesis by (simp add: OnDnmsg_def)
next
  case (Some c)
  obtain r1 s1 where d: "send_dntxed S (dntxed_of dn) s = (r1, s1)" by fastforce
  show ?thesis
  proof (cases w)
    case None
    with assms Some d dntxed [OF d] show ?thesis by (auto simp: OnDnmsg_def conn_Write_def)
  next
    case (Some f)
    with assms \<open>gw_lookup (dn_DevEui dn) g = _\<close> show ?thesis
      by (auto simp: OnDnmsg_def conn_Write_def split: prod.splits)
  qed
qed

end

interpretation lns_wire: lns_link lns_client ln_out
proof unfold_locales
  show "ln_out l' = (if is_ok r then ln_out l @ [on_wire (typed_jreq m)] else ln_out l)"
    if "send_jreq lns_client m l = (r, l')" for m l r l'
    using that by (cases rule: lns_send_cases [of "typed_jreq m" l])
      (auto simp: lns_client_def SendJreq_def typed_jreq_def on_wire_def)
  show "ln_out l' = (if is_ok r then ln_out l @ [on_wire (typed_updf m)] else ln_out l)"
    if "send_updf lns_client m l = (r, l')" for m l r l'
    using that by (cases rule: lns_send_cases [of "typed_updf m" l])
      (auto simp: lns_client_def SendUpdf_def typed_updf_def on_wire_def)
  show "ln_out l' = (if is_ok r then ln_out l @ [on_wire (typed_dntxed m)] else ln_out l)"
    if "send_dntxed lns_client m l = (r, l')" for m l r l'
    using that by (cases rule: lns_send_cases [of "typed_dntxed m" l])
      (auto simp: lns_client_def SendDntxed_def typed_dntxed_def on_wire_def)
qed

section \<open>Runs of the gateway\<close>

text \<open>What happens at the gateway: an envelope from a tag, the end of a tag connection, a downlink.\<close>

datatype gw_event =
    Recv nat envelope
  | Gone nat
  | Down "(nat \<times> err) option" dnmsg

definition gw_step :: "lorawan \<Rightarrow> 's lns_sender \<Rightarrow> gw_event \<Rightarrow> gateway \<times> 's \<Rightarrow> gateway \<times> 's" where
  "gw_step L S ev gs =
     (case ev of
        Recv c env \<Rightarrow> handle_env L S c env gs
      | Gone c \<Rightarrow> (conn_gone c (fst gs), snd gs)
      | Down w dn \<Rightarrow> OnDnmsg S w dn gs)"

fun gw_run :: "lorawan \<Rightarrow> 's lns_sender \<Rightarrow> gw_event list \<Rightarrow> gateway \<times> 's \<Rightarrow> gateway \<times> 's" where
  "gw_run L S [] gs = gs"
| "gw_run L S (ev # evs) gs = gw_run L S evs (gw_step L S ev gs)"

lemma handleUplink_registry:
  "gw_byDevEUI (fst (snd (handleUplink L S env (g, s)))) = gw_byDevEUI g \<and>
   gw_local (fst (snd (handleUplink L S env (g, s)))) = gw_local g \<and>
   gw_wires (fst (snd (handleUplink L S env (g, s)))) = gw_wires g"
  by (cases "ParseUplink L (en_Phy env) (en_Freq env) (en_DR env) (SynthUpInfo 0 (sint (gw_xtime g + 1)))")
    (auto simp: handleUplink_def Let_def bindDevAddr_def split: message.splits prod.splits)

lemma OnDnmsg_registry:
  "gw_byDevEUI (fst (OnDnmsg S w dn (g, s))) = gw_byDevEUI g \<and> gw_local (fst (OnDnmsg S w dn (g, s))) = gw_local g"
  by (auto simp: OnDnmsg_def Let_def split: option.splits prod.splits)

definition is_hello :: "envelope \<Rightarrow> bool" where
  "is_hello env = (en_Type env = TypeHello)"

text \<open>The registry of DevEUIs, step by step.\<close>

lemma gw_step_registry:
  "gw_byDevEUI (fst (gw_step L S ev (g, s))) =
     (case ev of
        Recv c env \<Rightarrow> if is_hello env then (gw_byDevEUI g)(en_DevEUI env \<mapsto> c) else gw_byDevEUI g
      | Gone c \<Rightarrow> if gw_local g c \<noteq> [] then (gw_byDevEUI g)(gw_local g c := None) else gw_byDevEUI g
      | Down w dn \<Rightarrow> gw_byDevEUI g)"
  "gw_local (fst (gw_step L S ev (g, s))) =
     (case ev of
        Recv c env \<Rightarrow> if is_hello env then (gw_local g)(c := en_DevEUI env) else gw_local g
      | _ \<Rightarrow> gw_local g)"
  using handleUplink_registry [of L S _ g s] OnDnmsg_registry [of S _ _ g s]
  by (auto simp: gw_step_def handle_env_def is_hello_def register_def bindDevAddr_def conn_gone_def unregister_def
      Let_def split: gw_event.splits)

lemma gw_run_append: "gw_run L S (xs @ ys) gs = gw_run L S ys (gw_run L S xs gs)"
  by (induction xs arbitrary: gs) simp_all

lemma gw_run_announced:
  "gw_byDevEUI (fst (gw_run L S evs gs)) d = Some c \<Longrightarrow>
     gw_byDevEUI (fst gs) d = Some c \<or> (\<exists>env. Recv c env \<in> set evs \<and> is_hello env \<and> en_DevEUI env = d)"
proof (induction evs arbitrary: gs)
  case (Cons ev evs)
  obtain g s where gs: "gs = (g, s)" by fastforce
  from Cons.IH [of "gw_step L S ev gs"] Cons.prems gs gw_step_registry(1) [of L S ev g s]
  show ?case by (auto split: gw_event.splits if_splits)
qed simp

definition hello_of :: "string \<Rightarrow> envelope" where
  "hello_of devEUI = zero_envelope\<lparr>en_Type := TypeHello, en_DevEUI := devEUI\<rparr>"

lemma hello_of [simp]: "is_hello (hello_of d)" "en_DevEUI (hello_of d) = d"
  by (simp_all add: is_hello_def hello_of_def)

section \<open>Properties\<close>


definition toy_uplink :: uplink_params where
  "toy_uplink = \<lparr>up_DevAddr = [4, 3, 2, 1], up_NwkSKey = replicate 16 1, up_AppSKey = replicate 16 2, up_FCnt = 9,
     up_FPort = 10, up_Data = [104, 105], up_Confirmed = False, up_ADR = True, up_ACK = False\<rparr>"



definition toy_lns :: lns where
  "toy_lns = \<lparr>ln_out = [], ln_faults = [], ln_config = None, ln_closed = False\<rparr>"


text \<open>C13: a downlink is confirmed as transmitted only when it was written to its tag. Whatever write fails,
  the network server gets at most the one confirmation, and if it gets it, the whole downlink
  line was appended to the connection of the addressed tag.\<close>

theorem downlink_confirmed_written:
  assumes "OnDnmsg lns_client w dn (g, l) = (g', l')"
  shows "ln_out l' = ln_out l \<or>
    (\<exists>c. gw_lookup (dn_DevEui dn) g = Some c \<and> gw_wires g' c = gw_wires g c @ conn_line (down_envelope dn) \<and>
       ln_out l' = ln_out l @ [on_wire (typed_dntxed (dntxed_of dn))])"
  using assms by (rule lns_wire.OnDnmsg_wire)

definition toy_dnmsg :: dnmsg where
  "toy_dnmsg = \<lparr>dn_MsgType = TypeDnmsg, dn_DevEui = ''01'', dn_DC = 0, dn_DIID = 11, dn_Pdu = ''aabbcc'', dn_RxDelay = 1,
     dn_RX1DR = 5, dn_RX1Freq = 868100000, dn_RX2DR = 0, dn_RX2Freq = 869525000, dn_Priority = 0, dn_XTime = 1, dn_RCtx = 0\<rparr>"

theorem downlink_confirmed_written_witness:
  "ln_out (snd (OnDnmsg lns_client None toy_dnmsg (register ''01'' 7 (gateway_New []), toy_lns))) \<noteq> [] \<and>
   gw_wires (fst (OnDnmsg lns_client None toy_dnmsg (register ''01'' 7 (gateway_New []), toy_lns))) 7 =
     conn_line (down_envelope toy_dnmsg)"
proof -
  let ?g = "register ''01'' 7 (gateway_New [])"
  let ?r = "OnDnmsg lns_client None toy_dnmsg (?g, toy_lns)"
  have lk: "gw_lookup (dn_DevEui toy_dnmsg) ?g = Some 7"
    by (simp add: gw_lookup_def register_def toy_dnmsg_def)
  have o: "ln_out (snd ?r) \<noteq> []"
    using lk by (simp add: OnDnmsg_def conn_Write_def lns_client_def SendDntxed_def lns_send_ok toy_lns_def Let_def)
  with downlink_confirmed_written [of None toy_dnmsg ?g toy_lns "fst ?r" "snd ?r"] lk
  show ?thesis by (simp add: toy_lns_def) (simp add: register_def gateway_New_def)
qed

text \<open>C34: the registry loses a tag that reconnects. When a tag opens a second connection before the
  handler of the first has ended, the end of the first removes the registration of the second, so
  downlinks for the connected tag are dropped; and a connection that announces two DevEUIs leaves
  the first one registered after it is gone.\<close>

theorem reconnect_race:
  assumes "d \<noteq> []" and "d' \<noteq> d" and "d' \<noteq> []" and "c \<noteq> c'"
  shows "gw_lookup d (fst (gw_run L S [Recv c (hello_of d), Recv c' (hello_of d), Gone c] gs)) = None \<and>
    gw_run L S [Recv c (hello_of d), Recv c' (hello_of d), Gone c, Down w (dn\<lparr>dn_DevEui := d\<rparr>)] gs =
      gw_run L S [Recv c (hello_of d), Recv c' (hello_of d), Gone c] gs \<and>
    gw_lookup d (fst (gw_run L S [Recv c (hello_of d), Recv c (hello_of d'), Gone c] gs)) = Some c"
proof -
  obtain g s where gs: "gs = (g, s)" by fastforce
  let ?run = "\<lambda>evs. gw_run L S evs gs"
  have lost: "gw_lookup d (fst (?run [Recv c (hello_of d), Recv c' (hello_of d), Gone c])) = None"
    using assms(1,4) by (simp add: gs gw_lookup_def gw_step_def handle_env_def hello_of_def register_def conn_gone_def
      unregister_def zero_envelope_def Let_def)
  have drop: "OnDnmsg S w (dn\<lparr>dn_DevEui := d\<rparr>) gs' = gs'" if "gw_lookup d (fst gs') = None" for gs'
    using that by (cases gs') (simp add: OnDnmsg_def)
  have "?run [Recv c (hello_of d), Recv c' (hello_of d), Gone c, Down w (dn\<lparr>dn_DevEui := d\<rparr>)] =
      ?run [Recv c (hello_of d), Recv c' (hello_of d), Gone c]"
    using drop [OF lost] by (simp add: gw_step_def [of L S "Down _ _"])
  moreover have "gw_lookup d (fst (?run [Recv c (hello_of d), Recv c (hello_of d'), Gone c])) = Some c"
    using assms(2,3) by (simp add: gs gw_lookup_def gw_step_def handle_env_def hello_of_def register_def conn_gone_def
      unregister_def zero_envelope_def Let_def)
  ultimately show ?thesis using lost by blast
qed

theorem reconnect_race_witness:
  "gw_lookup ''01'' (fst (gw_run toy_lorawan lns_client
     [Recv 7 (hello_of ''01''), Recv 8 (hello_of ''01''), Gone 7] (gateway_New [], toy_lns))) = None"
  using reconnect_race [of "''01''" "''02''" 7 8 toy_lorawan lns_client "(gateway_New [], toy_lns)"] by simp

end
