(* ===== verification/Payload.thy ===== *)
theory Payload
  imports Json
begin

text \<open>
  Payload generators (\<open>internal/tag/payload.go\<close>): built from a tag's payload type and its JSON
  configuration, and asked for a payload for each uplink frame counter. \<open>math.Sin\<close> and \<open>math.Pi\<close> are
  arguments (\<open>go_math\<close>), and the \<open>float64\<close> arithmetic of the sine generator is exact.
\<close>

unbundle bit_operations_syntax

record go_math =
  math_Pi :: rat
  math_Sin :: "rat \<Rightarrow> rat"

datatype generator =
    staticGen bytes
  | counterGen int
  | randomGen int
  | rampGen int
  | sineGen rat rat int

definition gen_members :: "string \<Rightarrow> string \<Rightarrow> (string \<times> json) list res" where
  "gen_members what raw = wrapE (what @ '' payload config'') (bindE (json_parse raw) members)"

definition gen_field :: "string \<Rightarrow> string \<Rightarrow> 'a dec \<Rightarrow> (string \<times> json) list \<Rightarrow> 'a \<Rightarrow> 'a res" where
  "gen_field what f d kvs cur = wrapE (what @ '' payload config'') (get_field f d kvs cur)"

definition NewGenerator :: "string \<Rightarrow> string \<Rightarrow> generator res" where
  "NewGenerator typ configJSON =
     (let raw = (if configJSON = [] then ''{}'' else configJSON) in
      if typ = ''static'' then
        bindE (gen_members typ raw) (\<lambda>kvs.
        bindE (gen_field typ ''hex'' dec_string kvs []) (\<lambda>h.
        bindE (wrapE ''static payload hex'' (hex_DecodeString h)) (\<lambda>b.
        Inr (staticGen b))))
      else if typ = ''counter'' then
        bindE (gen_members typ raw) (\<lambda>kvs.
        bindE (gen_field typ ''size'' dec_int64 kvs 0) (\<lambda>size.
        Inr (counterGen (if size \<le> 0 then 4 else size))))
      else if typ = ''random'' then
        bindE (gen_members typ raw) (\<lambda>kvs.
        bindE (gen_field typ ''len'' dec_int64 kvs 0) (\<lambda>len.
        Inr (randomGen (if len \<le> 0 then 8 else len))))
      else if typ = ''ramp'' then
        bindE (gen_members typ raw) (\<lambda>kvs.
        bindE (gen_field typ ''len'' dec_int64 kvs 0) (\<lambda>len.
        Inr (rampGen (if len \<le> 0 then 4 else len))))
      else if typ = ''sine'' then
        bindE (gen_members typ raw) (\<lambda>kvs.
        bindE (gen_field typ ''amplitude'' dec_float kvs 0) (\<lambda>amplitude.
        bindE (gen_field typ ''offset'' dec_float kvs 0) (\<lambda>off.
        bindE (gen_field typ ''period'' dec_int64 kvs 0) (\<lambda>period.
        Inr (sineGen (if amplitude = 0 then 100 else amplitude) off (if period \<le> 0 then 60 else period))))))
      else Inl (Err ''unknown payload type''))"

text \<open>\<open>math.Round\<close>: half away from zero.\<close>

definition math_Round :: "rat \<Rightarrow> int" where
  "math_Round x = (if x < 0 then - \<lfloor>- x + 1 / 2\<rfloor> else \<lfloor>x + 1 / 2\<rfloor>)"

definition sine_sample :: "go_math \<Rightarrow> rat \<Rightarrow> rat \<Rightarrow> int \<Rightarrow> u32 \<Rightarrow> int" where
  "sine_sample M amplitude off period fcnt =
     (let phase = 2 * math_Pi M * of_int (uint fcnt mod period) / of_int period;
          v = math_Round (off + amplitude * math_Sin M phase);
          v = (if v < 0 then 0 else v)
      in if v > 65535 then 65535 else v)"

fun gen_Next :: "go_math \<Rightarrow> generator \<Rightarrow> u32 \<Rightarrow> entropy \<Rightarrow> (bytes, entropy) run" where
  "gen_Next M (staticGen d) fcnt r = (Inr d, r)"
| "gen_Next M (counterGen n) fcnt r =
     (let buf = put_be32 fcnt in
      if n \<ge> 4 then (Inr (replicate (nat n - 4) 0 @ buf), r)
      else (Inr (drop (nat (4 - n)) buf), r))"
| "gen_Next M (randomGen n) fcnt r =
     (let (b, r) = rand_read (nat n) r in (wrapE ''random payload'' b, r))"
| "gen_Next M (rampGen n) fcnt r =
     (Inr (map (\<lambda>i. ucast ((fcnt + of_nat i) AND 0xff)) [0..<nat n]), r)"
| "gen_Next M (sineGen amplitude off period) fcnt r =
     (Inr (put_be16 (word_of_int (sine_sample M amplitude off period fcnt))), r)"

section \<open>What a generator produces\<close>

fun gen_ok :: "generator \<Rightarrow> bool" where
  "gen_ok (staticGen d) = True"
| "gen_ok (counterGen n) = (0 < n)"
| "gen_ok (randomGen n) = (0 < n)"
| "gen_ok (rampGen n) = (0 < n)"
| "gen_ok (sineGen a off p) = (a \<noteq> 0 \<and> 0 < p)"

fun gen_length :: "generator \<Rightarrow> nat" where
  "gen_length (staticGen d) = length d"
| "gen_length (counterGen n) = nat n"
| "gen_length (randomGen n) = nat n"
| "gen_length (rampGen n) = nat n"
| "gen_length (sineGen a off p) = 2"

lemma NewGenerator_ok: "NewGenerator typ cfg = Inr g \<Longrightarrow> gen_ok g"
  unfolding NewGenerator_def Let_def
  by (auto simp: res_simps split: if_splits)

lemma gen_Next_cases:
  assumes "gen_ok g"
  shows "(\<exists>b. fst (gen_Next M g fcnt r) = Inr b \<and> length b = gen_length g) \<or>
    (\<exists>n. g = randomGen n \<and> length r < nat n \<and> \<not> is_ok (fst (gen_Next M g fcnt r)))"
proof (cases g)
  case (randomGen n)
  show ?thesis
  proof (cases "nat n \<le> length r")
    case True
    then show ?thesis by (simp add: randomGen rand_read_ok)
  next
    case False
    then show ?thesis by (simp add: randomGen rand_read_def)
  qed
qed (use assms in \<open>auto simp: Let_def\<close>)

text \<open>A byte string as a big-endian number.\<close>

definition be_nat :: "bytes \<Rightarrow> nat" where
  "be_nat b = foldl (\<lambda>a x. 256 * a + unat x) 0 b"

lemma be_nat_zeros: "be_nat (replicate n 0 @ b) = be_nat b"
  by (induction n) (simp_all add: be_nat_def)

lemma put_be32_digits:
  obtains a b c d where "put_be32 x = [a, b, c, d]" "unat a = unat x div 16777216"
    "unat b = unat x div 65536 mod 256" "unat c = unat x div 256 mod 256" "unat d = unat x mod 256"
  using unat_put_be32 [of x] by (simp add: put_be32_def)

lemma be_nat_Cons: "be_nat (a # b) = unat a * 256 ^ length b + be_nat b"
proof -
  have "foldl (\<lambda>a x. 256 * a + unat x) n b = n * 256 ^ length b + foldl (\<lambda>a x. 256 * a + unat x) 0 b" for n b
  proof (induction b arbitrary: n)
    case (Cons x b)
    show ?case
      using Cons.IH [of "256 * n + unat x"] Cons.IH [of "unat x"] by (simp add: algebra_simps)
  qed simp
  then show ?thesis by (simp add: be_nat_def)
qed

lemma be_nat_Nil [simp]: "be_nat [] = 0"
  by (simp add: be_nat_def)

lemma mod_256_digits:
  "n mod 65536 = 256 * (n div 256 mod 256) + n mod (256 :: nat)"
  "n mod 16777216 = 65536 * (n div 65536 mod 256) + (256 * (n div 256 mod 256) + n mod 256)"
  using mod_mult2_eq [of n 256 256] mod_mult2_eq [of n 65536 256] by simp_all

lemma be_nat_drop_put_be32:
  assumes "k < 4"
  shows "be_nat (drop k (put_be32 x)) = unat x mod 256 ^ (4 - k)"
proof -
  obtain a b c d where p: "put_be32 x = [a, b, c, d]" and u: "unat a = unat x div 16777216"
    "unat b = unat x div 65536 mod 256" "unat c = unat x div 256 mod 256" "unat d = unat x mod 256"
    by (rule put_be32_digits)
  have lt: "unat x mod 4294967296 = unat x" using unsigned_less [of x, where 'a = nat] by simp
  have whole: "unat x div 16777216 * 16777216 + (unat x div 65536 mod 256 * 65536 +
      (unat x div 256 mod 256 * 256 + unat x mod 256)) = unat x"
    using digits_256 [of "unat x"] by linarith
  from assms consider "k = 0" | "k = 1" | "k = 2" | "k = 3" by linarith
  then show ?thesis
  proof cases
    case 1
    then show ?thesis by (simp add: p be_nat_Cons u lt whole)
  qed (simp_all add: p be_nat_Cons u mod_256_digits)
qed

definition toy_math :: go_math where
  "toy_math = \<lparr>math_Pi = 3, math_Sin = (\<lambda>x. x)\<rparr>"

section \<open>Properties\<close>



text \<open>The counter payload is the frame counter: read as a big-endian number it is the counter
  modulo what its configured size can hold.\<close>

theorem counter_payload_value:
  assumes "0 < n"
  shows "\<exists>b. gen_Next M (counterGen n) fcnt r = (Inr b, r) \<and> length b = nat n \<and>
     be_nat b = unat fcnt mod 256 ^ nat n"
proof (cases "4 \<le> n")
  case True
  have "unat fcnt < 256 ^ 4" using unsigned_less [of fcnt, where 'a = nat] by simp
  also have "\<dots> \<le> 256 ^ nat n" using True by (intro power_increasing) auto
  finally have "unat fcnt mod 256 ^ nat n = unat fcnt" by simp
  moreover have "be_nat (put_be32 fcnt) = unat fcnt"
    using be_nat_drop_put_be32 [of 0 fcnt] unsigned_less [of fcnt, where 'a = nat] by simp
  ultimately show ?thesis using True by (simp add: be_nat_zeros Let_def)
next
  case False
  with assms have "nat (4 - n) < 4" and e: "4 - nat (4 - n) = nat n" by auto
  from be_nat_drop_put_be32 [OF this(1), of fcnt] e False show ?thesis by (simp add: Let_def)
qed

theorem counter_payload_value_witness:
  "\<exists>b. gen_Next toy_math (counterGen 2) 65537 [] = (Inr b, []) \<and> be_nat b = 1"
  using counter_payload_value [of 2 toy_math 65537 "[]"] by auto

text \<open>The sine payload is two bytes holding a sample that is clamped to the range of a \<open>uint16\<close>,
  so that the conversion never wraps, and it repeats with the configured period.\<close>

theorem sine_payload_sample:
  assumes "0 < period"
  shows "\<exists>b. gen_Next M (sineGen a off period) fcnt r = (Inr b, r) \<and> length b = 2 \<and>
     int (be_nat b) = sine_sample M a off period fcnt \<and>
     (\<forall>fcnt'. uint fcnt' mod period = uint fcnt mod period \<longrightarrow>
        gen_Next M (sineGen a off period) fcnt' r = (Inr b, r))"
proof -
  let ?v = "sine_sample M a off period fcnt"
  have range: "0 \<le> ?v" "?v \<le> 65535" by (simp_all add: sine_sample_def Let_def)
  have u: "unat (word_of_int ?v :: u16) = nat ?v"
    unfolding unat_eq_nat_uint using range by (simp add: uint_word_of_int_eq take_bit_int_eq_self)
  have "be_nat (put_be16 x) = unat x" for x :: u16
    using unat_put_be16 [of x] by (simp add: put_be16_def be_nat_Cons)
  then have "int (be_nat (put_be16 (word_of_int ?v))) = ?v" using u range by simp
  moreover have "gen_Next M (sineGen a off period) fcnt' r = (Inr (put_be16 (word_of_int ?v)), r)"
    if "uint fcnt' mod period = uint fcnt mod period" for fcnt'
    using that by (simp add: sine_sample_def)
  moreover have "gen_Next M (sineGen a off period) fcnt r = (Inr (put_be16 (word_of_int ?v)), r)" by simp
  moreover have "length (put_be16 (word_of_int ?v)) = 2" by simp
  ultimately show ?thesis by blast
qed

theorem sine_payload_sample_witness:
  "\<exists>b. gen_Next toy_math (sineGen 100 70000 60) 61 [] = (Inr b, []) \<and>
     length b = 2 \<and> be_nat b = 65535"
proof -
  have "sine_sample toy_math 100 70000 60 61 = 65535"
    by (simp add: sine_sample_def math_Round_def toy_math_def)
  then show ?thesis
    using sine_payload_sample [of 60 toy_math 100 70000 61 "[]"] by auto
qed

end
