(* ===== verification/Device.thy ===== *)
theory Device
  imports Frames SessionRepo Payload
begin

text \<open>
  The simulated end-device (\<open>internal/tag/device.go\<close>): a provisioned tag with its generator, whose
  methods build and parse frames and keep the session in the store. The store is threaded through
  every method; \<open>L\<close>, \<open>A\<close> and \<open>M\<close> are the PHY library, AES and the \<open>math\<close> package.
\<close>

record device =
  dv_tag :: tag
  dv_prov :: provisioning
  dv_gen :: generator

definition NewDevice :: "tag \<Rightarrow> device res" where
  "NewDevice t =
     bindE (parseEUI64 (t_DevEUI t)) (\<lambda>devEUI.
     bindE (parseEUI64 (t_JoinEUI t)) (\<lambda>joinEUI.
     bindE (parseAES128 (t_AppKey t)) (\<lambda>appKey.
     bindE (NewGenerator (t_PayloadType t) (t_PayloadConfig t)) (\<lambda>gen.
     Inr \<lparr>dv_tag = t, dv_prov = \<lparr>pr_DevEUI = devEUI, pr_JoinEUI = joinEUI, pr_AppKey = appKey\<rparr>,
          dv_gen = gen\<rparr>))))"

definition dev_BuildJoinRequest :: "lorawan \<Rightarrow> device \<Rightarrow> store \<Rightarrow> (bytes \<times> u16, store) run" where
  "dev_BuildJoinRequest L d st =
     (let (r, st) = NextDevNonce (t_ID (dv_tag d)) st in
      seqE (wrapE ''allocating dev nonce'' r, st) (\<lambda>devNonce st.
      seqE (BuildJoinRequest L (dv_prov d) devNonce, st) (\<lambda>frame st.
      (Inr (frame, devNonce), st))))"

text \<open>\<open>RX2Freq\<close> and \<open>CFList\<close> are left at their zero values.\<close>

definition join_state_of :: "join_result \<Rightarrow> join_state" where
  "join_state_of res =
     \<lparr>js_DevAddr = hexBytes (jres_DevAddr res), js_NwkSKey = hexBytes (jres_NwkSKey res),
      js_AppSKey = hexBytes (jres_AppSKey res), js_RxDelay = uint (jres_RxDelay res),
      js_RX1DROffset = uint (jres_RX1DROffset res), js_RX2DR = uint (jres_RX2DataRate res),
      js_RX2Freq = 0, js_CFList = []\<rparr>"

definition CompleteJoin :: "aes_lib \<Rightarrow> lorawan \<Rightarrow> device \<Rightarrow> u16 \<Rightarrow> bytes \<Rightarrow> store \<Rightarrow> (unit, store) run" where
  "CompleteJoin A L d devNonce accept st =
     seqE (ParseJoinAccept A L (dv_prov d) devNonce accept, st) (\<lambda>res st.
     SaveJoinResult (t_ID (dv_tag d)) (join_state_of res) st)"

definition uplinkParams :: "device \<Rightarrow> session \<Rightarrow> u32 \<Rightarrow> bytes \<Rightarrow> uplink_params res" where
  "uplinkParams d sess fcnt data =
     bindE (parseDevAddr (s_DevAddr sess)) (\<lambda>devAddr.
     bindE (parseAES128 (s_NwkSKey sess)) (\<lambda>nwk.
     bindE (parseAES128 (s_AppSKey sess)) (\<lambda>app.
     Inr \<lparr>up_DevAddr = devAddr, up_NwkSKey = nwk, up_AppSKey = app, up_FCnt = fcnt,
          up_FPort = word_of_int (t_FPort (dv_tag d)), up_Data = data,
          up_Confirmed = False, up_ADR = False, up_ACK = False\<rparr>)))"

definition gen_payload :: "go_math \<Rightarrow> device \<Rightarrow> bytes option \<Rightarrow> u32 \<Rightarrow> store \<Rightarrow> (bytes, store) run" where
  "gen_payload M d override fcnt st =
     (case override of
        Some b \<Rightarrow> (Inr b, st)
      | None \<Rightarrow> (let (r, e) = gen_Next M (dv_gen d) fcnt (st_entropy st) in (r, st\<lparr>st_entropy := e\<rparr>)))"

definition dev_BuildUplink :: "lorawan \<Rightarrow> go_math \<Rightarrow> device \<Rightarrow> bytes option \<Rightarrow> store \<Rightarrow> (bytes \<times> u32, store) run" where
  "dev_BuildUplink L M d override st =
     seqE (sessions_Get (t_ID (dv_tag d)) st) (\<lambda>sess st.
     if \<not> s_Joined sess then (Inl (Err ''device is not joined''), st)
     else
       seqE (TakeFCntUp (t_ID (dv_tag d)) st) (\<lambda>fcnt st.
       seqE (gen_payload M d override fcnt st) (\<lambda>data st.
       seqE (uplinkParams d sess fcnt data, st) (\<lambda>params st.
       seqE (BuildUplink L params, st) (\<lambda>frame st.
       (Inr (frame, fcnt), st))))))"

definition HandleDownlink :: "lorawan \<Rightarrow> device \<Rightarrow> bytes \<Rightarrow> store \<Rightarrow> (downlink, store) run" where
  "HandleDownlink L d frame st =
     seqE (sessions_Get (t_ID (dv_tag d)) st) (\<lambda>sess st.
     if \<not> s_Joined sess then (Inl (Err ''device is not joined''), st)
     else
       seqE (parseDevAddr (s_DevAddr sess), st) (\<lambda>devAddr st.
       seqE (parseAES128 (s_NwkSKey sess), st) (\<lambda>nwk st.
       seqE (parseAES128 (s_AppSKey sess), st) (\<lambda>app st.
       seqE (ParseDownlink L \<lparr>dp_DevAddr = devAddr, dp_NwkSKey = nwk, dp_AppSKey = app\<rparr> frame, st) (\<lambda>dl st.
       if s_FCntDown sess > 0 \<and> dl_FCnt dl < s_FCntDown sess then (Inl (Err ''stale downlink FCnt''), st)
       else
         seqE (SetFCntDown (t_ID (dv_tag d)) (dl_FCnt dl) st) (\<lambda>_ st.
         (Inr dl, st)))))))"

section \<open>Each method, inverted\<close>

lemma NewDevice_Inr:
  assumes "NewDevice t = Inr d"
  shows "dv_tag d = t \<and> length (pr_DevEUI (dv_prov d)) = 8 \<and> length (pr_JoinEUI (dv_prov d)) = 8 \<and>
    length (pr_AppKey (dv_prov d)) = 16 \<and> gen_ok (dv_gen d)"
  using assms by (auto simp: NewDevice_def res_simps parse_lengths NewGenerator_ok)

lemma sessions_Get_Inr:
  assumes "sessions_Get tid st = (Inr s, st')"
  obtains r fs where "find_session tid st = Some r" "scan_session (st_cipher st) r = Inr s"
    "st' = st\<lparr>db_faults := fs\<rparr>"
  using assms by (cases tid st rule: sessions_Get_cases) auto

lemma scan_session_Inr:
  assumes "scan_session c r = Inr s"
  shows "sr_fcnt_up r = uint (s_FCntUp s)" "sr_fcnt_down r = uint (s_FCntDown s)"
    "sr_dev_nonce r = uint (s_DevNonce s)" "s_Joined s \<longleftrightarrow> sr_joined r \<noteq> 0"
    "s_DevAddr s = null_string (sr_dev_addr r)" "s_TagID s = sr_tag_id r"
    "read_key c (sr_tag_id r) ''nwk_skey'' (sr_nwk_skey r) = Inr (s_NwkSKey s)"
    "read_key c (sr_tag_id r) ''app_skey'' (sr_app_skey r) = Inr (s_AppSKey s)"
  using assms by (auto simp: scan_session_def res_simps)

lemma scan_down_row:
  assumes "scan_session c r = Inr s"
  shows "scan_session c (down_row f now r) = Inr (s\<lparr>s_FCntDown := f\<rparr>)"
  using assms by (auto simp: scan_session_def down_row_def res_simps)

lemma find_session_upd_key:
  "find_session tid st = Some r \<Longrightarrow> (\<And>s. sr_tag_id (f s) = sr_tag_id s) \<Longrightarrow>
     find_session tid (upd_session tid f (st\<lparr>db_faults := fs\<rparr>)) = Some (f r)"
  by (simp add: find_session_upd)

lemma HandleDownlink_Inr:
  assumes "HandleDownlink L d frame st = (Inr dl, st')"
  obtains sess devAddr nwk app st1 where "sessions_Get (t_ID (dv_tag d)) st = (Inr sess, st1)"
    "s_Joined sess" "parseDevAddr (s_DevAddr sess) = Inr devAddr" "parseAES128 (s_NwkSKey sess) = Inr nwk"
    "parseAES128 (s_AppSKey sess) = Inr app"
    "ParseDownlink L \<lparr>dp_DevAddr = devAddr, dp_NwkSKey = nwk, dp_AppSKey = app\<rparr> frame = Inr dl"
    "\<not> (s_FCntDown sess > 0 \<and> dl_FCnt dl < s_FCntDown sess)"
    "SetFCntDown (t_ID (dv_tag d)) (dl_FCnt dl) st1 = (Inr (), st')"
  using assms by (auto simp: HandleDownlink_def res_simps split: if_splits)

lemma HandleDownlink_up:
  assumes "db_up st" and "find_session (t_ID (dv_tag d)) st = Some r"
    and "scan_session (st_cipher st) r = Inr sess" and "s_Joined sess"
    and "parseDevAddr (s_DevAddr sess) = Inr devAddr" and "parseAES128 (s_NwkSKey sess) = Inr nwk"
    and "parseAES128 (s_AppSKey sess) = Inr app"
    and "ParseDownlink L \<lparr>dp_DevAddr = devAddr, dp_NwkSKey = nwk, dp_AppSKey = app\<rparr> frame = Inr dl"
    and "\<not> (s_FCntDown sess > 0 \<and> dl_FCnt dl < s_FCntDown sess)"
  shows "\<exists>fs. HandleDownlink L d frame st =
      (Inr dl, upd_session (t_ID (dv_tag d)) (down_row (dl_FCnt dl) (st_clock st)) (st\<lparr>db_faults := fs\<rparr>)) \<and>
      db_up (st\<lparr>db_faults := fs\<rparr>)"
proof -
  let ?tid = "t_ID (dv_tag d)"
  obtain fs where g: "sessions_Get ?tid st = (Inr sess, st\<lparr>db_faults := fs\<rparr>)" "db_up (st\<lparr>db_faults := fs\<rparr>)"
  proof -
    have "\<exists>fs. sessions_Get ?tid st = (Inr sess, st\<lparr>db_faults := fs\<rparr>) \<and> db_up (st\<lparr>db_faults := fs\<rparr>)"
      unfolding sessions_Get_def by (rule seq_wrap_up [OF assms(1)]) (auto simp: assms(2,3))
    with that show thesis by blast
  qed
  obtain gs where "SetFCntDown ?tid (dl_FCnt dl) (st\<lparr>db_faults := fs\<rparr>) =
      (Inr (), upd_session ?tid (down_row (dl_FCnt dl) (st_clock st)) (st\<lparr>db_faults := gs\<rparr>))"
    "db_up (st\<lparr>db_faults := gs\<rparr>)"
    using SetFCntDown_up [OF g(2), of ?tid r "dl_FCnt dl"] assms(2) by auto
  then show ?thesis
    unfolding HandleDownlink_def using g(1) assms(4-9) by auto
qed

section \<open>Properties\<close>

text \<open>What an uplink built right after a join is made of.\<close>

definition first_uplink :: "device \<Rightarrow> join_result \<Rightarrow> bytes \<Rightarrow> uplink_params" where
  "first_uplink d res data =
     \<lparr>up_DevAddr = jres_DevAddr res, up_NwkSKey = jres_NwkSKey res, up_AppSKey = jres_AppSKey res, up_FCnt = 0,
      up_FPort = word_of_int (t_FPort (dv_tag d)), up_Data = data, up_Confirmed = False, up_ADR = False, up_ACK = False\<rparr>"

lemma CompleteJoin_up:
  assumes "db_up st" and "find_session (t_ID (dv_tag d)) st = Some r" and "sr_dev_nonce r = uint (m :: u16)"
    and "ParseJoinAccept A L (dv_prov d) n accept = Inr res"
    and "protects (st_cipher st) (js_NwkSKey (join_state_of res))" and "protects (st_cipher st) (js_AppSKey (join_state_of res))"
    and "Encrypt (st_cipher st) (js_NwkSKey (join_state_of res)) (sessionAAD (t_ID (dv_tag d)) ''nwk_skey'') (st_entropy st) = (Inr encNwk, r1)"
    and "Encrypt (st_cipher st) (js_AppSKey (join_state_of res)) (sessionAAD (t_ID (dv_tag d)) ''app_skey'') r1 = (Inr encApp, r2)"
  obtains fs row where "CompleteJoin A L d n accept st =
       (Inr (), upd_session (t_ID (dv_tag d)) (joined_row (join_state_of res) encNwk encApp (st_clock st))
          (st\<lparr>st_entropy := r2, db_faults := fs\<rparr>))"
    "db_up (st\<lparr>st_entropy := r2, db_faults := fs\<rparr>)"
    "row = joined_row (join_state_of res) encNwk encApp (st_clock st) r"
    "sr_fcnt_up row = 0"
    "scan_session (st_cipher st) row = Inr (session_of_join (t_ID (dv_tag d)) (join_state_of res) m)"
proof -
  let ?tid = "t_ID (dv_tag d)" and ?js = "join_state_of res"
  obtain fs where s: "SaveJoinResult ?tid ?js st = (Inr (), upd_session ?tid
       (joined_row ?js encNwk encApp (st_clock st)) (st\<lparr>st_entropy := r2, db_faults := fs\<rparr>))"
    and up: "db_up (st\<lparr>st_entropy := r2, db_faults := fs\<rparr>)"
    using SaveJoinResult_up [OF assms(1,2,7,8)] by blast
  have tid: "sr_tag_id r = ?tid" using assms(2) by (rule find_session_key)
  have scan: "scan_session (st_cipher st) (joined_row ?js encNwk encApp (st_clock st) r) =
      Inr (session_of_join ?tid ?js m)"
    using scan_joined_row [OF _ _ assms(3), of "st_cipher st" encNwk ?js encApp] tid
      Decrypt_Encrypt_column [OF assms(5,7)] Decrypt_Encrypt_column [OF assms(6,8)] by simp
  have c: "CompleteJoin A L d n accept st = SaveJoinResult ?tid ?js st"
    by (simp add: CompleteJoin_def assms(4))
  show thesis
    by (rule that [OF _ up refl _ scan]) (simp_all add: c s joined_row_def)
qed

text \<open>Joining and then sending works end to end. After \<open>CompleteJoin\<close> accepts a join-accept, the next
  uplink the device builds carries the address and the keys derived from it and frame counter
  0, whatever session the tag had before and although the keys went through hex and column
  encryption in between.\<close>

theorem join_then_uplink:
  assumes "db_up st" and "find_session (t_ID (dv_tag d)) st = Some r" and "sr_dev_nonce r = uint (m :: u16)"
    and "ParseJoinAccept A L (dv_prov d) n accept = Inr res"
    and "length (jres_DevAddr res) = 4" and "length (jres_NwkSKey res) = 16" and "length (jres_AppSKey res) = 16"
    and "protects (st_cipher st) (js_NwkSKey (join_state_of res))" and "protects (st_cipher st) (js_AppSKey (join_state_of res))"
    and "Encrypt (st_cipher st) (js_NwkSKey (join_state_of res)) (sessionAAD (t_ID (dv_tag d)) ''nwk_skey'') (st_entropy st) = (Inr encNwk, r1)"
    and "Encrypt (st_cipher st) (js_AppSKey (join_state_of res)) (sessionAAD (t_ID (dv_tag d)) ''app_skey'') r1 = (Inr encApp, r2)"
  shows "\<exists>st'. CompleteJoin A L d n accept st = (Inr (), st') \<and>
     fst (dev_BuildUplink L M d (Some data) st') = mapE (\<lambda>frame. (frame, 0)) (BuildUplink L (first_uplink d res data))"
proof -
  let ?tid = "t_ID (dv_tag d)" and ?js = "join_state_of res"
  obtain fs row where c: "CompleteJoin A L d n accept st =
       (Inr (), upd_session ?tid (joined_row ?js encNwk encApp (st_clock st)) (st\<lparr>st_entropy := r2, db_faults := fs\<rparr>))"
    and up: "db_up (st\<lparr>st_entropy := r2, db_faults := fs\<rparr>)" and row: "row = joined_row ?js encNwk encApp (st_clock st) r"
    and f0: "sr_fcnt_up row = 0" and scan: "scan_session (st_cipher st) row = Inr (session_of_join ?tid ?js m)"
    by (rule CompleteJoin_up [OF assms(1-4,8-11)])
  define st' where "st' = upd_session ?tid (joined_row ?js encNwk encApp (st_clock st)) (st\<lparr>st_entropy := r2, db_faults := fs\<rparr>)"
  have up': "db_up st'" and ciph: "st_cipher st' = st_cipher st" using up by (simp_all add: st'_def)
  have f: "find_session ?tid st' = Some row"
    using assms(2) by (simp add: st'_def find_session_upd row)
  have p: "uplinkParams d (session_of_join ?tid ?js m) 0 data = Inr (first_uplink d res data)"
    using assms(5-7) by (simp add: uplinkParams_def session_of_join_def join_state_of_def first_uplink_def)
  have j: "s_Joined (session_of_join ?tid ?js m)" by (simp add: session_of_join_def)
  let ?Q = "\<lambda>x. fst x = mapE (\<lambda>frame. (frame, 0)) (BuildUplink L (first_uplink d res data))"
  have take: "?Q (seqE (TakeFCntUp ?tid s) (\<lambda>fcnt st.
       seqE (gen_payload M d (Some data) fcnt st) (\<lambda>data st.
       seqE (uplinkParams d (session_of_join ?tid ?js m) fcnt data, st) (\<lambda>params st.
       seqE (BuildUplink L params, st) (\<lambda>frame st. (Inr (frame, fcnt), st))))))"
    if h: "db_up s" "find_session ?tid s = Some row" for s
  proof -
    obtain gs where "TakeFCntUp ?tid s = (Inr 0, upd_session ?tid (fcnt_row (st_clock s)) (s\<lparr>db_faults := gs\<rparr>))"
      using TakeFCntUp_up [OF h] by (auto simp: f0 scan_uint_ok)
    then show ?thesis by (cases "BuildUplink L (first_uplink d res data)") (simp_all add: gen_payload_def p)
  qed
  have "?Q (dev_BuildUplink L M d (Some data) st')"
    unfolding dev_BuildUplink_def sessions_Get_def
    by (rule sql_wrap_up [OF up', of "''querying session''"])
      (simp add: f ciph scan j take del: One_nat_def)
  with c show ?thesis unfolding st'_def by blast
qed

definition toy_device :: device where
  "toy_device = \<lparr>dv_tag = tag_of_new 1 example_new_tag [], dv_prov = toy_prov, dv_gen = counterGen 4\<rparr>"

lemma toy_device [simp]: "t_ID (dv_tag toy_device) = 1" "dv_prov toy_device = toy_prov"
  by (simp_all add: toy_device_def tag_of_new_def)

lemma example_session: "sr_dev_nonce (session_row_of 1 []) = uint (0 :: u16)"
  by (simp add: session_row_of_def)

lemma hexBytes_protected: "protects (st_cipher example_store) (hexBytes b)"
proof -
  have "list_all is_hex (hexBytes b)"
    using hex_Encode_lower [of _ b] by (auto simp: hexBytes_def list_all_iff is_lower_hex_def)
  then have "\<not> strings_HasPrefix (hexBytes b) secret_prefix"
    by (cases "hexBytes b") (auto simp: secret_prefix_def is_hex_def hex_val_def Let_def)
  then show ?thesis by (simp add: protects_def NewInsecureDisabled_def)
qed

lemma example_Encrypt: "Encrypt (st_cipher example_store) k d r = (Inr k, r)"
  by (simp add: NewInsecureDisabled_def)

theorem join_then_uplink_witness:
  "\<exists>n b frame st'. CompleteJoin toy_aes toy_lorawan toy_device n b example_store = (Inr (), st') \<and>
     fst (dev_BuildUplink toy_lorawan toy_math toy_device (Some [42]) st') = Inr (frame, 0)"
proof -
  obtain b res where p: "ParseJoinAccept toy_aes toy_lorawan toy_prov 1 b = Inr res"
    and l: "length (jres_DevAddr res) = 4" "length (jres_NwkSKey res) = 16" "length (jres_AppSKey res) = 16"
    by (rule toy_accept)
  have pk: "protects (st_cipher example_store) (js_NwkSKey (join_state_of res))"
    "protects (st_cipher example_store) (js_AppSKey (join_state_of res))"
    by (simp_all only: join_state_of_def join_state.simps hexBytes_protected)
  have "\<exists>frame. BuildUplink toy_lorawan (first_uplink toy_device res [42]) = Inr frame"
    by (simp add: BuildUplink_def first_uplink_def toy_lorawan_def toy_mic_def phy_frame_def toy_marshal_def)
  then obtain frame where f: "BuildUplink toy_lorawan (first_uplink toy_device res [42]) = Inr frame" ..
  show ?thesis
    using join_then_uplink [where d = toy_device and st = example_store, unfolded toy_device, OF example_store(1,4)
        example_session p l pk example_Encrypt example_Encrypt, of toy_math "[42]"] f
    by (metis mapE_simps(2))
qed

text \<open>An uplink consumes its frame counter before the frame leaves the device. When \<open>BuildUplink\<close>
  returns a frame, the counter in it is the one that was stored, the device was joined, and the
  stored counter is now one higher, whatever happens to the frame afterwards.\<close>

theorem uplink_counter_consumed:
  "dev_BuildUplink L M d override st = (Inr (frame, fcnt), st') \<Longrightarrow>
     \<exists>r r'. find_session (t_ID (dv_tag d)) st = Some r \<and> sr_joined r \<noteq> 0 \<and> sr_fcnt_up r = uint fcnt \<and>
       find_session (t_ID (dv_tag d)) st' = Some r' \<and> sr_fcnt_up r' = uint fcnt + 1"
proof -
  let ?tid = "t_ID (dv_tag d)"
  assume "dev_BuildUplink L M d override st = (Inr (frame, fcnt), st')"
  then obtain sess st1 st2 data where g: "sessions_Get ?tid st = (Inr sess, st1)" "s_Joined sess"
    and t: "TakeFCntUp ?tid st1 = (Inr fcnt, st2)" and p: "gen_payload M d override fcnt st2 = (Inr data, st')"
    by (auto simp: dev_BuildUplink_def res_simps split: if_splits)
  obtain r fs where r: "find_session ?tid st = Some r" "scan_session (st_cipher st) r = Inr sess"
    and st1: "st1 = st\<lparr>db_faults := fs\<rparr>"
    by (rule sessions_Get_Inr [OF g(1)])
  have f1: "find_session ?tid st1 = Some r" using r(1) st1 by simp
  have "sr_fcnt_up r = uint fcnt \<and> find_session ?tid st2 = Some (fcnt_row (st_clock st1) r)"
  proof (cases ?tid st1 rule: TakeFCntUp_cases)
    case (failed e s)
    with t show ?thesis by simp
  next
    case (updated r2 gs)
    with f1 t show ?thesis by (auto simp: res_simps find_session_upd)
  qed
  moreover have "find_session ?tid st' = find_session ?tid st2"
    using p by (auto simp: gen_payload_def find_session_def split: option.splits prod.splits)
  ultimately show ?thesis
    using r scan_session_Inr(4) [OF r(2)] g(2) by (simp add: fcnt_row_def)
qed

definition joined_example :: "bytes \<Rightarrow> bytes \<Rightarrow> bytes \<Rightarrow> store" where
  "joined_example addr nwk app = upd_session 1 (joined_row
     (example_join\<lparr>js_DevAddr := hexBytes addr, js_NwkSKey := hexBytes nwk, js_AppSKey := hexBytes app\<rparr>)
     (hexBytes nwk) (hexBytes app) []) example_store"

lemma joined_example:
  assumes "length addr = 4" and "length nwk = 16" and "length app = 16"
  obtains r sess where "db_up (joined_example addr nwk app)" "find_session 1 (joined_example addr nwk app) = Some r"
    "scan_session (st_cipher (joined_example addr nwk app)) r = Inr sess" "s_Joined sess" "s_FCntDown sess = 0"
    "parseDevAddr (s_DevAddr sess) = Inr addr" "parseAES128 (s_NwkSKey sess) = Inr nwk"
    "parseAES128 (s_AppSKey sess) = Inr app"
proof -
  let ?js = "example_join\<lparr>js_DevAddr := hexBytes addr, js_NwkSKey := hexBytes nwk, js_AppSKey := hexBytes app\<rparr>"
  let ?r = "joined_row ?js (hexBytes nwk) (hexBytes app) [] (session_row_of 1 [])"
  have dec: "Decrypt (st_cipher example_store) (hexBytes k) d = Inr (hexBytes k)" for k d
    by (rule Decrypt_Encrypt_column [OF hexBytes_protected example_Encrypt [of _ _ "[]"]])
  have "scan_session (st_cipher example_store) ?r = Inr (session_of_join (sr_tag_id (session_row_of 1 [])) ?js 0)"
    by (rule scan_joined_row) (simp_all add: dec example_session del: example_store(3))
  then show thesis
    by (intro that [of ?r "session_of_join (sr_tag_id (session_row_of 1 [])) ?js 0"])
      (use assms in \<open>simp_all add: joined_example_def find_session_upd session_of_join_def\<close>)
qed

lemma toy_uplink_built:
  "\<exists>frame st'. dev_BuildUplink toy_lorawan toy_math toy_device (Some [42]) (joined_example [1, 2, 3, 4] toy_app_key toy_app_key) =
     (Inr (frame, 0), st')"
proof -
  let ?st = "joined_example [1, 2, 3, 4] toy_app_key toy_app_key"
  obtain r sess where s: "db_up ?st" "find_session 1 ?st = Some r" "scan_session (st_cipher ?st) r = Inr sess"
    "s_Joined sess" "parseDevAddr (s_DevAddr sess) = Inr [1, 2, 3, 4]" "parseAES128 (s_NwkSKey sess) = Inr toy_app_key"
    "parseAES128 (s_AppSKey sess) = Inr toy_app_key"
    by (rule joined_example [of "[1, 2, 3, 4]" toy_app_key toy_app_key]) (simp_all add: toy_app_key_def)
  have f0: "db_faults ?st = []"
    by (simp add: joined_example_def example_store_def insert_tag_def store_New_def)
  have r0: "sr_fcnt_up r = 0"
    using s(2) by (auto simp: joined_example_def find_session_upd joined_row_def)
  obtain params where p: "uplinkParams toy_device sess 0 [42] = Inr params"
    by (simp add: uplinkParams_def s)
  obtain frame where b: "BuildUplink toy_lorawan params = Inr frame"
    by (simp add: BuildUplink_def toy_lorawan_def toy_mic_def phy_frame_def toy_marshal_def)
  show ?thesis
    by (simp add: p b dev_BuildUplink_def sessions_Get_def TakeFCntUp_def sql_wrap_def sql_stmt_def f0 s r0
        scan_uint_ok gen_payload_def)
qed

theorem uplink_counter_consumed_witness:
  "\<exists>frame st' r'. dev_BuildUplink toy_lorawan toy_math toy_device (Some [42])
       (joined_example [1, 2, 3, 4] toy_app_key toy_app_key) = (Inr (frame, 0), st') \<and>
     find_session 1 st' = Some r' \<and> sr_fcnt_up r' = 1"
  using toy_uplink_built
    uplink_counter_consumed [of toy_lorawan toy_math toy_device "Some [42]" "joined_example [1, 2, 3, 4] toy_app_key toy_app_key"]
  by fastforce

text \<open>The frames the device accepts from a sequence of downlinks.\<close>

fun accepted_fcnts :: "lorawan \<Rightarrow> device \<Rightarrow> bytes list \<Rightarrow> store \<Rightarrow> u32 list" where
  "accepted_fcnts L d [] st = []"
| "accepted_fcnts L d (frame # frames) st =
     (case HandleDownlink L d frame st of
        (Inr dl, st') \<Rightarrow> dl_FCnt dl # accepted_fcnts L d frames st'
      | (Inl e, st') \<Rightarrow> accepted_fcnts L d frames st')"

definition fcnt_down_of :: "int \<Rightarrow> store \<Rightarrow> int" where
  "fcnt_down_of tid st = (case find_session tid st of Some r \<Rightarrow> sr_fcnt_down r | None \<Rightarrow> 0)"

lemma fcnt_down_same: "same_db s t \<Longrightarrow> fcnt_down_of tid t = fcnt_down_of tid s"
  by (simp add: fcnt_down_of_def find_session_def same_db_def)

lemma HandleDownlink_fcnt:
  assumes "HandleDownlink L d frame st = (r, st')"
  shows "case r of Inr dl \<Rightarrow> fcnt_down_of (t_ID (dv_tag d)) st \<le> uint (dl_FCnt dl) \<and>
      fcnt_down_of (t_ID (dv_tag d)) st' = uint (dl_FCnt dl)
    | Inl e \<Rightarrow> fcnt_down_of (t_ID (dv_tag d)) st' = fcnt_down_of (t_ID (dv_tag d)) st"
proof (cases r)
  case (Inr dl)
  let ?tid = "t_ID (dv_tag d)"
  from assms Inr have h: "HandleDownlink L d frame st = (Inr dl, st')" by simp
  obtain sess st1 where g: "sessions_Get ?tid st = (Inr sess, st1)"
    and n: "\<not> (s_FCntDown sess > 0 \<and> dl_FCnt dl < s_FCntDown sess)"
    and s: "SetFCntDown ?tid (dl_FCnt dl) st1 = (Inr (), st')"
    by (rule HandleDownlink_Inr [OF h])
  obtain q fs where q: "find_session ?tid st = Some q" "scan_session (st_cipher st) q = Inr sess"
    and st1: "st1 = st\<lparr>db_faults := fs\<rparr>" by (rule sessions_Get_Inr [OF g])
  have "s_FCntDown sess \<le> dl_FCnt dl" using n by (metis not_less word_gt_0 word_zero_le)
  then have le: "fcnt_down_of ?tid st \<le> uint (dl_FCnt dl)"
    using scan_session_Inr(2) [OF q(2)] q(1) by (simp add: fcnt_down_of_def word_le_def)
  have "fcnt_down_of ?tid st' = uint (dl_FCnt dl)"
  proof (cases ?tid "dl_FCnt dl" st1 rule: SetFCntDown_cases)
    case (failed e s2)
    with s show ?thesis by simp
  next
    case (updated q2 gs)
    with s show ?thesis by (auto simp: fcnt_down_of_def find_session_upd down_row_def)
  qed
  with le Inr show ?thesis by simp
next
  case (Inl e)
  let ?tid = "t_ID (dv_tag d)"
  have set: "SetFCntDown ?tid f s = (Inl e', s') \<Longrightarrow> same_db s s'" for f s e' s'
    by (cases ?tid f s rule: SetFCntDown_cases) auto
  have get: "sessions_Get ?tid st = (x, s) \<Longrightarrow> same_db st s" for x s
    using sessions_Get_same [of st ?tid] by simp
  have "same_db st st'"
    using assms Inl get unfolding HandleDownlink_def seqE_def
    by (auto split: prod.splits sum.splits if_splits dest: set intro: same_db_trans)
  with Inl show ?thesis by (simp add: fcnt_down_same)
qed

lemma accepted_fcnts_bound: "n \<in> set (accepted_fcnts L d frames st) \<Longrightarrow> fcnt_down_of (t_ID (dv_tag d)) st \<le> uint n"
proof (induction L d frames st rule: accepted_fcnts.induct)
  case (2 L d frame frames st)
  obtain r st' where h: "HandleDownlink L d frame st = (r, st')" by fastforce
  from HandleDownlink_fcnt [OF h] 2 h show ?case by (cases r) fastforce+
qed simp

text \<open>C20: the frame counters of the downlinks a device accepts never go backwards: over any sequence of
  received frames, stored counters and database faults, the accepted counters are
  non-decreasing.\<close>

theorem downlink_fcnt_monotone: "sorted_wrt (\<le>) (accepted_fcnts L d frames st)"
proof (induction L d frames st rule: accepted_fcnts.induct)
  case (2 L d frame frames st)
  obtain r st' where h: "HandleDownlink L d frame st = (r, st')" by fastforce
  show ?case
  proof (cases r)
    case (Inr dl)
    have "dl_FCnt dl \<le> n" if "n \<in> set (accepted_fcnts L d frames st')" for n
      using accepted_fcnts_bound [OF that] HandleDownlink_fcnt [OF h] Inr by (simp add: word_le_def)
    with 2 h Inr show ?thesis by simp
  qed (use 2 h in simp)
qed simp

text \<open>C28: the deduplication by frame counter does not stop a replay. A downlink that was just accepted is
  accepted again, byte for byte, because a counter equal to the highest one seen passes the
  check.\<close>

theorem downlink_replay_accepted:
  assumes "db_up st" and "HandleDownlink L d frame st = (Inr dl, st')" and "db_up st'"
  shows "\<exists>st''. HandleDownlink L d frame st' = (Inr dl, st'')"
proof -
  let ?tid = "t_ID (dv_tag d)"
  obtain sess devAddr nwk app st1 where g: "sessions_Get ?tid st = (Inr sess, st1)" and j: "s_Joined sess"
    and p: "parseDevAddr (s_DevAddr sess) = Inr devAddr" "parseAES128 (s_NwkSKey sess) = Inr nwk"
      "parseAES128 (s_AppSKey sess) = Inr app"
      "ParseDownlink L \<lparr>dp_DevAddr = devAddr, dp_NwkSKey = nwk, dp_AppSKey = app\<rparr> frame = Inr dl"
    and s: "SetFCntDown ?tid (dl_FCnt dl) st1 = (Inr (), st')"
    by (rule HandleDownlink_Inr [OF assms(2)])
  obtain q fs where q: "find_session ?tid st = Some q" "scan_session (st_cipher st) q = Inr sess"
    and st1: "st1 = st\<lparr>db_faults := fs\<rparr>" by (rule sessions_Get_Inr [OF g])
  obtain gs now where st': "st' = upd_session ?tid (down_row (dl_FCnt dl) now) (st1\<lparr>db_faults := gs\<rparr>)"
  proof (cases ?tid "dl_FCnt dl" st1 rule: SetFCntDown_cases)
    case (failed e s2)
    with s show thesis by simp
  next
    case (updated q2 gs)
    with s that show thesis by auto
  qed
  have f: "find_session ?tid st' = Some (down_row (dl_FCnt dl) now q)"
    using q(1) by (simp add: st' st1 find_session_upd)
  have "scan_session (st_cipher st') (down_row (dl_FCnt dl) now q) = Inr (sess\<lparr>s_FCntDown := dl_FCnt dl\<rparr>)"
    using scan_down_row [OF q(2)] by (simp add: st' st1)
  from HandleDownlink_up [OF assms(3) f this] j p show ?thesis by simp blast
qed

theorem downlink_replay_accepted_witness:
  "\<exists>st frame dl st' st''. HandleDownlink toy_lorawan toy_device frame st = (Inr dl, st') \<and> dl_Payload dl = [42] \<and>
     HandleDownlink toy_lorawan toy_device frame st' = (Inr dl, st'')"
proof -
  let ?st = "joined_example [1, 2, 3, 4] toy_app_key toy_app_key"
  obtain r sess where s: "db_up ?st" "find_session 1 ?st = Some r" "scan_session (st_cipher ?st) r = Inr sess"
    "s_Joined sess" "s_FCntDown sess = 0" "parseDevAddr (s_DevAddr sess) = Inr [1, 2, 3, 4]"
    "parseAES128 (s_NwkSKey sess) = Inr toy_app_key" "parseAES128 (s_AppSKey sess) = Inr toy_app_key"
    by (rule joined_example [of "[1, 2, 3, 4]" toy_app_key toy_app_key]) (simp_all add: toy_app_key_def)
  obtain p1 p2 b where f: "EncryptFRMPayload toy_lorawan toy_app_key (phy_frame UnconfirmedDataDown (data_pl [1, 2, 3, 4] plain_fctrl 5 10 [42])) = Inr p1"
    "SetDownlinkDataMIC toy_lorawan 0 toy_app_key p1 = Inr p2" "phy_MarshalBinary toy_lorawan p2 = Inr b"
    by (rule toy_down_frame)
  let ?p = "\<lparr>dp_DevAddr = [1, 2, 3, 4], dp_NwkSKey = toy_app_key, dp_AppSKey = toy_app_key\<rparr>"
  have d: "ParseDownlink toy_lorawan ?p b = Inr (app_downlink 10 5 [42])"
    by (rule ParseDownlink_built [OF toy_lorawan_ok f]) simp_all
  have tid: "find_session (t_ID (dv_tag toy_device)) ?st = Some r" by (simp add: s(2))
  obtain fs where h: "HandleDownlink toy_lorawan toy_device b ?st = (Inr (app_downlink 10 5 [42]),
      upd_session 1 (down_row 5 (st_clock ?st)) (?st\<lparr>db_faults := fs\<rparr>))" "db_up (?st\<lparr>db_faults := fs\<rparr>)"
    using HandleDownlink_up [OF s(1) tid s(3,4,6-8) d] s(5) by (auto simp: app_downlink_def)
  have "db_up (upd_session 1 (down_row 5 (st_clock ?st)) (?st\<lparr>db_faults := fs\<rparr>))" using h(2) by simp
  from downlink_replay_accepted [OF s(1) h(1) this] h(1) show ?thesis
    by (metis (no_types, lifting) app_downlink_def downlink.select_convs(6))
qed

end
