(* ===== verification/Client.thy ===== *)
theory Client
  imports Device Transport
begin

text \<open>
  The tag side of the link (\<open>internal/tag/client.go\<close>). The goroutine of \<open>Run\<close> and the caller of \<open>Join\<close>
  and \<open>SendUplink\<close> share the joined flag and the join channel, which holds one frame. \<open>Join\<close> is
  split where it blocks: what arrives meanwhile is an argument. What the client has written to its
  connection is \<open>cl_out\<close>; the outcome of each write is an argument (\<open>conn_Write\<close>).
\<close>

definition defaultUplinkFreq :: u32 where
  "defaultUplinkFreq = 868100000"

record client =
  cl_dev :: device
  cl_freq :: u32
  cl_joined :: bool
  cl_joinCh :: "bytes option"
  cl_out :: string

definition NewClient :: "device \<Rightarrow> client" where
  "NewClient dev = \<lparr>cl_dev = dev, cl_freq = defaultUplinkFreq, cl_joined = False, cl_joinCh = None, cl_out = []\<rparr>"

type_synonym write_fault = "(nat \<times> err) option"

definition client_write :: "write_fault \<Rightarrow> envelope \<Rightarrow> client \<Rightarrow> (unit, client) run" where
  "client_write w env c = (let (out, r) = conn_Write w env (cl_out c) in (r, c\<lparr>cl_out := out\<rparr>))"

definition hello_envelope :: "client \<Rightarrow> envelope" where
  "hello_envelope c = zero_envelope\<lparr>en_Type := TypeHello, en_DevEUI := t_DevEUI (dv_tag (cl_dev c)),
     en_Class := t_Class (dv_tag (cl_dev c)), en_Region := t_Region (dv_tag (cl_dev c))\<rparr>"

definition Hello :: "write_fault \<Rightarrow> client \<Rightarrow> (unit, client) run" where
  "Hello w c = client_write w (hello_envelope c) c"

definition up_envelope :: "client \<Rightarrow> bytes \<Rightarrow> envelope" where
  "up_envelope c frame = zero_envelope\<lparr>en_Type := TypeUp, en_DevEUI := t_DevEUI (dv_tag (cl_dev c)),
     en_Phy := hex_EncodeToString frame, en_Freq := cl_freq c,
     en_DR := word_of_int (t_DefaultDR (dv_tag (cl_dev c))), en_CodR := ''4/5''\<rparr>"

definition sendUp :: "write_fault \<Rightarrow> bytes \<Rightarrow> client \<Rightarrow> (unit, client) run" where
  "sendUp w frame c = client_write w (up_envelope c frame) c"

text \<open>One round of the loop of \<open>Run\<close> after a successful read; the value is what the hook gets.\<close>

definition client_dispatch :: "lorawan \<Rightarrow> envelope \<Rightarrow> client \<Rightarrow> store \<Rightarrow> downlink option \<times> client \<times> store" where
  "client_dispatch L env c st =
     (if en_Type env \<noteq> TypeDown then (None, c, st)
      else case hex_DecodeString (en_Phy env) of
        Inl e \<Rightarrow> (None, c, st)
      | Inr pdu \<Rightarrow>
          if \<not> cl_joined c then
            (None, (case cl_joinCh c of None \<Rightarrow> c\<lparr>cl_joinCh := Some pdu\<rparr> | Some p \<Rightarrow> c), st)
          else
            (case HandleDownlink L (cl_dev c) pdu st of
               (Inl e, st) \<Rightarrow> (None, c, st)
             | (Inr dl, st) \<Rightarrow> (Some dl, c, st)))"

text \<open>\<open>Run\<close> over what the peer sends until a read fails: the error, the decoded downlinks, the new state.\<close>

function client_Run :: "lorawan \<Rightarrow> string \<Rightarrow> client \<Rightarrow> store \<Rightarrow> err \<times> downlink list \<times> client \<times> store" where
  "client_Run L s c st =
     (case conn_Read s of
        (Inl e, r) \<Rightarrow> (e, [], c, st)
      | (Inr env, r) \<Rightarrow>
          (case client_dispatch L env c st of (h, c, st) \<Rightarrow>
             case client_Run L r c st of (e, hs, res) \<Rightarrow>
               (e, (case h of None \<Rightarrow> hs | Some dl \<Rightarrow> dl # hs), res)))"
  by pat_completeness auto
termination
  by (relation "measure (\<lambda>(L, s, c, st). length s)") (auto dest: conn_Read_shorter [OF sym])

declare client_Run.simps [simp del]

fun dispatch_all :: "lorawan \<Rightarrow> envelope list \<Rightarrow> client \<Rightarrow> store \<Rightarrow> downlink list \<times> client \<times> store" where
  "dispatch_all L [] c st = ([], c, st)"
| "dispatch_all L (env # envs) c st =
     (case client_dispatch L env c st of (h, c, st) \<Rightarrow>
        case dispatch_all L envs c st of (hs, res) \<Rightarrow> ((case h of None \<Rightarrow> hs | Some dl \<Rightarrow> dl # hs), res))"

text \<open>\<open>Join\<close> up to its select: the join-request goes out, and its DevNonce is kept.\<close>

definition client_JoinStart :: "lorawan \<Rightarrow> write_fault \<Rightarrow> client \<Rightarrow> store \<Rightarrow> (u16, client \<times> store) run" where
  "client_JoinStart L w c st =
     (let (r, st) = dev_BuildJoinRequest L (cl_dev c) st in
      seqE (r, c, st) (\<lambda>(frame, devNonce) (c, st).
      let (r, c) = sendUp w frame c in
      seqE (r, c, st) (\<lambda>_ (c, st). (Inr devNonce, c, st))))"

text \<open>The case of the select that receives from the join channel; it needs a frame there.\<close>

definition client_JoinFinish :: "aes_lib \<Rightarrow> lorawan \<Rightarrow> u16 \<Rightarrow> bytes \<Rightarrow> client \<Rightarrow> store \<Rightarrow> (unit, client \<times> store) run" where
  "client_JoinFinish A L devNonce pdu c st =
     (let c = c\<lparr>cl_joinCh := None\<rparr>; (r, st) = CompleteJoin A L (cl_dev c) devNonce pdu st in
      seqE (r, c, st) (\<lambda>_ (c, st). (Inr (), c\<lparr>cl_joined := True\<rparr>, st)))"

text \<open>
  \<open>Join\<close> while \<open>Run\<close> delivers \<open>envs\<close>. When the context ends first, \<open>Join\<close> gives up; when no frame has
  come and the context goes on, it has not returned (\<open>None\<close>).
\<close>

definition client_Join :: "aes_lib \<Rightarrow> lorawan \<Rightarrow> write_fault \<Rightarrow> envelope list \<Rightarrow> bool \<Rightarrow> client \<Rightarrow> store \<Rightarrow>
    unit res option \<times> client \<times> store" where
  "client_Join A L w envs cancelled c st =
     (case client_JoinStart L w c st of
        (Inl e, c, st) \<Rightarrow> (Some (Inl e), c, st)
      | (Inr devNonce, c, st) \<Rightarrow>
          (case dispatch_all L envs c st of (_, c, st) \<Rightarrow>
             if cancelled then (Some (Inl (Wrap ''waiting for join-accept'' Canceled)), c, st)
             else case cl_joinCh c of
               None \<Rightarrow> (None, c, st)
             | Some pdu \<Rightarrow> (case client_JoinFinish A L devNonce pdu c st of (r, res) \<Rightarrow> (Some r, res))))"

definition SendUplink :: "lorawan \<Rightarrow> go_math \<Rightarrow> write_fault \<Rightarrow> bytes option \<Rightarrow> client \<Rightarrow> store \<Rightarrow> (u32, client \<times> store) run" where
  "SendUplink L M w override c st =
     (if \<not> cl_joined c then (Inl (Err ''cannot send uplink before join''), c, st)
      else
        let (r, st) = dev_BuildUplink L M (cl_dev c) override st in
        seqE (r, c, st) (\<lambda>(frame, fcnt) (c, st).
        let (r, c) = sendUp w frame c in
        seqE (r, c, st) (\<lambda>_ (c, st). (Inr fcnt, c, st))))"

definition client_FPort :: "client \<Rightarrow> int" where
  "client_FPort c = t_FPort (dv_tag (cl_dev c))"

section \<open>What each operation leaves alone\<close>

lemma client_write_ok [simp]: "client_write None env c = (Inr (), c\<lparr>cl_out := cl_out c @ conn_line env\<rparr>)"
  by (simp add: client_write_def conn_Write_def)

lemma client_write_frame:
  assumes "client_write w env c = (r, c')"
  shows "cl_dev c' = cl_dev c \<and> cl_joined c' = cl_joined c \<and> cl_joinCh c' = cl_joinCh c \<and> cl_freq c' = cl_freq c"
  using assms by (auto simp: client_write_def split: prod.splits)

lemma sendUp_frame:
  assumes "sendUp w frame c = (r, c')"
  shows "cl_dev c' = cl_dev c \<and> cl_joined c' = cl_joined c \<and> cl_joinCh c' = cl_joinCh c \<and> cl_freq c' = cl_freq c"
  using client_write_frame assms by (simp add: sendUp_def)

lemma dispatch_frame:
  assumes "client_dispatch L env c st = (h, c', st')"
  shows "cl_dev c' = cl_dev c \<and> cl_joined c' = cl_joined c \<and> cl_out c' = cl_out c \<and> cl_freq c' = cl_freq c"
  using assms by (auto simp: client_dispatch_def split: if_splits sum.splits option.splits prod.splits)

lemma dispatch_all_frame:
  "dispatch_all L envs c st = (hs, c', st') \<Longrightarrow>
     cl_dev c' = cl_dev c \<and> cl_joined c' = cl_joined c \<and> cl_out c' = cl_out c \<and> cl_freq c' = cl_freq c"
proof (induction envs arbitrary: hs c st)
  case (Cons e es)
  obtain h c1 st1 where d: "client_dispatch L e c st = (h, c1, st1)" by (rule prod_cases3)
  obtain hs2 c2 st2 where a: "dispatch_all L es c1 st1 = (hs2, c2, st2)" by (rule prod_cases3)
  have "dispatch_all L es c1 st1 = (hs2, c', st')" using Cons.prems d a by simp
  from Cons.IH [OF this] dispatch_frame [OF d] show ?case by simp
qed simp

lemma client_Run_lines:
  "list_all envelope_ok envs \<Longrightarrow>
     client_Run L (concat (map conn_line envs)) c st =
       (case dispatch_all L envs c st of (hs, res) \<Rightarrow> (EOF, hs, res))"
proof (induction envs arbitrary: c st)
  case Nil
  show ?case by (subst client_Run.simps) (simp add: conn_Read_def)
next
  case (Cons e es)
  obtain h c1 st1 where d: "client_dispatch L e c st = (h, c1, st1)" by (rule prod_cases3)
  from Cons d show ?case
    by (subst client_Run.simps) (simp add: conn_Read_line split: prod.splits)
qed

lemma dispatch_unjoined_store: "\<not> cl_joined c \<Longrightarrow> dispatch_all L envs c st = (hs, c', st') \<Longrightarrow> st' = st \<and> hs = []"
proof (induction envs arbitrary: c hs)
  case (Cons e es)
  obtain h c1 st1 where d: "client_dispatch L e c st = (h, c1, st1)" by (rule prod_cases3)
  obtain hs2 c2 st2 where a: "dispatch_all L es c1 st1 = (hs2, c2, st2)" by (rule prod_cases3)
  have "st1 = st" "h = None"
    using d Cons.prems(1) by (auto simp: client_dispatch_def split: if_splits sum.splits)
  moreover have "\<not> cl_joined c1" using dispatch_frame [OF d] Cons.prems(1) by simp
  ultimately show ?case using Cons.IH [of c1] Cons.prems(2) d a by auto
qed simp

lemma dispatch_unjoined_keeps:
  "\<not> cl_joined c \<Longrightarrow> cl_joinCh c = Some p \<Longrightarrow> dispatch_all L envs c st = (hs, c', st') \<Longrightarrow> cl_joinCh c' = Some p"
proof (induction envs arbitrary: c hs st)
  case (Cons e es)
  obtain h c1 st1 where d: "client_dispatch L e c st = (h, c1, st1)" by (rule prod_cases3)
  obtain hs2 c2 st2 where a: "dispatch_all L es c1 st1 = (hs2, c2, st2)" by (rule prod_cases3)
  have "cl_joinCh c1 = Some p"
    using d Cons.prems(1,2) by (auto simp: client_dispatch_def split: if_splits sum.splits)
  moreover have "\<not> cl_joined c1" using dispatch_frame [OF d] Cons.prems(1) by simp
  ultimately show ?case using Cons.IH [of c1 st1] Cons.prems(3) d a by auto
qed simp

lemma SendUplink_Inr:
  assumes "SendUplink L M w override c st = (Inr fcnt, c', st')"
  obtains frame where "cl_joined c" "dev_BuildUplink L M (cl_dev c) override st = (Inr (frame, fcnt), st')"
    "sendUp w frame c = (Inr (), c')"
proof -
  obtain r st1 where b: "dev_BuildUplink L M (cl_dev c) override st = (r, st1)" by fastforce
  from assms b obtain frame where r: "r = Inr (frame, fcnt)" and j: "cl_joined c"
    by (cases r) (auto simp: SendUplink_def res_simps Let_def split: if_splits prod.splits)
  from assms b r j show thesis
    by (cases "sendUp w frame c") (auto simp: SendUplink_def res_simps Let_def intro: that)
qed

end
