(* ===== verification/Network.thy ===== *)
theory Network
  imports MockLns Bridge Client
begin

text \<open>
  The parts put together: what the emulated network server sends is what the tag accepts, hop by
  hop from the tag's frame to the tag's session.
\<close>

section \<open>The network server and the tag\<close>

lemma mock_send_Inr:
  assumes "mock_send c msg m = (Inr u, m')"
  shows "mk_out m' = (mk_out m)(c := mk_out m c @ [on_wire msg])" "mk_sessions m' = mk_sessions m"
    "mk_heap m' = mk_heap m" "mk_cfg m' = mk_cfg m" "mk_conn m' = mk_conn m" "mk_diid m' = mk_diid m"
proof -
  let ?b = "json_print (enc_message msg)"
  consider fs' where "ws_write (mk_faults m) ?b (mk_out m c) = (Inr (), mk_out m c @ [?b], fs')"
    | e fs' where "ws_write (mk_faults m) ?b (mk_out m c) = (Inl e, mk_out m c, fs')"
    by (rule ws_write_cases)
  then have "\<exists>fs'. m' = m\<lparr>mk_out := (mk_out m)(c := mk_out m c @ [?b]), mk_faults := fs'\<rparr>"
    using assms by cases (auto simp: mock_send_def mock_write_def Encode_def)
  then show "mk_out m' = (mk_out m)(c := mk_out m c @ [on_wire msg])" "mk_sessions m' = mk_sessions m"
    "mk_heap m' = mk_heap m" "mk_cfg m' = mk_cfg m" "mk_conn m' = mk_conn m" "mk_diid m' = mk_diid m"
    by (auto simp: on_wire_def)
qed

lemma handleJreq_Inr:
  assumes "handleJreq L c jr m = (Inr u, m')"
  obtains accept where "buildJoinAccept L (mk_cfg m) jr (mk_joinNonce m + 1) = Inr accept"
    "mk_out m' = (mk_out m)(c := mk_out m c @ [on_wire (MDnmsg (accept_dnmsg (mk_cfg m) jr (mk_diid m + 1) accept))])"
    "mk_sessions m' = (mk_sessions m)(jq_DevEui jr \<mapsto> length (mk_heap m))"
    "mk_heap m' = mk_heap m @ [\<lparr>ji_joinNonce = mk_joinNonce m + 1, ji_devNonce = jq_DevNonce jr, ji_fcntDown = 0\<rparr>]"
    "mk_cfg m' = mk_cfg m" "mk_conn m' = mk_conn m"
proof -
  from assms obtain accept where b: "buildJoinAccept L (mk_cfg m) jr (mk_joinNonce m + 1) = Inr accept"
    by (auto simp: handleJreq_def Let_def res_simps)
  define m2 where "m2 = (remember jr (mk_joinNonce m + 1) (m\<lparr>mk_joinNonce := mk_joinNonce m + 1\<rparr>))\<lparr>mk_diid := mk_diid m + 1\<rparr>"
  have "mock_send c (MDnmsg (accept_dnmsg (mk_cfg m) jr (mk_diid m + 1) accept)) m2 = (Inr u, m')"
    using assms b by (simp add: handleJreq_def Let_def m2_def remember_def)
  note s = mock_send_Inr [OF this]
  show thesis
    by (rule that [OF b]) (simp_all add: s, simp_all add: m2_def remember_def)
qed

lemma buildJoinAccept_parsed:
  assumes "lorawan_ok L" and "aes_block_ok A" and "buildJoinAccept L cfg jr j = Inr accept"
    and "jq_JoinEui jr = hex_EncodeToString (pr_JoinEUI p)" and "mcfg_AppKey cfg = pr_AppKey p"
    and "DeriveNwkSKey A L (mcfg_AppKey cfg) (mcfg_NetID cfg) j (jq_DevNonce jr) = Inr nwk"
    and "DeriveAppSKey A L (mcfg_AppKey cfg) (mcfg_NetID cfg) j (jq_DevNonce jr) = Inr app"
  obtains res where "ParseJoinAccept A L p (jq_DevNonce jr) accept = Inr res"
    "jres_NwkSKey res = nwk" "jres_AppSKey res = app" "jres_DevAddr res = mcfg_DevAddr cfg"
    "length nwk = 16" "length app = 16"
proof -
  obtain p1 p2 where f: "SetDownlinkJoinMIC L (pr_JoinEUI p) (jq_DevNonce jr) (pr_AppKey p)
      (phy_frame JoinAccept (JoinAcceptPayload (join_accept_of cfg j))) = Inr p1"
    "EncryptJoinAcceptPayload L (pr_AppKey p) p1 = Inr p2" "phy_MarshalBinary L p2 = Inr accept"
    using assms(3-5) by (auto simp: buildJoinAccept_def mock_parseEUI64_def res_simps split: if_splits)
  have d: "DeriveNwkSKey A L (pr_AppKey p) (ja_HomeNetID (join_accept_of cfg j)) (ja_JoinNonce (join_accept_of cfg j)) (jq_DevNonce jr) = Inr nwk"
    "DeriveAppSKey A L (pr_AppKey p) (ja_HomeNetID (join_accept_of cfg j)) (ja_JoinNonce (join_accept_of cfg j)) (jq_DevNonce jr) = Inr app"
    using assms(5-7) by (simp_all add: join_accept_of_def)
  note b = ParseJoinAccept_built [OF assms(1,2) f d]
  show thesis
    by (rule that [OF b [THEN conjunct1]]) (use b in \<open>simp_all add: join_accept_of_def\<close>)
qed

lemma push_rest_Inr:
  assumes "push_rest A L devEUI fport data (mc, Some a) m = (Inr u, m')"
  obtains c nwk app pdu where "mc = Some c"
    "DeriveNwkSKey A L (mcfg_AppKey (mk_cfg m)) (mcfg_NetID (mk_cfg m)) (ji_joinNonce (mk_heap m ! a)) (ji_devNonce (mk_heap m ! a)) = Inr nwk"
    "DeriveAppSKey A L (mcfg_AppKey (mk_cfg m)) (mcfg_NetID (mk_cfg m)) (ji_joinNonce (mk_heap m ! a)) (ji_devNonce (mk_heap m ! a)) = Inr app"
    "buildDataDownlink L nwk app (mcfg_DevAddr (mk_cfg m)) (ji_fcntDown (mk_heap m ! a) - 1) fport data = Inr pdu"
    "mk_out m' = (mk_out m)(c := mk_out m c @ [on_wire (MDnmsg (push_dnmsg (mk_cfg m) devEUI (mk_diid m + 1) pdu))])"
    "mk_heap m' = mk_heap m" "mk_cfg m' = mk_cfg m" "mk_diid m' = mk_diid m + 1"
proof -
  from assms obtain c where c: "mc = Some c" by (cases mc) (auto simp: push_rest_def)
  from assms c obtain nwk app pdu where
    k: "DeriveNwkSKey A L (mcfg_AppKey (mk_cfg m)) (mcfg_NetID (mk_cfg m)) (ji_joinNonce (mk_heap m ! a)) (ji_devNonce (mk_heap m ! a)) = Inr nwk"
      "DeriveAppSKey A L (mcfg_AppKey (mk_cfg m)) (mcfg_NetID (mk_cfg m)) (ji_joinNonce (mk_heap m ! a)) (ji_devNonce (mk_heap m ! a)) = Inr app"
    and b: "buildDataDownlink L nwk app (mcfg_DevAddr (mk_cfg m)) (ji_fcntDown (mk_heap m ! a) - 1) fport data = Inr pdu"
    and s: "mock_send c (MDnmsg (push_dnmsg (mk_cfg m) devEUI (mk_diid m + 1) pdu)) (m\<lparr>mk_diid := mk_diid m + 1\<rparr>) = (Inr u, m')"
    by (auto simp: push_rest_def Let_def res_simps)
  show thesis
    by (rule that [OF c k b]) (use mock_send_Inr [OF s] in simp_all)
qed

text \<open>A successful push runs under the counter that was next, and moves it on.\<close>

lemma PushClassC_Inr:
  assumes "PushClassC A L devEUI fport data m = (Inr u, m')" and "mk_sessions m devEUI = Some a" and "a < length (mk_heap m)"
  obtains c nwk app pdu where "mk_conn m = Some c"
    "DeriveNwkSKey A L (mcfg_AppKey (mk_cfg m)) (mcfg_NetID (mk_cfg m)) (ji_joinNonce (mk_heap m ! a)) (ji_devNonce (mk_heap m ! a)) = Inr nwk"
    "DeriveAppSKey A L (mcfg_AppKey (mk_cfg m)) (mcfg_NetID (mk_cfg m)) (ji_joinNonce (mk_heap m ! a)) (ji_devNonce (mk_heap m ! a)) = Inr app"
    "buildDataDownlink L nwk app (mcfg_DevAddr (mk_cfg m)) (ji_fcntDown (mk_heap m ! a)) fport data = Inr pdu"
    "mk_out m' = (mk_out m)(c := mk_out m c @ [on_wire (MDnmsg (push_dnmsg (mk_cfg m) devEUI (mk_diid m + 1) pdu))])"
    "ji_fcntDown (mk_heap m' ! a) = ji_fcntDown (mk_heap m ! a) + 1"
proof -
  define ji where "ji = (mk_heap m ! a)\<lparr>ji_fcntDown := ji_fcntDown (mk_heap m ! a) + 1\<rparr>"
  define m1 where "m1 = m\<lparr>mk_heap := (mk_heap m)[a := ji]\<rparr>"
  have r: "push_rest A L devEUI fport data (mk_conn m, Some a) m1 = (Inr u, m')"
    using assms(1,2) by (simp add: PushClassC_def push_lock_def m1_def ji_def)
  have m1: "mk_heap m1 ! a = ji" "mk_cfg m1 = mk_cfg m" "mk_diid m1 = mk_diid m" "mk_out m1 = mk_out m"
    using assms(3) by (simp_all add: m1_def)
  show thesis
    by (rule push_rest_Inr [OF r], rule that) (use m1 in \<open>simp_all add: ji_def\<close>)
qed

lemma buildDataDownlink_parsed:
  assumes "lorawan_ok L" and "buildDataDownlink L nwk app addr fcnt fport data = Inr pdu"
    and "length addr = 4" and "data \<noteq> []" and "unat fcnt < 65536" and "fport \<noteq> 0"
    and "dp_NwkSKey q = nwk" and "dp_AppSKey q = app"
  shows "ParseDownlink L q pdu = Inr (app_downlink fport fcnt data)"
proof -
  obtain p1 p2 where f: "EncryptFRMPayload L app (phy_frame UnconfirmedDataDown (data_pl addr plain_fctrl fcnt fport data)) = Inr p1"
    "SetDownlinkDataMIC L 0 nwk p1 = Inr p2" "phy_MarshalBinary L p2 = Inr pdu"
    using assms(2) by (auto simp: buildDataDownlink_def res_simps)
  show ?thesis by (rule ParseDownlink_built [OF assms(1) f assms(3-8)])
qed

section \<open>Runs of the emulated network server\<close>

definition toy_mock_config :: mock_config where
  "toy_mock_config = \<lparr>mcfg_Region = [], mcfg_NetID = [0, 0, 19], mcfg_AppKey = toy_app_key, mcfg_DevAddr = [1, 2, 3, 4],
     mcfg_JoinNonce = 0, mcfg_RX2Freq = 0, mcfg_RX2DR = 0, mcfg_RxDelay = 0\<rparr>"

text \<open>One device has joined through connection 5.\<close>

definition toy_mock :: mock where
  "toy_mock = (mock_New toy_mock_config)\<lparr>mk_conn := Some 5, mk_sessions := [''01'' \<mapsto> 0],
     mk_heap := [\<lparr>ji_joinNonce = 1, ji_devNonce = 2, ji_fcntDown = 0\<rparr>]\<rparr>"

lemma toy_mock [simp]:
  "mk_conn toy_mock = Some 5" "mk_sessions toy_mock ''01'' = Some 0" "mk_faults toy_mock = []"
  "mk_heap toy_mock = [\<lparr>ji_joinNonce = 1, ji_devNonce = 2, ji_fcntDown = 0\<rparr>]"
  "mcfg_NetID (mk_cfg toy_mock) = [0, 0, 19]" "mcfg_AppKey (mk_cfg toy_mock) = toy_app_key"
  "mcfg_DevAddr (mk_cfg toy_mock) = [1, 2, 3, 4]"
  by (simp_all add: toy_mock_def mock_New_def Let_def withDefaults_def toy_mock_config_def)

lemma toy_push_rest:
  assumes "mk_faults m = []" and "mk_cfg m = mk_cfg toy_mock" and "ji_joinNonce (mk_heap m ! a) = 1"
  obtains m' where "push_rest toy_aes toy_lorawan d fport data (Some c, Some a) m = (Inr (), m')"
    "mk_faults m' = []" "mk_cfg m' = mk_cfg toy_mock" "mk_heap m' = mk_heap m"
proof -
  obtain nwk app where k: "DeriveNwkSKey toy_aes toy_lorawan toy_app_key [0, 0, 19] 1 (ji_devNonce (mk_heap m ! a)) = Inr nwk"
    "DeriveAppSKey toy_aes toy_lorawan toy_app_key [0, 0, 19] 1 (ji_devNonce (mk_heap m ! a)) = Inr app"
    using toy_derive [of toy_app_key "[0, 0, 19]" 1 "ji_devNonce (mk_heap m ! a)"] by (auto simp: toy_app_key_def)
  obtain p1 p2 b where f: "EncryptFRMPayload toy_lorawan app (phy_frame UnconfirmedDataDown
       (data_pl [1, 2, 3, 4] plain_fctrl (ji_fcntDown (mk_heap m ! a) - 1) fport data)) = Inr p1"
    "SetDownlinkDataMIC toy_lorawan 0 nwk p1 = Inr p2" "phy_MarshalBinary toy_lorawan p2 = Inr b"
    by (rule toy_down_frame)
  have "\<exists>m'. push_rest toy_aes toy_lorawan d fport data (Some c, Some a) m = (Inr (), m') \<and>
      mk_faults m' = [] \<and> mk_cfg m' = mk_cfg toy_mock \<and> mk_heap m' = mk_heap m"
    by (simp add: push_rest_def assms k buildDataDownlink_def f mock_send_ok Let_def)
  with that show thesis by blast
qed

section \<open>Properties\<close>

text \<open>C36: two Class C pushes that run at the same time send two frames under one counter. When the second
  push takes the lock before the first has read the counter again, both frames carry the counter
  after the next one, and the next one is never sent.\<close>

theorem class_c_counter_race:
  assumes "mk_sessions m d = Some a" and "a < length (mk_heap m)"
    and "push_lock d m = (found1, m1)" and "push_lock d m1 = (found2, m2)"
    and "push_rest A L d port1 data1 found1 m2 = (Inr (), m3)" and "push_rest A L d port2 data2 found2 m3 = (Inr (), m4)"
  shows "\<exists>c nwk app pdu1 pdu2 dn1 dn2.
     buildDataDownlink L nwk app (mcfg_DevAddr (mk_cfg m)) (ji_fcntDown (mk_heap m ! a) + 1) port1 data1 = Inr pdu1 \<and>
     buildDataDownlink L nwk app (mcfg_DevAddr (mk_cfg m)) (ji_fcntDown (mk_heap m ! a) + 1) port2 data2 = Inr pdu2 \<and>
     mk_out m4 c = mk_out m c @ [on_wire (MDnmsg dn1), on_wire (MDnmsg dn2)] \<and>
     dn_Pdu dn1 = hex_EncodeToString pdu1 \<and> dn_Pdu dn2 = hex_EncodeToString pdu2"
proof -
  let ?f = "ji_fcntDown (mk_heap m ! a)"
  have f: "found1 = (mk_conn m, Some a)" "found2 = (mk_conn m, Some a)"
    using assms(1,3,4) by (auto simp: push_lock_def)
  have m2: "mk_heap m2 ! a = (mk_heap m ! a)\<lparr>ji_fcntDown := ?f + 2\<rparr>" "mk_cfg m2 = mk_cfg m" "mk_out m2 = mk_out m"
    using assms(1-4) by (auto simp: push_lock_def)
  obtain c nwk app pdu1 where a: "mk_conn m = Some c"
    "DeriveNwkSKey A L (mcfg_AppKey (mk_cfg m)) (mcfg_NetID (mk_cfg m)) (ji_joinNonce (mk_heap m ! a)) (ji_devNonce (mk_heap m ! a)) = Inr nwk"
    "DeriveAppSKey A L (mcfg_AppKey (mk_cfg m)) (mcfg_NetID (mk_cfg m)) (ji_joinNonce (mk_heap m ! a)) (ji_devNonce (mk_heap m ! a)) = Inr app"
    "buildDataDownlink L nwk app (mcfg_DevAddr (mk_cfg m)) (?f + 1) port1 data1 = Inr pdu1"
    "mk_out m3 = (mk_out m)(c := mk_out m c @ [on_wire (MDnmsg (push_dnmsg (mk_cfg m) d (mk_diid m2 + 1) pdu1))])"
    "mk_heap m3 ! a = (mk_heap m ! a)\<lparr>ji_fcntDown := ?f + 2\<rparr>" "mk_cfg m3 = mk_cfg m"
    by (rule push_rest_Inr [OF assms(5) [unfolded f]], rule that) (use m2 in \<open>simp_all add: add.commute\<close>)
  obtain c' nwk' app' pdu2 where b: "mk_conn m = Some c'"
    "DeriveNwkSKey A L (mcfg_AppKey (mk_cfg m3)) (mcfg_NetID (mk_cfg m3)) (ji_joinNonce (mk_heap m3 ! a)) (ji_devNonce (mk_heap m3 ! a)) = Inr nwk'"
    "DeriveAppSKey A L (mcfg_AppKey (mk_cfg m3)) (mcfg_NetID (mk_cfg m3)) (ji_joinNonce (mk_heap m3 ! a)) (ji_devNonce (mk_heap m3 ! a)) = Inr app'"
    "buildDataDownlink L nwk' app' (mcfg_DevAddr (mk_cfg m3)) (ji_fcntDown (mk_heap m3 ! a) - 1) port2 data2 = Inr pdu2"
    "mk_out m4 = (mk_out m3)(c' := mk_out m3 c' @ [on_wire (MDnmsg (push_dnmsg (mk_cfg m3) d (mk_diid m3 + 1) pdu2))])"
    by (rule push_rest_Inr [OF assms(6) [unfolded f]])
  have "c' = c" "nwk' = nwk" "app' = app" using a b by simp_all
  moreover have "?f + 2 - 1 = ?f + 1" by simp
  ultimately have "buildDataDownlink L nwk app (mcfg_DevAddr (mk_cfg m)) (?f + 1) port2 data2 = Inr pdu2"
    "mk_out m4 c = mk_out m c @ [on_wire (MDnmsg (push_dnmsg (mk_cfg m) d (mk_diid m2 + 1) pdu1)),
       on_wire (MDnmsg (push_dnmsg (mk_cfg m) d (mk_diid m3 + 1) pdu2))]"
    using a(5-7) b(4,5) by (simp_all add: add.commute)
  with a(4) show ?thesis
    by (intro exI [of _ c] exI [of _ nwk] exI [of _ app] exI [of _ pdu1] exI [of _ pdu2]
        exI [of _ "push_dnmsg (mk_cfg m) d (mk_diid m2 + 1) pdu1"] exI [of _ "push_dnmsg (mk_cfg m) d (mk_diid m3 + 1) pdu2"])
      (simp add: push_dnmsg_def)
qed

theorem class_c_counter_race_witness:
  "\<exists>c nwk app pdu1 pdu2. buildDataDownlink toy_lorawan nwk app [1, 2, 3, 4] 1 10 [42] = Inr pdu1 \<and>
     buildDataDownlink toy_lorawan nwk app [1, 2, 3, 4] 1 10 [43] = Inr pdu2 \<and> c = (5 :: nat)"
proof -
  define m1 where "m1 = snd (push_lock ''01'' toy_mock)"
  define m2 where "m2 = snd (push_lock ''01'' m1)"
  have l: "push_lock ''01'' toy_mock = ((Some 5, Some 0), m1)" "push_lock ''01'' m1 = ((Some 5, Some 0), m2)"
    by (simp_all add: m1_def m2_def push_lock_def)
  have m2: "mk_faults m2 = []" "mk_cfg m2 = mk_cfg toy_mock" "ji_joinNonce (mk_heap m2 ! 0) = 1"
    by (simp_all add: m1_def m2_def push_lock_def)
  obtain m3 where r1: "push_rest toy_aes toy_lorawan ''01'' 10 [42] (Some 5, Some 0) m2 = (Inr (), m3)"
    and m3: "mk_faults m3 = []" "mk_cfg m3 = mk_cfg toy_mock" "mk_heap m3 = mk_heap m2"
    by (rule toy_push_rest [OF m2])
  from m3(3) m2(3) have j: "ji_joinNonce (mk_heap m3 ! 0) = 1" by simp
  obtain m4 where r2: "push_rest toy_aes toy_lorawan ''01'' 10 [43] (Some 5, Some 0) m3 = (Inr (), m4)"
    by (rule toy_push_rest [OF m3(1,2) j])
  have len: "0 < length (mk_heap toy_mock)" by simp
  from class_c_counter_race [OF toy_mock(2) len l r1 r2] show ?thesis by auto
qed

end
