(* ===== verification/EndToEnd.thy ===== *)
theory EndToEnd
  imports Network
begin

text \<open>
  A whole join: the bytes a tag writes are given to the gateway, what the gateway writes to the
  network server is given to the emulated network server, and back.
\<close>

section \<open>The hops\<close>

text \<open>The gateway's downlink callback, over the state of its network-server client and its own.\<close>

definition on_dnmsg :: "(nat \<times> err) option \<Rightarrow> dnmsg \<Rightarrow> lns \<times> gateway \<Rightarrow> lns \<times> gateway" where
  "on_dnmsg w dn lg = (case OnDnmsg lns_client w dn (snd lg, fst lg) of (g, l) \<Rightarrow> (l, g))"

text \<open>What was added to an output.\<close>

definition added :: "'a list \<Rightarrow> 'a list \<Rightarrow> 'a list" where
  "added old new = drop (length old) new"

lemma added_append [simp]: "added xs (xs @ ys) = ys"
  by (simp add: added_def)

text \<open>Tag connection \<open>k\<close> at the gateway, gateway connection \<open>q\<close> at the network server.\<close>

definition join_round :: "aes_lib \<Rightarrow> lorawan \<Rightarrow> nat \<Rightarrow> nat \<Rightarrow> client \<Rightarrow> store \<Rightarrow> gateway \<Rightarrow> lns \<Rightarrow> mock \<Rightarrow>
    unit res option \<times> client \<times> store \<times> gateway \<times> lns \<times> mock" where
  "join_round A L k q c st g l m =
     (case client_JoinStart L None c st of
        (Inl e, c, st) \<Rightarrow> (Some (Inl e), c, st, g, l, m)
      | (Inr devNonce, c1, st1) \<Rightarrow>
          (case conn_Read (added (cl_out c) (cl_out c1)) of
             (Inl e, _) \<Rightarrow> (None, c1, st1, g, l, m)
           | (Inr env, _) \<Rightarrow>
               (case handle_env L lns_client k env (g, l) of (g1, l1) \<Rightarrow>
                case mock_loop L q (map Inr (added (ln_out l) (ln_out l1))) m of (_, m1) \<Rightarrow>
                case lns_Run (Some (on_dnmsg None)) (map Inr (added (mk_out m q) (mk_out m1 q))) (l1, g1) of (_, l2, g2) \<Rightarrow>
                case client_Run L (added (gw_wires g k) (gw_wires g2 k)) c1 st1 of (_, _, c2, st2) \<Rightarrow>
                case cl_joinCh c2 of
                  None \<Rightarrow> (None, c2, st2, g2, l2, m1)
                | Some pdu \<Rightarrow> (case client_JoinFinish A L devNonce pdu c2 st2 of (r, c3, st3) \<Rightarrow> (Some r, c3, st3, g2, l2, m1)))))"

lemma ascii_hex [simp]: "ascii (hex_EncodeToString b)"
proof -
  have "of_char c < (128 :: nat)" if "is_lower_hex c" for c
    using that by (auto simp: is_lower_hex_def is_hex_def hex_val_def Let_def split: if_splits)
  then show ?thesis using hex_Encode_lower [of _ b] by (auto simp: ascii_def list_all_iff)
qed

lemma int64_ok_sint [simp]: "int64_ok (sint (x :: u64))"
  using sint_range_size [of x] by (simp add: int64_ok_def word_size)

lemma int32_ok_int32_of [simp]: "int32_ok (int32_of x)"
  using int32_of_range [of x] by (simp add: int32_ok_def)

lemma int64_ok_0 [simp]: "int64_ok 0"
  by (simp add: int64_ok_def)

lemma synth_info_ok: "int64_ok i \<Longrightarrow> int64_ok j \<Longrightarrow> up_info_ok (SynthUpInfo i j)"
  by (simp add: up_info_ok_def SynthUpInfo_def defaultRSSI_def defaultSNR_def int64_ok_def)

text \<open>A message on the wire is read back by the other side.\<close>

lemma Decode_on_wire: "message_ok msg \<Longrightarrow> Decode (on_wire msg) = Inr msg"
  by (rule Decode_Encode) (simp_all add: on_wire_def Encode_def)

lemma bridged_jreq_ok: "message_ok (typed_jreq (bridged_jreq p n mic mhdr freq dr (SynthUpInfo 0 (sint (x :: u64)))))"
  by (simp add: typed_jreq_def message_ok_def jreq_ok_def bridged_jreq_def synth_info_ok)
    (simp add: TypeJreq_def ascii_def)

lemma accept_dnmsg_ok:
  "ascii (jq_DevEui jr) \<Longrightarrow> int64_ok (mcfg_RxDelay cfg) \<Longrightarrow> int64_ok (ui_XTime (jq_UpInfo jr)) \<Longrightarrow>
     int64_ok (ui_RCtx (jq_UpInfo jr)) \<Longrightarrow> message_ok (MDnmsg (accept_dnmsg cfg jr diid b))"
  by (simp add: message_ok_def dnmsg_ok_def accept_dnmsg_def) (simp add: TypeDnmsg_def ascii_def)

lemma JoinStart_hop:
  assumes "dev_BuildJoinRequest L (cl_dev c) st = (Inr (frame, n), st1)"
  shows "client_JoinStart L None c st = (Inr n, c\<lparr>cl_out := cl_out c @ conn_line (up_envelope c frame)\<rparr>, st1)"
  by (simp add: client_JoinStart_def assms sendUp_def)

lemma up_envelope_ok: "ascii (t_DevEUI (dv_tag (cl_dev c))) \<Longrightarrow> envelope_ok (up_envelope c frame)"
  by (simp add: envelope_ok_def up_envelope_def zero_envelope_def) (simp add: ascii_def TypeUp_def)

lemma down_envelope_ok: "ascii (dn_DevEui dn) \<Longrightarrow> ascii (dn_Pdu dn) \<Longrightarrow> envelope_ok (down_envelope dn)"
  by (simp add: envelope_ok_def down_envelope_def zero_envelope_def Let_def ChooseRXWindow_def)
    (simp add: ascii_def TypeDown_def WindowRX1_def WindowRX2_def WindowClassC_def)

lemma gateway_hop:
  assumes "ParseUplink L (en_Phy env) (en_Freq env) (en_DR env) (SynthUpInfo 0 (sint (gw_xtime g + 1))) = Inr pu"
    and "pu_Message pu = MJreq jr" and "ln_faults l = []" and "en_Type env = TypeUp"
  shows "handle_env L lns_client k env (g, l) =
    (g\<lparr>gw_xtime := gw_xtime g + 1\<rparr>, l\<lparr>ln_out := ln_out l @ [on_wire (typed_jreq jr)]\<rparr>)"
proof -
  have "SendJreq jr l = (Inr (), l\<lparr>ln_out := ln_out l @ [on_wire (typed_jreq jr)]\<rparr>)"
    by (simp add: SendJreq_def lns_send_ok assms(3) on_wire_def typed_jreq_def)
  then show ?thesis
    by (simp add: handle_env_def handleUplink_def assms lns_client_def TypeUp_def TypeHello_def Let_def)
qed

lemma mock_hop:
  assumes "message_ok (typed_jreq jr)" and "handleJreq L q (jr\<lparr>jq_MsgType := TypeJreq\<rparr>) m = (Inr u, m')"
  shows "mock_loop L q [Inr (on_wire (typed_jreq jr))] m = (None, m')"
  using Decode_on_wire [OF assms(1)] assms(2) by (simp add: typed_jreq_def)

lemma downlink_hop:
  assumes "message_ok (MDnmsg dn)" and "gw_lookup (dn_DevEui dn) g = Some k" and "ln_faults l = []"
  shows "lns_Run (Some (on_dnmsg None)) [Inr (on_wire (MDnmsg dn))] (l, g) =
    (None, l\<lparr>ln_out := ln_out l @ [on_wire (typed_dntxed (dntxed_of dn))]\<rparr>,
     g\<lparr>gw_wires := (gw_wires g)(k := gw_wires g k @ conn_line (down_envelope dn))\<rparr>)"
  using Decode_on_wire [OF assms(1)]
  by (simp add: on_dnmsg_def OnDnmsg_def assms(2) conn_Write_def lns_client_def SendDntxed_def lns_send_ok assms(3)
      on_wire_def typed_dntxed_def Let_def)

lemma client_hop:
  assumes "envelope_ok (down_envelope dn)" and "dn_Pdu dn = hex_EncodeToString pdu"
    and "\<not> cl_joined c" and "cl_joinCh c = None"
  shows "client_Run L (conn_line (down_envelope dn)) c st = (EOF, [], c\<lparr>cl_joinCh := Some pdu\<rparr>, st)"
proof -
  have "client_dispatch L (down_envelope dn) c st = (None, c\<lparr>cl_joinCh := Some pdu\<rparr>, st)"
    using assms(2-4) by (simp add: client_dispatch_def down_envelope_def Let_def zero_envelope_def)
  then show ?thesis using client_Run_lines [of "[down_envelope dn]" L c st] assms(1) by simp
qed

lemma handleJreq_up:
  assumes "mk_faults m = []" and "buildJoinAccept L (mk_cfg m) jr (mk_joinNonce m + 1) = Inr accept"
  obtains m' where "handleJreq L q jr m = (Inr (), m')"
  using assms by (simp add: handleJreq_def Let_def mock_send_ok remember_def)

lemma dev_BuildJoinRequest_Inr:
  assumes "dev_BuildJoinRequest L d st = (Inr (frame, n), st1)"
  shows "BuildJoinRequest L (dv_prov d) n = Inr frame"
  using assms by (auto simp: dev_BuildJoinRequest_def res_simps split: prod.splits)

definition cipher_ok :: "cipher \<Rightarrow> bool" where
  "cipher_ok c = (case c_aead c of Some a \<Rightarrow> c_enabled c \<and> aead_ok a | None \<Rightarrow> \<not> c_enabled c)"

lemma cipher_ok_hex: "cipher_ok c \<Longrightarrow> protects c (hexBytes b)"
  using hexBytes_protected [of b]
  by (auto simp: cipher_ok_def protects_def NewInsecureDisabled_def split: option.splits)

lemma bridged_jreq_simps [simp]:
  "jq_JoinEui (bridged_jreq p n mic h f d i) = hex_EncodeToString (pr_JoinEUI p)"
  "jq_DevEui (bridged_jreq p n mic h f d i) = hex_EncodeToString (pr_DevEUI p)"
  "jq_DevNonce (bridged_jreq p n mic h f d i) = n" "jq_UpInfo (bridged_jreq p n mic h f d i) = i"
  by (simp_all add: bridged_jreq_def)

lemma synth_info_simps [simp]: "ui_XTime (SynthUpInfo a b) = b" "ui_RCtx (SynthUpInfo a b) = a"
  by (simp_all add: SynthUpInfo_def)

lemma accept_dnmsg_simps [simp]:
  "dn_DevEui (accept_dnmsg cfg jr d b) = jq_DevEui jr" "dn_Pdu (accept_dnmsg cfg jr d b) = hex_EncodeToString b"
  by (simp_all add: accept_dnmsg_def)

text \<open>From the tag's connection to the frame in its join channel.\<close>

lemma join_hops:
  assumes "lorawan_ok L" and "bridge_ok L"
    and "length (pr_DevEUI (dv_prov (cl_dev c))) = 8" and "length (pr_JoinEUI (dv_prov (cl_dev c))) = 8"
    and "ascii (t_DevEUI (dv_tag (cl_dev c)))" and "\<not> cl_joined c" and "cl_joinCh c = None"
    and "dev_BuildJoinRequest L (cl_dev c) st = (Inr (frame, n), st1)"
    and "gw_lookup (hex_EncodeToString (pr_DevEUI (dv_prov (cl_dev c)))) g = Some k" and "ln_faults l = []"
    and "mk_faults m = []" and "int64_ok (mcfg_RxDelay (mk_cfg m))"
    and "mcfg_AppKey (mk_cfg m) = pr_AppKey (dv_prov (cl_dev c))"
    and "SetDownlinkJoinMIC L (pr_JoinEUI (dv_prov (cl_dev c))) n (pr_AppKey (dv_prov (cl_dev c)))
           (phy_frame JoinAccept (JoinAcceptPayload (join_accept_of (mk_cfg m) (mk_joinNonce m + 1)))) = Inr p1"
    and "EncryptJoinAcceptPayload L (pr_AppKey (dv_prov (cl_dev c))) p1 = Inr p2" and "phy_MarshalBinary L p2 = Inr accept"
  obtains g' l' m' out where "join_round A L k q c st g l m =
      (case client_JoinFinish A L n accept (c\<lparr>cl_out := out, cl_joinCh := Some accept\<rparr>) st1 of
         (r, c', st') \<Rightarrow> (Some r, c', st', g', l', m'))"
    "mk_sessions m' (hex_EncodeToString (pr_DevEUI (dv_prov (cl_dev c)))) = Some (length (mk_heap m))"
    "mk_heap m' = mk_heap m @ [\<lparr>ji_joinNonce = mk_joinNonce m + 1, ji_devNonce = n, ji_fcntDown = 0\<rparr>]"
    "mk_cfg m' = mk_cfg m" "mk_conn m' = mk_conn m" "gw_byDevEUI g' = gw_byDevEUI g" "ln_faults l' = []"
proof -
  let ?p = "dv_prov (cl_dev c)" and ?c1 = "c\<lparr>cl_out := cl_out c @ conn_line (up_envelope c frame)\<rparr>"
  let ?info = "SynthUpInfo 0 (sint (gw_xtime g + 1))"
  have start: "client_JoinStart L None c st = (Inr n, ?c1, st1)" by (rule JoinStart_hop [OF assms(8)])
  have env: "conn_Read (conn_line (up_envelope c frame)) = (Inr (up_envelope c frame), [])"
    using conn_Read_line [OF up_envelope_ok [OF assms(5), of frame], of "[]"] by simp
  obtain mic mhdr where pu: "ParseUplink L (hex_EncodeToString frame) (cl_freq c) (word_of_int (t_DefaultDR (dv_tag (cl_dev c)))) ?info =
      Inr \<lparr>pu_Message = MJreq (bridged_jreq ?p n mic mhdr (cl_freq c) (word_of_int (t_DefaultDR (dv_tag (cl_dev c)))) ?info),
           pu_IsJoin = True, pu_DevEUI = hex_EncodeToString (pr_DevEUI ?p), pu_DevAddr = []\<rparr>"
    by (rule ParseUplink_join [OF assms(1,2) dev_BuildJoinRequest_Inr [OF assms(8)] assms(3,4)])
  define jr where "jr = bridged_jreq ?p n mic mhdr (cl_freq c) (word_of_int (t_DefaultDR (dv_tag (cl_dev c)))) ?info"
  have up: "en_Type (up_envelope c frame) = TypeUp" "en_Phy (up_envelope c frame) = hex_EncodeToString frame"
    "en_Freq (up_envelope c frame) = cl_freq c" "en_DR (up_envelope c frame) = word_of_int (t_DefaultDR (dv_tag (cl_dev c)))"
    by (simp_all add: up_envelope_def)
  have pu': "ParseUplink L (en_Phy (up_envelope c frame)) (en_Freq (up_envelope c frame)) (en_DR (up_envelope c frame)) ?info =
      Inr \<lparr>pu_Message = MJreq jr, pu_IsJoin = True, pu_DevEUI = hex_EncodeToString (pr_DevEUI ?p), pu_DevAddr = []\<rparr>"
    unfolding up jr_def by (rule pu)
  define g1 where "g1 = g\<lparr>gw_xtime := gw_xtime g + 1\<rparr>"
  define l1 where "l1 = l\<lparr>ln_out := ln_out l @ [on_wire (typed_jreq jr)]\<rparr>"
  have gw: "handle_env L lns_client k (up_envelope c frame) (g, l) = (g1, l1)"
    unfolding g1_def l1_def by (rule gateway_hop [OF pu' _ assms(10) up(1)]) simp
  have ok: "message_ok (typed_jreq jr)" unfolding jr_def by (rule bridged_jreq_ok)
  let ?jr = "jr\<lparr>jq_MsgType := TypeJreq\<rparr>"
  have jr: "jq_JoinEui ?jr = hex_EncodeToString (pr_JoinEUI ?p)" "jq_DevEui ?jr = hex_EncodeToString (pr_DevEUI ?p)"
    "jq_DevNonce ?jr = n" "jq_UpInfo ?jr = ?info"
    by (simp_all add: jr_def)
  have acc: "buildJoinAccept L (mk_cfg m) ?jr (mk_joinNonce m + 1) = Inr accept"
    by (simp only: buildJoinAccept_def jr mock_parseEUI64_def hex_Decode_Encode wrapE_simps bindE_simps assms(4,13))
      (simp add: assms(14-16))
  obtain m' where hj: "handleJreq L q ?jr m = (Inr (), m')" by (rule handleJreq_up [OF assms(11) acc])
  define dn where "dn = accept_dnmsg (mk_cfg m) ?jr (mk_diid m + 1) accept"
  have m': "mk_out m' = (mk_out m)(q := mk_out m q @ [on_wire (MDnmsg dn)])"
    "mk_sessions m' = (mk_sessions m)(jq_DevEui ?jr \<mapsto> length (mk_heap m))"
    "mk_heap m' = mk_heap m @ [\<lparr>ji_joinNonce = mk_joinNonce m + 1, ji_devNonce = jq_DevNonce ?jr, ji_fcntDown = 0\<rparr>]"
    "mk_cfg m' = mk_cfg m" "mk_conn m' = mk_conn m"
    by (rule handleJreq_Inr [OF hj], use acc in \<open>simp add: dn_def\<close>)+
  have mock: "mock_loop L q [Inr (on_wire (typed_jreq jr))] m = (None, m')" by (rule mock_hop [OF ok hj])
  have dn: "dn_DevEui dn = hex_EncodeToString (pr_DevEUI ?p)" "dn_Pdu dn = hex_EncodeToString accept"
    using jr by (simp_all add: dn_def)
  have dok: "message_ok (MDnmsg dn)"
    unfolding dn_def by (rule accept_dnmsg_ok) (simp_all only: jr ascii_hex assms(12) synth_info_simps int64_ok_sint int64_ok_0)
  have lk: "gw_lookup (dn_DevEui dn) g1 = Some k" using assms(9) by (simp add: dn g1_def gw_lookup_def)
  have f1: "ln_faults l1 = []" by (simp add: l1_def assms(10))
  define g2 where "g2 = g1\<lparr>gw_wires := (gw_wires g1)(k := gw_wires g1 k @ conn_line (down_envelope dn))\<rparr>"
  define l2 where "l2 = l1\<lparr>ln_out := ln_out l1 @ [on_wire (typed_dntxed (dntxed_of dn))]\<rparr>"
  have down: "lns_Run (Some (on_dnmsg None)) [Inr (on_wire (MDnmsg dn))] (l1, g1) = (None, l2, g2)"
    unfolding g2_def l2_def by (rule downlink_hop [OF dok lk f1])
  have wire: "added (gw_wires g k) (gw_wires g2 k) = conn_line (down_envelope dn)"
    by (simp add: g2_def g1_def)
  have denv: "envelope_ok (down_envelope dn)" by (rule down_envelope_ok) (simp_all add: dn)
  have cli: "client_Run L (conn_line (down_envelope dn)) ?c1 st1 = (EOF, [], ?c1\<lparr>cl_joinCh := Some accept\<rparr>, st1)"
    by (rule client_hop [OF denv dn(2)]) (simp_all add: assms(6,7))
  show thesis
  proof (rule that [where g' = g2 and l' = l2 and m' = m'])
    show "join_round A L k q c st g l m =
      (case client_JoinFinish A L n accept (c\<lparr>cl_out := cl_out c @ conn_line (up_envelope c frame), cl_joinCh := Some accept\<rparr>) st1 of
         (r, c', st') \<Rightarrow> (Some r, c', st', g2, l2, m'))"
      by (simp add: join_round_def start env gw mock m'(1) down wire cli l1_def [THEN arg_cong [of _ _ ln_out]]
        del: mock_loop.simps lns_Run.simps)
  qed (use m' jr assms(10) in \<open>simp_all add: g2_def g1_def l2_def l1_def\<close>)
qed

text \<open>What a join through all hops leaves behind at each of the parts.\<close>

lemma join_completes:
  assumes "lorawan_ok L" and "aes_block_ok A" and "bridge_ok L"
    and "length (pr_DevEUI (dv_prov (cl_dev c))) = 8" and "length (pr_JoinEUI (dv_prov (cl_dev c))) = 8"
    and "ascii (t_DevEUI (dv_tag (cl_dev c)))" and "\<not> cl_joined c" and "cl_joinCh c = None"
    and "dev_BuildJoinRequest L (cl_dev c) st = (Inr (frame, n), st1)"
    and "db_up st1" and "find_session (t_ID (dv_tag (cl_dev c))) st1 = Some r" and "sr_dev_nonce r = uint (w :: u16)"
    and "cipher_ok (st_cipher st1)"
    and "Encrypt (st_cipher st1) (hexBytes nwk) (sessionAAD (t_ID (dv_tag (cl_dev c))) ''nwk_skey'') (st_entropy st1) = (Inr encNwk, r1)"
    and "Encrypt (st_cipher st1) (hexBytes app) (sessionAAD (t_ID (dv_tag (cl_dev c))) ''app_skey'') r1 = (Inr encApp, r2)"
    and "gw_lookup (hex_EncodeToString (pr_DevEUI (dv_prov (cl_dev c)))) g = Some k" and "ln_faults l = []"
    and "mk_faults m = []" and "int64_ok (mcfg_RxDelay (mk_cfg m))" and "length (mcfg_DevAddr (mk_cfg m)) = 4"
    and "mcfg_AppKey (mk_cfg m) = pr_AppKey (dv_prov (cl_dev c))"
    and "SetDownlinkJoinMIC L (pr_JoinEUI (dv_prov (cl_dev c))) n (pr_AppKey (dv_prov (cl_dev c)))
           (phy_frame JoinAccept (JoinAcceptPayload (join_accept_of (mk_cfg m) (mk_joinNonce m + 1)))) = Inr p1"
    and "EncryptJoinAcceptPayload L (pr_AppKey (dv_prov (cl_dev c))) p1 = Inr p2" and "phy_MarshalBinary L p2 = Inr accept"
    and "DeriveNwkSKey A L (mcfg_AppKey (mk_cfg m)) (mcfg_NetID (mk_cfg m)) (mk_joinNonce m + 1) n = Inr nwk"
    and "DeriveAppSKey A L (mcfg_AppKey (mk_cfg m)) (mcfg_NetID (mk_cfg m)) (mk_joinNonce m + 1) n = Inr app"
  obtains c' st' g' l' m' row sess where
    "join_round A L k q c st g l m = (Some (Inr ()), c', st', g', l', m')" "cl_joined c'" "cl_dev c' = cl_dev c" "db_up st'"
    "find_session (t_ID (dv_tag (cl_dev c))) st' = Some row" "scan_session (st_cipher st') row = Inr sess" "s_Joined sess"
    "parseDevAddr (s_DevAddr sess) = Inr (mcfg_DevAddr (mk_cfg m'))" "parseAES128 (s_NwkSKey sess) = Inr nwk" "parseAES128 (s_AppSKey sess) = Inr app"
    "s_FCntUp sess = 0" "s_FCntDown sess = 0"
    "mk_sessions m' (hex_EncodeToString (pr_DevEUI (dv_prov (cl_dev c)))) = Some (length (mk_heap m))"
    "mk_heap m' = mk_heap m @ [\<lparr>ji_joinNonce = mk_joinNonce m + 1, ji_devNonce = n, ji_fcntDown = 0\<rparr>]"
    "mk_cfg m' = mk_cfg m" "mk_conn m' = mk_conn m" "gw_byDevEUI g' = gw_byDevEUI g" "ln_faults l' = []"
proof -
  let ?p = "dv_prov (cl_dev c)" and ?tid = "t_ID (dv_tag (cl_dev c))"
  obtain g' l' m' out where j: "join_round A L k q c st g l m =
      (case client_JoinFinish A L n accept (c\<lparr>cl_out := out, cl_joinCh := Some accept\<rparr>) st1 of
         (r, c', st') \<Rightarrow> (Some r, c', st', g', l', m'))"
    and m': "mk_sessions m' (hex_EncodeToString (pr_DevEUI ?p)) = Some (length (mk_heap m))"
      "mk_heap m' = mk_heap m @ [\<lparr>ji_joinNonce = mk_joinNonce m + 1, ji_devNonce = n, ji_fcntDown = 0\<rparr>]"
      "mk_cfg m' = mk_cfg m" "mk_conn m' = mk_conn m" "gw_byDevEUI g' = gw_byDevEUI g" "ln_faults l' = []"
    by (rule join_hops [OF assms(1,3-9,16-19,21-24)])
  let ?jr = "\<lparr>jq_MsgType = [], jq_MHdr = 0, jq_JoinEui = hex_EncodeToString (pr_JoinEUI ?p), jq_DevEui = [], jq_DevNonce = n,
      jq_MIC = 0, jq_DR = 0, jq_Freq = 0, jq_UpInfo = zero_up_info\<rparr>"
  have acc: "buildJoinAccept L (mk_cfg m) ?jr (mk_joinNonce m + 1) = Inr accept"
    by (simp add: buildJoinAccept_def mock_parseEUI64_def assms(5,21-24))
  obtain res where res: "ParseJoinAccept A L ?p n accept = Inr res"
    "jres_NwkSKey res = nwk" "jres_AppSKey res = app" "jres_DevAddr res = mcfg_DevAddr (mk_cfg m)"
    "length nwk = 16" "length app = 16"
    by (rule buildJoinAccept_parsed [OF assms(1,2) acc _ assms(21), of nwk app]) (simp_all add: assms(25,26))
  have keys: "js_NwkSKey (join_state_of res) = hexBytes nwk" "js_AppSKey (join_state_of res) = hexBytes app"
    "js_DevAddr (join_state_of res) = hexBytes (mcfg_DevAddr (mk_cfg m))"
    by (simp_all add: join_state_of_def res)
  obtain fs row where cj: "CompleteJoin A L (cl_dev c) n accept st1 =
       (Inr (), upd_session ?tid (joined_row (join_state_of res) encNwk encApp (st_clock st1)) (st1\<lparr>st_entropy := r2, db_faults := fs\<rparr>))"
    and up: "db_up (st1\<lparr>st_entropy := r2, db_faults := fs\<rparr>)"
    and row: "row = joined_row (join_state_of res) encNwk encApp (st_clock st1) r"
    and scan: "scan_session (st_cipher st1) row = Inr (session_of_join ?tid (join_state_of res) w)"
    by (rule CompleteJoin_up [OF assms(10-12) res(1), of encNwk r1 encApp r2])
      (simp_all add: keys cipher_ok_hex assms(13-15))
  define st' where "st' = upd_session ?tid (joined_row (join_state_of res) encNwk encApp (st_clock st1)) (st1\<lparr>st_entropy := r2, db_faults := fs\<rparr>)"
  have fin: "client_JoinFinish A L n accept (c\<lparr>cl_out := out, cl_joinCh := Some accept\<rparr>) st1 =
      (Inr (), c\<lparr>cl_out := out, cl_joinCh := None, cl_joined := True\<rparr>, st')"
    by (simp add: client_JoinFinish_def cj st'_def)
  have f: "find_session ?tid st' = Some row"
    using assms(11) by (simp add: st'_def find_session_upd row)
  have sc: "scan_session (st_cipher st') row = Inr (session_of_join ?tid (join_state_of res) w)"
    using scan by (simp add: st'_def)
  have sess: "s_Joined (session_of_join ?tid (join_state_of res) w)"
    "parseDevAddr (s_DevAddr (session_of_join ?tid (join_state_of res) w)) = Inr (mcfg_DevAddr (mk_cfg m'))"
    "parseAES128 (s_NwkSKey (session_of_join ?tid (join_state_of res) w)) = Inr nwk"
    "parseAES128 (s_AppSKey (session_of_join ?tid (join_state_of res) w)) = Inr app"
    "s_FCntUp (session_of_join ?tid (join_state_of res) w) = 0" "s_FCntDown (session_of_join ?tid (join_state_of res) w) = 0"
    by (simp_all add: session_of_join_def keys res(5,6) assms(20) m'(3))
  have jr: "join_round A L k q c st g l m = (Some (Inr ()), c\<lparr>cl_out := out, cl_joinCh := None, cl_joined := True\<rparr>, st', g', l', m')"
    unfolding j fin by simp
  show thesis
    by (rule that [OF jr _ _ _ f sc sess m']) (simp_all add: st'_def up)
qed

section \<open>Properties\<close>


definition toy_client :: client where
  "toy_client = NewClient toy_device"

definition toy_gateway :: gateway where
  "toy_gateway = register (hex_EncodeToString (replicate 8 1)) 7 (gateway_New [])"

lemma toy_client [simp]: "cl_dev toy_client = toy_device" "\<not> cl_joined toy_client" "cl_joinCh toy_client = None"
  by (simp_all add: toy_client_def NewClient_def)

lemma toy_BuildJoinRequest:
  obtains frame fs where "dev_BuildJoinRequest toy_lorawan toy_device example_store =
    (Inr (frame, 1), upd_session 1 (nonce_row []) (example_store\<lparr>db_faults := fs\<rparr>))"
    "db_up (example_store\<lparr>db_faults := fs\<rparr>)"
proof -
  have "scan_uint (sr_dev_nonce (session_row_of 1 []) + 1) = Inr (1 :: u16)"
    by (simp add: session_row_of_def scan_uint_ok)
  then obtain fs where n: "NextDevNonce 1 example_store = (Inr 1, upd_session 1 (nonce_row []) (example_store\<lparr>db_faults := fs\<rparr>))"
    and up: "db_up (example_store\<lparr>db_faults := fs\<rparr>)"
    using NextDevNonce_up [of example_store 1 "session_row_of 1 []"] by auto
  obtain frame where "BuildJoinRequest toy_lorawan toy_prov 1 = Inr frame"
    by (simp add: BuildJoinRequest_def toy_lorawan_def toy_mic_def phy_frame_def toy_marshal_def toy_prov_def)
  with n up that show thesis by (simp add: dev_BuildJoinRequest_def)
qed

lemma toy_mock_config [simp]:
  "mcfg_AppKey (mk_cfg (mock_New toy_mock_config)) = toy_app_key" "mcfg_DevAddr (mk_cfg (mock_New toy_mock_config)) = [1, 2, 3, 4]"
  "mcfg_NetID (mk_cfg (mock_New toy_mock_config)) = [0, 0, 19]" "mcfg_RxDelay (mk_cfg (mock_New toy_mock_config)) = 1"
  "mk_faults (mock_New toy_mock_config) = []" "mk_joinNonce (mock_New toy_mock_config) = 0"
  by (simp_all add: mock_New_def Let_def withDefaults_def toy_mock_config_def)


text \<open>A Class C push reaches a tag that joined. What the emulated network server sends for a session is
  marked for the continuously open window and decoded by any tag with the keys of that session,
  with the payload, port and counter of the push, and the next push uses the next counter.\<close>

theorem class_c_decoded:
  assumes "lorawan_ok L" and "PushClassC A L devEUI fport data m = (Inr (), m')" and "mk_sessions m devEUI = Some a"
    and "a < length (mk_heap m)"
    and "DeriveNwkSKey A L (mcfg_AppKey (mk_cfg m)) (mcfg_NetID (mk_cfg m)) (ji_joinNonce (mk_heap m ! a)) (ji_devNonce (mk_heap m ! a)) = Inr (dp_NwkSKey q)"
    and "DeriveAppSKey A L (mcfg_AppKey (mk_cfg m)) (mcfg_NetID (mk_cfg m)) (ji_joinNonce (mk_heap m ! a)) (ji_devNonce (mk_heap m ! a)) = Inr (dp_AppSKey q)"
    and "length (mcfg_DevAddr (mk_cfg m)) = 4" and "data \<noteq> []" and "fport \<noteq> 0"
    and "unat (ji_fcntDown (mk_heap m ! a)) < 65536"
  shows "\<exists>c dn pdu. mk_out m' c = mk_out m c @ [on_wire (MDnmsg dn)] \<and> rx_Window (ChooseRXWindow dn) = WindowClassC \<and>
     dn_DevEui dn = devEUI \<and> dn_Pdu dn = hex_EncodeToString pdu \<and>
     ParseDownlink L q pdu = Inr (app_downlink fport (ji_fcntDown (mk_heap m ! a)) data) \<and>
     ji_fcntDown (mk_heap m' ! a) = ji_fcntDown (mk_heap m ! a) + 1"
proof -
  obtain c nwk app pdu where p:
    "DeriveNwkSKey A L (mcfg_AppKey (mk_cfg m)) (mcfg_NetID (mk_cfg m)) (ji_joinNonce (mk_heap m ! a)) (ji_devNonce (mk_heap m ! a)) = Inr nwk"
    "DeriveAppSKey A L (mcfg_AppKey (mk_cfg m)) (mcfg_NetID (mk_cfg m)) (ji_joinNonce (mk_heap m ! a)) (ji_devNonce (mk_heap m ! a)) = Inr app"
    "buildDataDownlink L nwk app (mcfg_DevAddr (mk_cfg m)) (ji_fcntDown (mk_heap m ! a)) fport data = Inr pdu"
    "mk_out m' = (mk_out m)(c := mk_out m c @ [on_wire (MDnmsg (push_dnmsg (mk_cfg m) devEUI (mk_diid m + 1) pdu))])"
    "ji_fcntDown (mk_heap m' ! a) = ji_fcntDown (mk_heap m ! a) + 1"
    by (rule PushClassC_Inr [OF assms(2-4)])
  have "ParseDownlink L q pdu = Inr (app_downlink fport (ji_fcntDown (mk_heap m ! a)) data)"
    by (rule buildDataDownlink_parsed [OF assms(1) p(3) assms(7,8,10,9)]) (use p(1,2) assms(5,6) in simp_all)
  with p(4,5) show ?thesis
    by (intro exI [of _ c] exI [of _ "push_dnmsg (mk_cfg m) devEUI (mk_diid m + 1) pdu"] exI [of _ pdu])
      (simp add: push_dnmsg_def ChooseRXWindow_def)
qed

theorem class_c_decoded_witness:
  "\<exists>m' q pdu. PushClassC toy_aes toy_lorawan ''01'' 10 [42] toy_mock = (Inr (), m') \<and>
     ParseDownlink toy_lorawan q pdu = Inr (app_downlink 10 0 [42])"
proof -
  obtain nwk app where k: "DeriveNwkSKey toy_aes toy_lorawan toy_app_key [0, 0, 19] 1 2 = Inr nwk"
    "DeriveAppSKey toy_aes toy_lorawan toy_app_key [0, 0, 19] 1 2 = Inr app"
    using toy_derive [of toy_app_key "[0, 0, 19]" 1 2] by (auto simp: toy_app_key_def)
  let ?m1 = "snd (push_lock ''01'' toy_mock)"
  have m1: "mk_faults ?m1 = []" "mk_cfg ?m1 = mk_cfg toy_mock" "ji_joinNonce (mk_heap ?m1 ! 0) = 1"
    by (simp_all add: push_lock_def)
  obtain m' where "push_rest toy_aes toy_lorawan ''01'' 10 [42] (Some 5, Some 0) ?m1 = (Inr (), m')"
    by (rule toy_push_rest [OF m1])
  then have p: "PushClassC toy_aes toy_lorawan ''01'' 10 [42] toy_mock = (Inr (), m')"
    by (simp add: PushClassC_def push_lock_def)
  have len: "0 < length (mk_heap toy_mock)" by simp
  show ?thesis
    using class_c_decoded [OF toy_lorawan_ok p toy_mock(2) len, of "\<lparr>dp_DevAddr = [], dp_NwkSKey = nwk, dp_AppSKey = app\<rparr>"] p k
    by auto
qed


definition upper_tag :: tag where
  "upper_tag = (tag_of_new 1 example_new_tag [])\<lparr>t_DevEUI := ''0A0A0A0A0A0A0A0A''\<rparr>"


text \<open>LoRaWAN 1.0: the MIC of a join-accept does not cover the DevNonce.\<close>

definition join_mic_1_0 :: "lorawan \<Rightarrow> bool" where
  "join_mic_1_0 L = (\<forall>joinEUI n n' key p. SetDownlinkJoinMIC L joinEUI n key p = SetDownlinkJoinMIC L joinEUI n' key p)"

lemma toy_join_mic: "join_mic_1_0 toy_lorawan"
  by (simp add: join_mic_1_0_def toy_lorawan_def)



end
