(* ===== verification/Uplinks.thy ===== *)
theory Uplinks
  imports EndToEnd
begin

text \<open>
  Uplinks through all parts: the bytes a joined tag writes are given to the gateway, and what the gateway
  writes to the network server is given to the emulated network server, which records it.
\<close>

section \<open>One uplink and a run of them\<close>

text \<open>Tag connection \<open>k\<close> at the gateway, gateway connection \<open>q\<close> at the network server.\<close>

definition uplink_round :: "lorawan \<Rightarrow> go_math \<Rightarrow> nat \<Rightarrow> nat \<Rightarrow> bytes \<Rightarrow> client \<Rightarrow> store \<Rightarrow> gateway \<Rightarrow> lns \<Rightarrow> mock \<Rightarrow>
    u32 res \<times> client \<times> store \<times> gateway \<times> lns \<times> mock" where
  "uplink_round L M k q data c st g l m =
     (case SendUplink L M None (Some data) c st of
        (Inl e, c1, st1) \<Rightarrow> (Inl e, c1, st1, g, l, m)
      | (Inr fcnt, c1, st1) \<Rightarrow>
          (case conn_Read (added (cl_out c) (cl_out c1)) of
             (Inl e, _) \<Rightarrow> (Inl e, c1, st1, g, l, m)
           | (Inr env, _) \<Rightarrow>
               (case handle_env L lns_client k env (g, l) of (g1, l1) \<Rightarrow>
                case mock_loop L q (map Inr (added (ln_out l) (ln_out l1))) m of (_, m1) \<Rightarrow>
                (Inr fcnt, c1, st1, g1, l1, m1))))"

fun uplink_rounds :: "lorawan \<Rightarrow> go_math \<Rightarrow> nat \<Rightarrow> nat \<Rightarrow> bytes list \<Rightarrow> client \<Rightarrow> store \<Rightarrow> gateway \<Rightarrow> lns \<Rightarrow> mock \<Rightarrow>
    u32 res list \<times> store \<times> mock" where
  "uplink_rounds L M k q [] c st g l m = ([], st, m)"
| "uplink_rounds L M k q (data # ds) c st g l m =
     (case uplink_round L M k q data c st g l m of (r, c, st, g, l, m) \<Rightarrow>
      case uplink_rounds L M k q ds c st g l m of (rs, st, m) \<Rightarrow> (r # rs, st, m))"

text \<open>The payloads that were sent, with their counters.\<close>

fun sent :: "bytes list \<Rightarrow> u32 res list \<Rightarrow> (bytes \<times> u32) list" where
  "sent (d # ds) (Inr f # rs) = (d, f) # sent ds rs"
| "sent (d # ds) (Inl e # rs) = sent ds rs"
| "sent ds rs = []"

text \<open>
  A record of the network server shows a payload that a tag sent: address, counter and port in clear, and a
  ciphertext of the same length that decrypts to the payload under the tag's key.
\<close>

definition carries :: "lorawan \<Rightarrow> uplink_params \<Rightarrow> updf \<Rightarrow> bool" where
  "carries L p u =
     (uf_MsgType u = TypeUpdf \<and> uf_DevAddr u = int32_of (be32 (up_DevAddr p)) \<and> uf_FCnt u = up_FCnt p \<and>
      uf_FPort u = uint (up_FPort p) \<and>
      (\<exists>enc. uf_FRMPayload u = hex_EncodeToString enc \<and> length enc = length (up_Data p) \<and>
         DecryptFRMPayload L (uplink_key p) (uplink_frame p enc) = Inr (uplink_frame p (up_Data p))))"

definition recorded :: "lorawan \<Rightarrow> device \<Rightarrow> session \<Rightarrow> bytes \<times> u32 \<Rightarrow> updf \<Rightarrow> bool" where
  "recorded L d sess sd u = (\<exists>p. uplinkParams d sess (snd sd) (fst sd) = Inr p \<and> carries L p u)"

section \<open>The session row behind the uplinks\<close>

definition keys_like :: "session_row \<Rightarrow> session_row \<Rightarrow> bool" where
  "keys_like r r0 = (sr_tag_id r = sr_tag_id r0 \<and> sr_dev_addr r = sr_dev_addr r0 \<and> sr_nwk_skey r = sr_nwk_skey r0 \<and>
     sr_app_skey r = sr_app_skey r0)"

lemma keys_like_refl [simp]: "keys_like r r"
  by (simp add: keys_like_def)

lemma keys_like_fcnt [simp]: "keys_like (fcnt_row now r) r0 = keys_like r r0" "sr_fcnt_up (fcnt_row now r) = sr_fcnt_up r + 1"
  by (simp_all add: keys_like_def fcnt_row_def)

lemma keys_like_params:
  assumes "keys_like r r0" and "scan_session ci r = Inr s" and "scan_session ci r0 = Inr s0"
  shows "uplinkParams d s fcnt data = uplinkParams d s0 fcnt data"
proof -
  have "s_NwkSKey s = s_NwkSKey s0" "s_AppSKey s = s_AppSKey s0" "s_DevAddr s = s_DevAddr s0"
    using scan_session_Inr(5,7,8) [OF assms(2)] scan_session_Inr(5,7,8) [OF assms(3)] assms(1)
    by (simp_all add: keys_like_def)
  then show ?thesis by (simp add: uplinkParams_def)
qed

text \<open>Whatever becomes of an uplink, the session keeps its keys, and its counter moves by at most one.\<close>

lemma dev_BuildUplink_row:
  assumes "dev_BuildUplink L M d (Some data) st = (x, st')" and "find_session (t_ID (dv_tag d)) st = Some r"
  obtains r' where "find_session (t_ID (dv_tag d)) st' = Some r'" "st_cipher st' = st_cipher st"
    "r' = r \<or> (\<exists>now. r' = fcnt_row now r)"
proof (cases "t_ID (dv_tag d)" st rule: sessions_Get_cases)
  case (fault e fs)
  then have "st' = st\<lparr>db_faults := fs\<rparr>" using assms(1) by (simp add: dev_BuildUplink_def)
  with that [of r] assms(2) show thesis by simp
next
  case (none fs)
  with assms show thesis by simp
next
  case (row r1 fs)
  let ?st = "st\<lparr>db_faults := fs\<rparr>"
  have r1: "r1 = r" "find_session (t_ID (dv_tag d)) ?st = Some r" using row(1) assms(2) by simp_all
  show thesis
  proof (cases "\<exists>s. scan_session (st_cipher st) r = Inr s \<and> s_Joined s")
    case False
    then have "st' = ?st" using assms(1) row(2) r1(1) by (cases "scan_session (st_cipher st) r") (auto simp: dev_BuildUplink_def)
    with that [of r] r1 show thesis by simp
  next
    case True
    then obtain s where s: "scan_session (st_cipher st) r = Inr s" "s_Joined s" by blast
    show thesis
    proof (cases "t_ID (dv_tag d)" ?st rule: TakeFCntUp_cases)
      case (failed e st2)
      then have "st' = st2" using assms(1) row(2) r1(1) s by (simp add: dev_BuildUplink_def)
      moreover have "find_session (t_ID (dv_tag d)) st2 = Some r" "st_cipher st2 = st_cipher st"
        using failed(2) r1(2) by (simp_all add: same_db_def find_session_def)
      ultimately show thesis using that by blast
    next
      case (updated r2 gs)
      have "st' = upd_session (t_ID (dv_tag d)) (fcnt_row (st_clock ?st)) (?st\<lparr>db_faults := gs\<rparr>)"
        using assms(1) row(2) r1(1) s updated(2)
        by (cases "scan_uint (sr_fcnt_up r2) :: u32 res") (auto simp: dev_BuildUplink_def gen_payload_def res_simps seqE_def split: sum.splits)
      then show thesis
        by (intro that [of "fcnt_row (st_clock ?st) r"]) (use r1(2) in \<open>auto simp: find_session_upd\<close>)
    qed
  qed
qed

text \<open>An uplink that was built was built from the session, under its counter.\<close>

lemma dev_BuildUplink_built:
  assumes "dev_BuildUplink L M d (Some data) st = (Inr (frame, fcnt), st')"
    and "find_session (t_ID (dv_tag d)) st = Some r" and "keys_like r r0" and "scan_session (st_cipher st) r0 = Inr sess"
  obtains p now where "uplinkParams d sess fcnt data = Inr p" "BuildUplink L p = Inr frame" "sr_fcnt_up r = uint fcnt"
    "find_session (t_ID (dv_tag d)) st' = Some (fcnt_row now r)" "st_cipher st' = st_cipher st"
proof -
  let ?tid = "t_ID (dv_tag d)"
  obtain s st1 p where g: "sessions_Get ?tid st = (Inr s, st1)" and t: "TakeFCntUp ?tid st1 = (Inr fcnt, st')"
    and p: "uplinkParams d s fcnt data = Inr p" "BuildUplink L p = Inr frame"
    using assms(1) by (auto simp: dev_BuildUplink_def gen_payload_def res_simps split: if_splits)
  obtain r1 fs where r1: "find_session ?tid st = Some r1" "scan_session (st_cipher st) r1 = Inr s" "st1 = st\<lparr>db_faults := fs\<rparr>"
    by (rule sessions_Get_Inr [OF g])
  have p': "uplinkParams d sess fcnt data = Inr p"
    using keys_like_params [OF assms(3) _ assms(4), of s] r1(1,2) assms(2) p(1) by simp
  show thesis
  proof (cases ?tid st1 rule: TakeFCntUp_cases)
    case (failed e st2)
    with t show thesis by simp
  next
    case (updated r2 gs)
    with r1 assms(2) have "r2 = r" by simp
    with updated t r1 assms(2) show thesis
      by (intro that [OF p' p(2), of "st_clock st1"]) (auto simp: find_session_upd res_simps)
  qed
qed

lemma uplinkParams_Inr:
  assumes "uplinkParams d sess fcnt data = Inr p"
  shows "up_FCnt p = fcnt" "up_Data p = data" "length (up_DevAddr p) = 4" "up_FPort p = word_of_int (t_FPort (dv_tag d))"
  using assms by (auto simp: uplinkParams_def res_simps parse_lengths)

text \<open>With the database up and a counter that fits, an uplink can be built as soon as the codec encodes it.\<close>

lemma dev_BuildUplink_up:
  assumes "db_up st" and "find_session (t_ID (dv_tag d)) st = Some r" and "scan_session (st_cipher st) r = Inr s" and "s_Joined s"
    and "uplinkParams d s (s_FCntUp s) data = Inr p" and "BuildUplink L p = Inr frame"
  obtains st' where "dev_BuildUplink L M d (Some data) st = (Inr (frame, s_FCntUp s), st')" "db_up st'"
proof -
  let ?tid = "t_ID (dv_tag d)"
  obtain fs where g: "sql_wrap ''querying session'' st = (Inr (), st\<lparr>db_faults := fs\<rparr>)" "db_up (st\<lparr>db_faults := fs\<rparr>)"
    by (rule sql_wrap_up [OF assms(1)])
  let ?st = "st\<lparr>db_faults := fs\<rparr>"
  have "find_session ?tid ?st = Some r" using assms(2) by simp
  from TakeFCntUp_up [OF g(2) this] scan_session_Inr(1) [OF assms(3)] obtain gs where
    t: "TakeFCntUp ?tid ?st = (Inr (s_FCntUp s), upd_session ?tid (fcnt_row (st_clock ?st)) (?st\<lparr>db_faults := gs\<rparr>))"
    "db_up (?st\<lparr>db_faults := gs\<rparr>)" by auto
  show thesis
    by (rule that [of "upd_session ?tid (fcnt_row (st_clock ?st)) (?st\<lparr>db_faults := gs\<rparr>)"])
      (use t g(1) assms in \<open>simp_all add: dev_BuildUplink_def sessions_Get_def gen_payload_def\<close>)
qed

section \<open>The hops\<close>

lemma SendUplink_hop:
  assumes "dev_BuildUplink L M (cl_dev c) (Some data) st = (Inr (frame, fcnt), st')" and "cl_joined c"
  shows "SendUplink L M None (Some data) c st = (Inr fcnt, c\<lparr>cl_out := cl_out c @ conn_line (up_envelope c frame)\<rparr>, st')"
  by (simp add: SendUplink_def assms sendUp_def Let_def)

lemma SendUplink_failed:
  assumes "SendUplink L M None (Some data) c st = (Inl e, c', st')" and "cl_joined c"
  shows "c' = c \<and> (\<exists>e. dev_BuildUplink L M (cl_dev c) (Some data) st = (Inl e, st'))"
proof (cases "dev_BuildUplink L M (cl_dev c) (Some data) st")
  case (Pair x st1)
  with assms SendUplink_hop [of L M c data st _ _ st1] show ?thesis
    by (cases x) (auto simp: SendUplink_def Let_def)
qed

lemma gateway_uplink_hop:
  assumes "ParseUplink L (en_Phy env) (en_Freq env) (en_DR env) (SynthUpInfo 0 (sint (gw_xtime g + 1))) = Inr pu"
    and "pu_Message pu = MUpdf u" and "ln_faults l = []" and "en_Type env = TypeUp"
  obtains g' where "handle_env L lns_client k env (g, l) = (g', l\<lparr>ln_out := ln_out l @ [on_wire (typed_updf u)]\<rparr>)"
proof -
  have "SendUpdf u l = (Inr (), l\<lparr>ln_out := ln_out l @ [on_wire (typed_updf u)]\<rparr>)"
    by (simp add: SendUpdf_def lns_send_ok assms(3) on_wire_def typed_updf_def)
  then have "snd (handle_env L lns_client k env (g, l)) = l\<lparr>ln_out := ln_out l @ [on_wire (typed_updf u)]\<rparr>"
    by (simp add: handle_env_def handleUplink_def assms lns_client_def TypeUp_def TypeHello_def Let_def)
  with that show thesis by (metis prod.collapse)
qed

lemma bridged_updf_ok:
  "message_ok (typed_updf (bridged_updf p enc mic mhdr freq dr (SynthUpInfo 0 (sint (x :: u64)))))"
proof -
  have "int64_ok (uint (up_FPort p))"
    using uint_lt2p [of "up_FPort p"] order_trans [OF _ uint_ge_0, of "- (2 ^ 63)" "up_FPort p"] by (simp add: int64_ok_def)
  then show ?thesis
    by (simp add: typed_updf_def message_ok_def updf_ok_def bridged_updf_def synth_info_ok) (simp add: TypeUpdf_def ascii_def)
qed

lemma mock_uplink_hop:
  assumes "message_ok (typed_updf u)"
  shows "mock_loop L q [Inr (on_wire (typed_updf u))] m = (None, m\<lparr>mk_updfs := mk_updfs m @ [u\<lparr>uf_MsgType := TypeUpdf\<rparr>]\<rparr>)"
  using Decode_on_wire [OF assms] by (simp add: typed_updf_def)

lemma bridged_carries:
  assumes "DecryptFRMPayload L (uplink_key p) (uplink_frame p enc) = Inr (uplink_frame p (up_Data p))"
    and "length enc = length (up_Data p)"
  shows "carries L p (bridged_updf p enc mic mhdr freq dr info\<lparr>uf_MsgType := TypeUpdf\<rparr>)"
  using assms by (auto simp: carries_def bridged_updf_def)

text \<open>From the tag's generator to the records of the network server.\<close>

lemma uplink_hops:
  assumes "lorawan_ok L" and "bridge_ok L" and "ascii (t_DevEUI (dv_tag (cl_dev c)))" and "cl_joined c" and "ln_faults l = []"
    and "dev_BuildUplink L M (cl_dev c) (Some data) st = (Inr (frame, fcnt), st')"
    and "BuildUplink L p = Inr frame" and "length (up_DevAddr p) = 4" and "unat (up_FCnt p) < 65536" and "up_Data p \<noteq> []"
  obtains c' g' l' u where "uplink_round L M k q data c st g l m = (Inr fcnt, c', st', g', l', m\<lparr>mk_updfs := mk_updfs m @ [u]\<rparr>)"
    "carries L p u" "cl_dev c' = cl_dev c" "cl_joined c'" "ln_faults l' = []"
proof -
  let ?c1 = "c\<lparr>cl_out := cl_out c @ conn_line (up_envelope c frame)\<rparr>" and ?env = "up_envelope c frame"
  let ?info = "SynthUpInfo 0 (sint (gw_xtime g + 1))" and ?dr = "word_of_int (t_DefaultDR (dv_tag (cl_dev c))) :: u8"
  obtain enc mic where "EncryptFRMPayload L (uplink_key p) (uplink_frame p (up_Data p)) = Inr (uplink_frame p enc)"
    and e: "length enc = length (up_Data p)" and "length mic = 4"
    and dec: "\<And>mic. DecryptFRMPayload L (uplink_key p) ((uplink_frame p enc)\<lparr>phy_MIC := mic\<rparr>) = Inr ((uplink_frame p (up_Data p))\<lparr>phy_MIC := mic\<rparr>)"
    and un: "phy_UnmarshalBinary L frame = Inr ((uplink_frame p enc)\<lparr>phy_MIC := mic\<rparr>)"
    by (rule BuildUplink_built [OF assms(1,7-10)]) (rule that; simp)
  obtain mhdr where pu: "ParseUplink L (hex_EncodeToString frame) (cl_freq c) ?dr ?info =
      Inr \<lparr>pu_Message = MUpdf (bridged_updf p enc mic mhdr (cl_freq c) ?dr ?info), pu_IsJoin = False, pu_DevEUI = [],
           pu_DevAddr = hex_EncodeToString (up_DevAddr p)\<rparr>"
    by (rule ParseUplink_built [OF assms(2) un])
  define u where "u = bridged_updf p enc mic mhdr (cl_freq c) ?dr ?info"
  have up: "en_Type ?env = TypeUp" "en_Phy ?env = hex_EncodeToString frame" "en_Freq ?env = cl_freq c" "en_DR ?env = ?dr"
    by (simp_all add: up_envelope_def)
  define l' where "l' = l\<lparr>ln_out := ln_out l @ [on_wire (typed_updf u)]\<rparr>"
  have pu': "ParseUplink L (en_Phy ?env) (en_Freq ?env) (en_DR ?env) ?info =
      Inr \<lparr>pu_Message = MUpdf u, pu_IsJoin = False, pu_DevEUI = [], pu_DevAddr = hex_EncodeToString (up_DevAddr p)\<rparr>"
    unfolding up u_def by (rule pu)
  obtain g' where gw: "handle_env L lns_client k ?env (g, l) = (g', l')"
    unfolding l'_def by (rule gateway_uplink_hop [OF pu' _ assms(5) up(1), of u k]) simp_all
  have read: "conn_Read (conn_line ?env) = (Inr ?env, [])"
    using conn_Read_line [OF up_envelope_ok [OF assms(3), of frame], of "[]"] by simp
  have mock: "mock_loop L q [Inr (on_wire (typed_updf u))] m = (None, m\<lparr>mk_updfs := mk_updfs m @ [u\<lparr>uf_MsgType := TypeUpdf\<rparr>]\<rparr>)"
    unfolding u_def by (rule mock_uplink_hop [OF bridged_updf_ok])
  have "phy_MIC (uplink_frame p x) = phy_MIC (uplink_frame p y)" for x y by (simp add: uplink_frame_def phy_frame_def)
  then have "DecryptFRMPayload L (uplink_key p) (uplink_frame p enc) = Inr (uplink_frame p (up_Data p))"
    using dec [of "phy_MIC (uplink_frame p enc)"] by (metis phy.surjective phy.update_convs(3))
  then have carry: "carries L p (u\<lparr>uf_MsgType := TypeUpdf\<rparr>)" unfolding u_def by (rule bridged_carries [OF _ e])
  have "uplink_round L M k q data c st g l m = (Inr fcnt, ?c1, st', g', l', m\<lparr>mk_updfs := mk_updfs m @ [u\<lparr>uf_MsgType := TypeUpdf\<rparr>]\<rparr>)"
    by (simp add: uplink_round_def SendUplink_hop [OF assms(6,4)] read gw l'_def [THEN arg_cong [of _ _ ln_out]] mock
        del: mock_loop.simps)
  then show thesis by (rule that [OF _ carry]) (simp_all add: assms(4,5) l'_def)
qed

section \<open>Runs\<close>

lemma recorded_uplink:
  assumes "uplinkParams d sess fcnt data = Inr p" and "carries L p u"
  shows "recorded L d sess (data, fcnt) u" "uf_FCnt u = fcnt"
  using assms uplinkParams_Inr [OF assms(1)] by (auto simp: recorded_def carries_def)

lemma uplink_rounds_recorded:
  assumes "lorawan_ok L" and "bridge_ok L"
  shows "ascii (t_DevEUI (dv_tag (cl_dev c))) \<Longrightarrow> cl_joined c \<Longrightarrow> ln_faults l = [] \<Longrightarrow>
     find_session (t_ID (dv_tag (cl_dev c))) st = Some r \<Longrightarrow> keys_like r r0 \<Longrightarrow> scan_session (st_cipher st) r0 = Inr sess \<Longrightarrow>
     sr_fcnt_up r + int (length ds) \<le> 65536 \<Longrightarrow> [] \<notin> set ds \<Longrightarrow>
     uplink_rounds L M k q ds c st g l m = (rs, st', m') \<Longrightarrow>
     \<exists>us. mk_updfs m' = mk_updfs m @ us \<and> list_all2 (recorded L (cl_dev c) sess) (sent ds rs) us \<and>
       sorted_wrt (<) (map uf_FCnt us) \<and> (\<forall>u \<in> set us. sr_fcnt_up r \<le> uint (uf_FCnt u))"
proof (induction ds arbitrary: c st g l m r rs)
  case (Cons data ds)
  let ?d = "cl_dev c" and ?tid = "t_ID (dv_tag (cl_dev c))"
  obtain x st1 where b: "dev_BuildUplink L M ?d (Some data) st = (x, st1)" by fastforce
  show ?case
  proof (cases x)
    case (Inl e)
    then have round: "uplink_round L M k q data c st g l m = (Inl e, c, st1, g, l, m)"
      using b Cons.prems(2) by (simp add: uplink_round_def SendUplink_def Let_def)
    obtain rs1 where rs: "rs = Inl e # rs1" "uplink_rounds L M k q ds c st1 g l m = (rs1, st', m')"
      using Cons.prems(9) by (auto simp: round split: prod.splits)
    obtain r1 where r1: "find_session ?tid st1 = Some r1" "st_cipher st1 = st_cipher st" "r1 = r \<or> (\<exists>now. r1 = fcnt_row now r)"
      by (rule dev_BuildUplink_row [OF b Cons.prems(4)])
    then have k: "keys_like r1 r0" "sr_fcnt_up r1 + int (length ds) \<le> 65536" "sr_fcnt_up r \<le> sr_fcnt_up r1"
      using Cons.prems(5,7) by auto
    have "scan_session (st_cipher st1) r0 = Inr sess" "[] \<notin> set ds" using Cons.prems(6,8) r1(2) by simp_all
    from Cons.IH [OF Cons.prems(1-3) r1(1) k(1) this(1) k(2) this(2) rs(2)] k(3) show ?thesis
      by (auto simp: rs(1) intro: order_trans)
  next
    case (Inr y)
    obtain frame fcnt where x: "x = Inr (frame, fcnt)" using Inr by (cases y) simp
    note b = b [unfolded x]
    obtain p now where p: "uplinkParams ?d sess fcnt data = Inr p" "BuildUplink L p = Inr frame" "sr_fcnt_up r = uint fcnt"
      "find_session ?tid st1 = Some (fcnt_row now r)" "st_cipher st1 = st_cipher st"
      by (rule dev_BuildUplink_built [OF b Cons.prems(4-6)])
    note pp = uplinkParams_Inr [OF p(1)]
    have "uint fcnt < 65536" using Cons.prems(7) p(3) by simp
    then have "unat (up_FCnt p) < 65536" unfolding pp(1) uint_nat by linarith
    moreover have "up_Data p \<noteq> []" using Cons.prems(8) pp(2) by auto
    ultimately obtain c1 g1 l1 u where round: "uplink_round L M k q data c st g l m = (Inr fcnt, c1, st1, g1, l1, m\<lparr>mk_updfs := mk_updfs m @ [u]\<rparr>)"
      and u: "carries L p u" and c1: "cl_dev c1 = ?d" "cl_joined c1" "ln_faults l1 = []"
      by (rule uplink_hops [OF assms Cons.prems(1-3) b p(2) pp(3)])
    let ?m1 = "m\<lparr>mk_updfs := mk_updfs m @ [u]\<rparr>"
    obtain rs1 where rs: "rs = Inr fcnt # rs1" "uplink_rounds L M k q ds c1 st1 g1 l1 ?m1 = (rs1, st', m')"
      using Cons.prems(9) by (auto simp: round split: prod.splits)
    have pre: "ascii (t_DevEUI (dv_tag (cl_dev c1)))" "find_session (t_ID (dv_tag (cl_dev c1))) st1 = Some (fcnt_row now r)"
      "keys_like (fcnt_row now r) r0" "scan_session (st_cipher st1) r0 = Inr sess"
      "sr_fcnt_up (fcnt_row now r) + int (length ds) \<le> 65536" "[] \<notin> set ds"
      using Cons.prems(1,5-8) p(4,5) by (simp_all add: c1(1))
    from Cons.IH [OF pre(1) c1(2,3) pre(2-6) rs(2)] obtain us where us: "mk_updfs m' = mk_updfs ?m1 @ us"
      "list_all2 (recorded L (cl_dev c1) sess) (sent ds rs1) us" "sorted_wrt (<) (map uf_FCnt us)"
      "\<forall>v \<in> set us. sr_fcnt_up (fcnt_row now r) \<le> uint (uf_FCnt v)" by blast
    note ru = recorded_uplink [OF p(1) u]
    have later: "uint fcnt < uint (uf_FCnt v)" if "v \<in> set us" for v using us(4) that p(3) by fastforce
    have "mk_updfs m' = mk_updfs m @ u # us" using us(1) by simp
    moreover have "list_all2 (recorded L ?d sess) (sent (data # ds) rs) (u # us)"
      using us(2) ru(1) unfolding rs(1) c1(1) by simp
    moreover have "sorted_wrt (<) (map uf_FCnt (u # us))"
      using us(3) later ru(2) by (auto simp: word_less_def)
    moreover have "\<forall>v \<in> set (u # us). sr_fcnt_up r \<le> uint (uf_FCnt v)"
      using later ru(2) p(3) by (auto intro: less_imp_le)
    ultimately show ?thesis by blast
  qed
qed simp

text \<open>A session that is joined and whose keys the codec accepts.\<close>

definition sendable :: "lorawan \<Rightarrow> device \<Rightarrow> session \<Rightarrow> bool" where
  "sendable L d s = (s_Joined s \<and> (\<forall>f data. \<exists>p frame. uplinkParams d s f data = Inr p \<and> BuildUplink L p = Inr frame))"

lemma scan_fcnt_row:
  assumes "scan_session ci r = Inr s" and "uint (s_FCntUp s) + 1 < 2 ^ 32"
  shows "scan_session ci (fcnt_row now r) = Inr (s\<lparr>s_FCntUp := s_FCntUp s + 1\<rparr>)"
proof -
  have "scan_uint (uint (s_FCntUp s) + 1) = Inr (s_FCntUp s + 1)"
    using assms(2) by (simp add: scan_uint_ok)
  then show ?thesis using assms(1) by (auto simp: scan_session_def fcnt_row_def res_simps)
qed

lemma sendable_fcnt [simp]: "sendable L d (s\<lparr>s_FCntUp := f\<rparr>) = sendable L d s"
  by (simp add: sendable_def uplinkParams_def)

lemma uplink_rounds_up:
  assumes "lorawan_ok L" and "bridge_ok L"
  shows "ascii (t_DevEUI (dv_tag (cl_dev c))) \<Longrightarrow> cl_joined c \<Longrightarrow> ln_faults l = [] \<Longrightarrow> db_up st \<Longrightarrow>
     find_session (t_ID (dv_tag (cl_dev c))) st = Some r \<Longrightarrow> scan_session (st_cipher st) r = Inr s \<Longrightarrow> sendable L (cl_dev c) s \<Longrightarrow>
     uint (s_FCntUp s) + int (length ds) \<le> 65536 \<Longrightarrow> [] \<notin> set ds \<Longrightarrow>
     uplink_rounds L M k q ds c st g l m = (rs, st', m') \<Longrightarrow>
     rs = map (\<lambda>i. Inr (s_FCntUp s + of_nat i)) [0..<length ds]"
proof (induction ds arbitrary: c st g l m r s rs)
  case (Cons data ds)
  let ?d = "cl_dev c" and ?tid = "t_ID (dv_tag (cl_dev c))"
  obtain p frame where p: "uplinkParams ?d s (s_FCntUp s) data = Inr p" "BuildUplink L p = Inr frame" "s_Joined s"
    using Cons.prems(7) unfolding sendable_def by blast
  obtain st1 where b: "dev_BuildUplink L M ?d (Some data) st = (Inr (frame, s_FCntUp s), st1)" and up: "db_up st1"
    by (rule dev_BuildUplink_up [OF Cons.prems(4-6) p(3,1,2)])
  obtain p' now where row: "find_session ?tid st1 = Some (fcnt_row now r)" "st_cipher st1 = st_cipher st"
    by (rule dev_BuildUplink_built [OF b Cons.prems(5) keys_like_refl Cons.prems(6)])
  note pp = uplinkParams_Inr [OF p(1)]
  have lt: "uint (s_FCntUp s) < 65536" using Cons.prems(8) by simp
  then have "unat (up_FCnt p) < 65536" unfolding pp(1) uint_nat by linarith
  moreover have "up_Data p \<noteq> []" using Cons.prems(9) pp(2) by auto
  ultimately obtain c1 g1 l1 u where round: "uplink_round L M k q data c st g l m = (Inr (s_FCntUp s), c1, st1, g1, l1, m\<lparr>mk_updfs := mk_updfs m @ [u]\<rparr>)"
    and c1: "cl_dev c1 = ?d" "cl_joined c1" "ln_faults l1 = []"
    by (rule uplink_hops [OF assms Cons.prems(1-3) b p(2) pp(3)])
  obtain rs1 where rs: "rs = Inr (s_FCntUp s) # rs1"
    "uplink_rounds L M k q ds c1 st1 g1 l1 (m\<lparr>mk_updfs := mk_updfs m @ [u]\<rparr>) = (rs1, st', m')"
    using Cons.prems(10) by (auto simp: round split: prod.splits)
  have nxt: "uint (s_FCntUp s + 1) = uint (s_FCntUp s) + 1"
    using lt by (simp add: uint_plus_if_size word_size)
  let ?s = "s\<lparr>s_FCntUp := s_FCntUp s + 1\<rparr>"
  have pre: "ascii (t_DevEUI (dv_tag (cl_dev c1)))" "find_session (t_ID (dv_tag (cl_dev c1))) st1 = Some (fcnt_row now r)"
    "scan_session (st_cipher st1) (fcnt_row now r) = Inr ?s" "sendable L (cl_dev c1) ?s" "uint (s_FCntUp ?s) + int (length ds) \<le> 65536"
    "[] \<notin> set ds"
    using Cons.prems(1,7-9) row lt nxt scan_fcnt_row [OF Cons.prems(6), of now] by (simp_all add: c1(1))
  from Cons.IH [OF pre(1) c1(2,3) up pre(2-6) rs(2)] show ?case
    by (simp add: rs(1) upt_conv_Cons map_Suc_upt [symmetric] comp_def add.assoc del: upt_Suc)
qed simp

section \<open>Properties\<close>


lemma toy_sendable:
  assumes "s_Joined s" and "parseDevAddr (s_DevAddr s) = Inr a" and "parseAES128 (s_NwkSKey s) = Inr n" and "parseAES128 (s_AppSKey s) = Inr p"
  shows "sendable toy_lorawan d s"
  using assms
  by (simp add: sendable_def uplinkParams_def BuildUplink_def toy_lorawan_def toy_mic_def phy_frame_def toy_marshal_def)


end
