(* ===== verification/Downlinks.thy ===== *)
theory Downlinks
  imports Uplinks
begin

text \<open>
  Class C downlinks through all parts: what the emulated network server pushes is given to the gateway's
  receive loop, and what the gateway writes to the tag's connection is given to the tag.
\<close>

section \<open>One push and a run of them\<close>

text \<open>Tag connection \<open>k\<close> at the gateway; the downlinks are what the tag's hook gets.\<close>

definition push_round :: "aes_lib \<Rightarrow> lorawan \<Rightarrow> nat \<Rightarrow> string \<Rightarrow> u8 \<times> bytes \<Rightarrow> client \<Rightarrow> store \<Rightarrow> gateway \<Rightarrow> lns \<Rightarrow> mock \<Rightarrow>
    unit res \<times> downlink list \<times> client \<times> store \<times> gateway \<times> lns \<times> mock" where
  "push_round A L k devEUI p c st g l m =
     (case PushClassC A L devEUI (fst p) (snd p) m of
        (Inl e, m1) \<Rightarrow> (Inl e, [], c, st, g, l, m1)
      | (Inr _, m1) \<Rightarrow>
          (case mk_conn m of
             None \<Rightarrow> (Inr (), [], c, st, g, l, m1)
           | Some q \<Rightarrow>
               (case lns_Run (Some (on_dnmsg None)) (map Inr (added (mk_out m q) (mk_out m1 q))) (l, g) of (_, l1, g1) \<Rightarrow>
                case client_Run L (added (gw_wires g k) (gw_wires g1 k)) c st of (_, hs, c1, st1) \<Rightarrow>
                (Inr (), hs, c1, st1, g1, l1, m1))))"

fun push_rounds :: "aes_lib \<Rightarrow> lorawan \<Rightarrow> nat \<Rightarrow> string \<Rightarrow> (u8 \<times> bytes) list \<Rightarrow> client \<Rightarrow> store \<Rightarrow> gateway \<Rightarrow> lns \<Rightarrow> mock \<Rightarrow>
    unit res list \<times> downlink list \<times> store \<times> lns" where
  "push_rounds A L k devEUI [] c st g l m = ([], [], st, l)"
| "push_rounds A L k devEUI (p # ps) c st g l m =
     (case push_round A L k devEUI p c st g l m of (r, hs, c, st, g, l, m) \<Rightarrow>
      case push_rounds A L k devEUI ps c st g l m of (rs, hs2, st, l) \<Rightarrow> (r # rs, hs @ hs2, st, l))"

text \<open>What the tag should decode: each push that succeeded, under the counter that was its turn.\<close>

fun pushed :: "u32 \<Rightarrow> (u8 \<times> bytes) list \<Rightarrow> unit res list \<Rightarrow> downlink list" where
  "pushed f (p # ps) (r # rs) = (if is_ok r then [app_downlink (fst p) f (snd p)] else []) @ pushed (f + 1) ps rs"
| "pushed f ps rs = []"

section \<open>What a push does to the network server\<close>

lemma mock_send_frame':
  "mk_conn (snd (mock_send c msg m)) = mk_conn m"
  by (simp add: mock_send_def Encode_def mock_write_def split: prod.splits)

lemma seqE_pure: "(\<And>x. P (snd (k x s))) \<Longrightarrow> P s \<Longrightarrow> P (snd (seqE (r, s) k))"
  by (cases r) simp_all

definition same_server :: "mock \<Rightarrow> mock \<Rightarrow> bool" where
  "same_server m m' = (mk_sessions m' = mk_sessions m \<and> mk_heap m' = mk_heap m \<and> mk_cfg m' = mk_cfg m \<and> mk_conn m' = mk_conn m)"

lemma push_rest_same: "same_server m (snd (push_rest A L d port data found m))"
proof -
  have "same_server m (snd (mock_send c msg (m\<lparr>mk_diid := n\<rparr>)))" for c msg n
    by (simp add: same_server_def mock_send_frame mock_send_frame')
  note sent = this
  have refl: "same_server m m" by (simp add: same_server_def)
  obtain mc ma where f: "found = (mc, ma)" by fastforce
  show ?thesis
  proof (cases "mc = None \<or> ma = None")
    case True
    then show ?thesis by (cases mc) (simp_all add: push_rest_def f refl)
  next
    case False
    then obtain c a where "mc = Some c" "ma = Some a" by auto
    then show ?thesis
      unfolding push_rest_def f Let_def prod.case
      by (simp only: option.case) (intro seqE_pure [where P = "same_server m"] refl sent)
  qed
qed

text \<open>A push moves the counter of the session on, whether it succeeds or not.\<close>

lemma PushClassC_counts:
  assumes "mk_sessions m d = Some a"
  shows "mk_sessions (snd (PushClassC A L d port data m)) = mk_sessions m"
    "mk_heap (snd (PushClassC A L d port data m)) = (mk_heap m)[a := (mk_heap m ! a)\<lparr>ji_fcntDown := ji_fcntDown (mk_heap m ! a) + 1\<rparr>]"
    "mk_cfg (snd (PushClassC A L d port data m)) = mk_cfg m" "mk_conn (snd (PushClassC A L d port data m)) = mk_conn m"
proof -
  let ?m1 = "m\<lparr>mk_heap := (mk_heap m)[a := (mk_heap m ! a)\<lparr>ji_fcntDown := ji_fcntDown (mk_heap m ! a) + 1\<rparr>]\<rparr>"
  have "same_server ?m1 (snd (PushClassC A L d port data m))"
    using push_rest_same [of ?m1] by (simp add: PushClassC_def push_lock_def assms)
  then show "mk_sessions (snd (PushClassC A L d port data m)) = mk_sessions m"
    "mk_heap (snd (PushClassC A L d port data m)) = (mk_heap m)[a := (mk_heap m ! a)\<lparr>ji_fcntDown := ji_fcntDown (mk_heap m ! a) + 1\<rparr>]"
    "mk_cfg (snd (PushClassC A L d port data m)) = mk_cfg m" "mk_conn (snd (PushClassC A L d port data m)) = mk_conn m"
    by (simp_all add: same_server_def)
qed

lemma push_dnmsg_ok: "ascii devEUI \<Longrightarrow> message_ok (MDnmsg (push_dnmsg cfg devEUI diid pdu))"
  by (simp add: message_ok_def dnmsg_ok_def push_dnmsg_def) (simp add: TypeDnmsg_def ascii_def int64_ok_def)

section \<open>The session at both ends\<close>

text \<open>
  The tag's row and the network server's session \<open>a\<close> hold the same keys, and the tag has not accepted a
  counter that is still to come.
\<close>

definition paired :: "aes_lib \<Rightarrow> lorawan \<Rightarrow> cipher \<Rightarrow> session_row \<Rightarrow> mock \<Rightarrow> nat \<Rightarrow> bool" where
  "paired A L ci r m a =
     (\<exists>s addr nwk app. scan_session ci r = Inr s \<and> s_Joined s \<and> parseDevAddr (s_DevAddr s) = Inr addr \<and>
        parseAES128 (s_NwkSKey s) = Inr nwk \<and> parseAES128 (s_AppSKey s) = Inr app \<and>
        DeriveNwkSKey A L (mcfg_AppKey (mk_cfg m)) (mcfg_NetID (mk_cfg m)) (ji_joinNonce (mk_heap m ! a)) (ji_devNonce (mk_heap m ! a)) = Inr nwk \<and>
        DeriveAppSKey A L (mcfg_AppKey (mk_cfg m)) (mcfg_NetID (mk_cfg m)) (ji_joinNonce (mk_heap m ! a)) (ji_devNonce (mk_heap m ! a)) = Inr app \<and>
        s_FCntDown s \<le> ji_fcntDown (mk_heap m ! a) \<and> a < length (mk_heap m) \<and> length (mcfg_DevAddr (mk_cfg m)) = 4)"

lemma paired_later:
  assumes "paired A L ci r m a" and "mk_cfg m' = mk_cfg m"
    and "mk_heap m' = (mk_heap m)[a := (mk_heap m ! a)\<lparr>ji_fcntDown := ji_fcntDown (mk_heap m ! a) + 1\<rparr>]"
    and "unat (ji_fcntDown (mk_heap m ! a)) < 65536"
  shows "paired A L ci r m' a"
    and "paired A L ci (down_row (ji_fcntDown (mk_heap m ! a)) now r) m' a"
    and "unat (ji_fcntDown (mk_heap m' ! a)) = unat (ji_fcntDown (mk_heap m ! a)) + 1"
proof -
  let ?f = "ji_fcntDown (mk_heap m ! a)"
  have a: "a < length (mk_heap m)" using assms(1) by (auto simp: paired_def)
  have h: "mk_heap m' ! a = (mk_heap m ! a)\<lparr>ji_fcntDown := ?f + 1\<rparr>" "length (mk_heap m') = length (mk_heap m)"
    using a by (simp_all add: assms(3))
  have u: "unat (?f + 1) = unat ?f + 1" using assms(4) by (simp add: unat_word_ariths)
  then have le: "?f \<le> ?f + 1" by (simp add: word_le_nat_alt)
  show "paired A L ci r m' a"
    using assms(1,2) le unfolding paired_def h by (fastforce intro: order_trans)
  show "paired A L ci (down_row ?f now r) m' a"
    using assms(1,2) le unfolding paired_def h by (fastforce dest: scan_down_row [of ci r _ ?f now])
  show "unat (ji_fcntDown (mk_heap m' ! a)) = unat ?f + 1" using u by (simp add: h)
qed

section \<open>The hops\<close>

lemma client_data_hop:
  assumes "envelope_ok (down_envelope dn)" and "dn_Pdu dn = hex_EncodeToString pdu" and "cl_joined c"
    and "HandleDownlink L (cl_dev c) pdu st = (Inr dl, st')"
  shows "client_Run L (conn_line (down_envelope dn)) c st = (EOF, [dl], c, st')"
proof -
  have "client_dispatch L (down_envelope dn) c st = (Some dl, c, st')"
    using assms(2-4) by (simp add: client_dispatch_def down_envelope_def Let_def zero_envelope_def)
  then show ?thesis using client_Run_lines [of "[down_envelope dn]" L c st] assms(1) by simp
qed

lemma push_hops:
  assumes "lorawan_ok L" and "ascii devEUI" and "mk_sessions m devEUI = Some a"
    and "gw_lookup devEUI g = Some k" and "ln_faults l = []" and "cl_joined c" and "db_up st"
    and "find_session (t_ID (dv_tag (cl_dev c))) st = Some r" and "paired A L (st_cipher st) r m a"
    and "unat (ji_fcntDown (mk_heap m ! a)) < 65536" and "port \<noteq> 0" and "data \<noteq> []"
    and "PushClassC A L devEUI port data m = (Inr u, m')"
  obtains st' g' l' now d where "push_round A L k devEUI (port, data) c st g l m =
      (Inr (), [app_downlink port (ji_fcntDown (mk_heap m ! a)) data], c, st', g', l', m')"
    "gw_lookup devEUI g' = Some k" "ln_faults l' = []" "ln_out l' = ln_out l @ [on_wire (typed_dntxed d)]" "dt_DevEui d = devEUI"
    "db_up st'" "st_cipher st' = st_cipher st"
    "find_session (t_ID (dv_tag (cl_dev c))) st' = Some (down_row (ji_fcntDown (mk_heap m ! a)) now r)"
proof -
  let ?f = "ji_fcntDown (mk_heap m ! a)" and ?tid = "t_ID (dv_tag (cl_dev c))"
  obtain s addr nwk app where s: "scan_session (st_cipher st) r = Inr s" "s_Joined s" "parseDevAddr (s_DevAddr s) = Inr addr"
    "parseAES128 (s_NwkSKey s) = Inr nwk" "parseAES128 (s_AppSKey s) = Inr app"
    and k: "DeriveNwkSKey A L (mcfg_AppKey (mk_cfg m)) (mcfg_NetID (mk_cfg m)) (ji_joinNonce (mk_heap m ! a)) (ji_devNonce (mk_heap m ! a)) = Inr nwk"
      "DeriveAppSKey A L (mcfg_AppKey (mk_cfg m)) (mcfg_NetID (mk_cfg m)) (ji_joinNonce (mk_heap m ! a)) (ji_devNonce (mk_heap m ! a)) = Inr app"
    and f: "s_FCntDown s \<le> ?f" "a < length (mk_heap m)" "length (mcfg_DevAddr (mk_cfg m)) = 4"
    using assms(9) unfolding paired_def by blast
  obtain q pdu where q: "mk_conn m = Some q"
    and b: "buildDataDownlink L nwk app (mcfg_DevAddr (mk_cfg m)) ?f port data = Inr pdu"
    and out: "mk_out m' = (mk_out m)(q := mk_out m q @ [on_wire (MDnmsg (push_dnmsg (mk_cfg m) devEUI (mk_diid m + 1) pdu))])"
    by (rule PushClassC_Inr [OF assms(13,3) f(2)]) (use k in auto)
  define dn where "dn = push_dnmsg (mk_cfg m) devEUI (mk_diid m + 1) pdu"
  have dn: "dn_DevEui dn = devEUI" "dn_Pdu dn = hex_EncodeToString pdu" by (simp_all add: dn_def push_dnmsg_def)
  have parsed: "ParseDownlink L \<lparr>dp_DevAddr = addr, dp_NwkSKey = nwk, dp_AppSKey = app\<rparr> pdu = Inr (app_downlink port ?f data)"
    by (rule buildDataDownlink_parsed [OF assms(1) b f(3) assms(12,10,11)]) simp_all
  have fresh: "\<not> (s_FCntDown s > 0 \<and> dl_FCnt (app_downlink port ?f data) < s_FCntDown s)"
    using f(1) by (simp add: app_downlink_def not_less)
  obtain fs where h: "HandleDownlink L (cl_dev c) pdu st = (Inr (app_downlink port ?f data),
      upd_session ?tid (down_row ?f (st_clock st)) (st\<lparr>db_faults := fs\<rparr>))" "db_up (st\<lparr>db_faults := fs\<rparr>)"
    using HandleDownlink_up [OF assms(7,8) s parsed fresh] by (auto simp: app_downlink_def)
  have ok: "message_ok (MDnmsg dn)" unfolding dn_def by (rule push_dnmsg_ok [OF assms(2)])
  have lk: "gw_lookup (dn_DevEui dn) g = Some k" by (simp add: dn assms(4))
  have denv: "envelope_ok (down_envelope dn)" by (rule down_envelope_ok) (simp_all add: dn assms(2))
  define g' where "g' = g\<lparr>gw_wires := (gw_wires g)(k := gw_wires g k @ conn_line (down_envelope dn))\<rparr>"
  define l' where "l' = l\<lparr>ln_out := ln_out l @ [on_wire (typed_dntxed (dntxed_of dn))]\<rparr>"
  have down: "lns_Run (Some (on_dnmsg None)) [Inr (on_wire (MDnmsg dn))] (l, g) = (None, l', g')"
    unfolding g'_def l'_def by (rule downlink_hop [OF ok lk assms(5)])
  have wire: "added (gw_wires g k) (gw_wires g' k) = conn_line (down_envelope dn)" by (simp add: g'_def)
  have add: "added (mk_out m q) (mk_out m' q) = [on_wire (MDnmsg dn)]" by (simp add: out dn_def)
  have "push_round A L k devEUI (port, data) c st g l m = (Inr (), [app_downlink port ?f data], c,
      upd_session ?tid (down_row ?f (st_clock st)) (st\<lparr>db_faults := fs\<rparr>), g', l', m')"
    using down by (simp add: push_round_def assms(13) q add wire client_data_hop [OF denv dn(2) assms(6) h(1)] del: lns_Run.simps)
  then show thesis
    by (rule that [of _ g' l' "dntxed_of dn" "st_clock st"])
      (use assms(4,5,8) h(2) in \<open>simp_all add: g'_def gw_lookup_def l'_def dntxed_of_def dn find_session_upd\<close>)
qed

section \<open>Runs\<close>

lemma push_rounds_decoded:
  assumes "lorawan_ok L" and "ascii devEUI"
  shows "mk_sessions m devEUI = Some a \<Longrightarrow> gw_lookup devEUI g = Some k \<Longrightarrow> ln_faults l = [] \<Longrightarrow> cl_joined c \<Longrightarrow> db_up st \<Longrightarrow>
     find_session (t_ID (dv_tag (cl_dev c))) st = Some r \<Longrightarrow> paired A L (st_cipher st) r m a \<Longrightarrow>
     unat (ji_fcntDown (mk_heap m ! a)) + length ps \<le> 65536 \<Longrightarrow> \<forall>p \<in> set ps. fst p \<noteq> 0 \<and> snd p \<noteq> [] \<Longrightarrow>
     push_rounds A L k devEUI ps c st g l m = (rs, hs, st', l') \<Longrightarrow>
     hs = pushed (ji_fcntDown (mk_heap m ! a)) ps rs \<and>
     (\<exists>ds. ln_out l' = ln_out l @ map (\<lambda>d. on_wire (typed_dntxed d)) ds \<and> length ds = length hs \<and> (\<forall>d \<in> set ds. dt_DevEui d = devEUI))"
proof (induction ps arbitrary: c st g l m r rs hs)
  case (Cons p ps)
  let ?f = "ji_fcntDown (mk_heap m ! a)" and ?tid = "t_ID (dv_tag (cl_dev c))"
  obtain port data where p: "p = (port, data)" by fastforce
  obtain x m1 where push: "PushClassC A L devEUI port data m = (x, m1)" by fastforce
  have c1: "mk_sessions m1 = mk_sessions m" "mk_heap m1 = (mk_heap m)[a := (mk_heap m ! a)\<lparr>ji_fcntDown := ?f + 1\<rparr>]" "mk_cfg m1 = mk_cfg m"
    using PushClassC_counts [OF Cons.prems(1), of A L port data] push by simp_all
  have a: "a < length (mk_heap m)" using Cons.prems(7) by (auto simp: paired_def)
  then have f1: "ji_fcntDown (mk_heap m1 ! a) = ?f + 1" by (simp add: c1(2))
  have lt: "unat ?f < 65536" using Cons.prems(8) by simp
  note later = paired_later [OF Cons.prems(7) c1(3,2) lt]
  have s1: "mk_sessions m1 devEUI = Some a" and n1: "unat (ji_fcntDown (mk_heap m1 ! a)) + length ps \<le> 65536"
    and ps: "\<forall>p \<in> set ps. fst p \<noteq> 0 \<and> snd p \<noteq> []"
    using Cons.prems(1,8,9) c1(1) later(3) by simp_all
  show ?case
  proof (cases x)
    case (Inl e)
    then have round: "push_round A L k devEUI p c st g l m = (Inl e, [], c, st, g, l, m1)"
      using push by (simp add: push_round_def p)
    obtain rs1 where rs: "rs = Inl e # rs1" "push_rounds A L k devEUI ps c st g l m1 = (rs1, hs, st', l')"
      using Cons.prems(10) by (auto simp: round split: prod.splits)
    from Cons.IH [OF s1 Cons.prems(2-6) later(1) n1 ps rs(2)] show ?thesis by (auto simp: rs(1) f1 p)
  next
    case (Inr u)
    note push = push [unfolded Inr]
    have pd: "port \<noteq> 0" "data \<noteq> []" using Cons.prems(9) by (simp_all add: p)
    obtain st1 g1 l1 now d where round: "push_round A L k devEUI (port, data) c st g l m =
        (Inr (), [app_downlink port ?f data], c, st1, g1, l1, m1)"
      and g1: "gw_lookup devEUI g1 = Some k" "ln_faults l1 = []" "ln_out l1 = ln_out l @ [on_wire (typed_dntxed d)]" "dt_DevEui d = devEUI"
      and st1: "db_up st1" "st_cipher st1 = st_cipher st" "find_session ?tid st1 = Some (down_row ?f now r)"
      by (rule push_hops [OF assms Cons.prems(1-7) lt pd push])
    obtain rs1 hs1 where rs: "rs = Inr () # rs1" "hs = app_downlink port ?f data # hs1"
      "push_rounds A L k devEUI ps c st1 g1 l1 m1 = (rs1, hs1, st', l')"
      using Cons.prems(10) by (auto simp: p round split: prod.splits)
    have "paired A L (st_cipher st1) (down_row ?f now r) m1 a" using later(2) st1(2) by simp
    from Cons.IH [OF s1 g1(1,2) Cons.prems(4) st1(1,3) this n1 ps rs(3)] obtain ds where "hs1 = pushed (?f + 1) ps rs1"
      "ln_out l' = ln_out l1 @ map (\<lambda>d. on_wire (typed_dntxed d)) ds" "length ds = length hs1" "\<forall>d \<in> set ds. dt_DevEui d = devEUI"
      by (auto simp: f1)
    with g1(3,4) show ?thesis by (intro conjI exI [of _ "d # ds"]) (simp_all add: rs(1,2) p)
  qed
qed simp

text \<open>A gateway is connected, no write to it fails, and the codec encodes what is pushed.\<close>

definition pushable :: "lorawan \<Rightarrow> mock \<Rightarrow> bool" where
  "pushable L m = (mk_faults m = [] \<and> mk_conn m \<noteq> None \<and>
     (\<forall>nwk app f port data. \<exists>pdu. buildDataDownlink L nwk app (mcfg_DevAddr (mk_cfg m)) f port data = Inr pdu))"

lemma PushClassC_up:
  assumes "pushable L m" and "mk_sessions m devEUI = Some a" and "paired A L ci r m a"
  obtains m' where "PushClassC A L devEUI port data m = (Inr (), m')" "pushable L m'"
proof -
  let ?m1 = "m\<lparr>mk_heap := (mk_heap m)[a := (mk_heap m ! a)\<lparr>ji_fcntDown := ji_fcntDown (mk_heap m ! a) + 1\<rparr>]\<rparr>"
  obtain q where q: "mk_conn m = Some q" "mk_faults m = []" using assms(1) by (auto simp: pushable_def)
  obtain nwk app where k: "a < length (mk_heap m)"
    "DeriveNwkSKey A L (mcfg_AppKey (mk_cfg m)) (mcfg_NetID (mk_cfg m)) (ji_joinNonce (mk_heap m ! a)) (ji_devNonce (mk_heap m ! a)) = Inr nwk"
    "DeriveAppSKey A L (mcfg_AppKey (mk_cfg m)) (mcfg_NetID (mk_cfg m)) (ji_joinNonce (mk_heap m ! a)) (ji_devNonce (mk_heap m ! a)) = Inr app"
    using assms(3) unfolding paired_def by blast
  obtain pdu where b: "buildDataDownlink L nwk app (mcfg_DevAddr (mk_cfg m)) (ji_fcntDown (mk_heap m ! a)) port data = Inr pdu"
    using assms(1) unfolding pushable_def by blast
  have "\<exists>m'. PushClassC A L devEUI port data m = (Inr (), m') \<and> mk_faults m' = [] \<and> mk_conn m' = mk_conn m \<and> mk_cfg m' = mk_cfg m"
    by (simp add: PushClassC_def push_lock_def assms(2) push_rest_def k b q mock_send_ok Let_def)
  with assms(1) that show thesis by (auto simp: pushable_def)
qed

lemma push_rounds_up:
  shows "pushable L m \<Longrightarrow> mk_sessions m devEUI = Some a \<Longrightarrow> paired A L ci r m a \<Longrightarrow> unat (ji_fcntDown (mk_heap m ! a)) + length ps \<le> 65536 \<Longrightarrow>
     push_rounds A L k devEUI ps c st g l m = (rs, hs, st', l') \<Longrightarrow> rs = replicate (length ps) (Inr ())"
proof (induction ps arbitrary: c st g l m rs hs)
  case (Cons p ps)
  obtain m1 where push: "PushClassC A L devEUI (fst p) (snd p) m = (Inr (), m1)" and m1: "pushable L m1"
    by (rule PushClassC_up [OF Cons.prems(1-3)])
  note n = PushClassC_counts [OF Cons.prems(2), of A L "fst p" "snd p", unfolded push snd_conv]
  have "unat (ji_fcntDown (mk_heap m ! a)) < 65536" using Cons.prems(4) by simp
  note later = paired_later(1,3) [OF Cons.prems(3) n(3,2) this]
  let ?x = "push_round A L k devEUI p c st g l m"
  have "fst ?x = Inr () \<and> snd (snd (snd (snd (snd (snd ?x))))) = m1"
    by (cases "mk_conn m") (simp_all add: push_round_def push split: prod.splits)
  then obtain hs1 c1 st1 g1 l1 where round: "?x = (Inr (), hs1, c1, st1, g1, l1, m1)" by (cases ?x) auto
  obtain rs1 hs2 where rs: "rs = Inr () # rs1" "push_rounds A L k devEUI ps c1 st1 g1 l1 m1 = (rs1, hs2, st', l')"
    using Cons.prems(5) by (auto simp: round split: prod.splits)
  have "mk_sessions m1 devEUI = Some a" "unat (ji_fcntDown (mk_heap m1 ! a)) + length ps \<le> 65536"
    using Cons.prems(2,4) n(1) later(2) by simp_all
  from Cons.IH [OF m1 this(1) later(1) this(2) rs(2)] show ?case by (simp add: rs(1))
qed simp

section \<open>Properties\<close>


lemma toy_pushable: "mk_faults m = [] \<Longrightarrow> mk_conn m = Some q \<Longrightarrow> pushable toy_lorawan m"
proof -
  have "\<exists>pdu. buildDataDownlink toy_lorawan nwk app addr f port data = Inr pdu" for nwk app addr f port data
    by (rule toy_down_frame [of app addr f port data nwk]) (simp add: buildDataDownlink_def)
  then show "mk_faults m = [] \<Longrightarrow> mk_conn m = Some q \<Longrightarrow> pushable toy_lorawan m" by (simp add: pushable_def)
qed


end
