(* ===== verification/Traffic.thy ===== *)
theory Traffic
  imports Downlinks
begin

text \<open>
  A join and the traffic after it: what the join leaves at the tag, the gateway and the network server is what
  uplinks and Class C downlinks need.
\<close>

section \<open>When a join goes through\<close>

text \<open>
  The tag has announced itself on connection \<open>k\<close> and has not joined; its database works and seals the keys;
  the link and the network server write; the server has the tag's AppKey, and the codec encodes the
  join-request and the join-accept. \<open>n\<close> is the DevNonce, \<open>nwk\<close> and \<open>app\<close> are the keys the server derives.
\<close>

definition tag_ready :: "lorawan \<Rightarrow> client \<Rightarrow> store \<Rightarrow> u16 \<Rightarrow> aes128_key \<Rightarrow> aes128_key \<Rightarrow> bool" where
  "tag_ready L c st n nwk app =
     (length (pr_DevEUI (dv_prov (cl_dev c))) = 8 \<and> length (pr_JoinEUI (dv_prov (cl_dev c))) = 8 \<and>
      ascii (t_DevEUI (dv_tag (cl_dev c))) \<and> \<not> cl_joined c \<and> cl_joinCh c = None \<and>
      (\<exists>frame st1 r encNwk r1 encApp r2.
         dev_BuildJoinRequest L (cl_dev c) st = (Inr (frame, n), st1) \<and> db_up st1 \<and>
         find_session (t_ID (dv_tag (cl_dev c))) st1 = Some r \<and> (\<exists>w :: u16. sr_dev_nonce r = uint w) \<and> cipher_ok (st_cipher st1) \<and>
         Encrypt (st_cipher st1) (hexBytes nwk) (sessionAAD (t_ID (dv_tag (cl_dev c))) ''nwk_skey'') (st_entropy st1) = (Inr encNwk, r1) \<and>
         Encrypt (st_cipher st1) (hexBytes app) (sessionAAD (t_ID (dv_tag (cl_dev c))) ''app_skey'') r1 = (Inr encApp, r2)))"

definition server_ready :: "aes_lib \<Rightarrow> lorawan \<Rightarrow> client \<Rightarrow> mock \<Rightarrow> u16 \<Rightarrow> aes128_key \<Rightarrow> aes128_key \<Rightarrow> bool" where
  "server_ready A L c m n nwk app =
     (mk_faults m = [] \<and> int64_ok (mcfg_RxDelay (mk_cfg m)) \<and> length (mcfg_DevAddr (mk_cfg m)) = 4 \<and>
      mcfg_AppKey (mk_cfg m) = pr_AppKey (dv_prov (cl_dev c)) \<and>
      (\<exists>p1 p2 accept.
         SetDownlinkJoinMIC L (pr_JoinEUI (dv_prov (cl_dev c))) n (pr_AppKey (dv_prov (cl_dev c)))
           (phy_frame JoinAccept (JoinAcceptPayload (join_accept_of (mk_cfg m) (mk_joinNonce m + 1)))) = Inr p1 \<and>
         EncryptJoinAcceptPayload L (pr_AppKey (dv_prov (cl_dev c))) p1 = Inr p2 \<and> phy_MarshalBinary L p2 = Inr accept) \<and>
      DeriveNwkSKey A L (mcfg_AppKey (mk_cfg m)) (mcfg_NetID (mk_cfg m)) (mk_joinNonce m + 1) n = Inr nwk \<and>
      DeriveAppSKey A L (mcfg_AppKey (mk_cfg m)) (mcfg_NetID (mk_cfg m)) (mk_joinNonce m + 1) n = Inr app)"

section \<open>Properties\<close>


lemma toy_tag_ready: "tag_ready toy_lorawan toy_client example_store 1 nwk app"
proof -
  obtain frame fs where b: "dev_BuildJoinRequest toy_lorawan toy_device example_store =
      (Inr (frame, 1), upd_session 1 (nonce_row []) (example_store\<lparr>db_faults := fs\<rparr>))"
    and up: "db_up (example_store\<lparr>db_faults := fs\<rparr>)" by (rule toy_BuildJoinRequest)
  let ?st1 = "upd_session 1 (nonce_row []) (example_store\<lparr>db_faults := fs\<rparr>)" and ?r = "nonce_row [] (session_row_of 1 [])"
  have pre: "length (pr_DevEUI (dv_prov (cl_dev toy_client))) = 8" "length (pr_JoinEUI (dv_prov (cl_dev toy_client))) = 8"
    "ascii (t_DevEUI (dv_tag (cl_dev toy_client)))"
    by (simp_all add: toy_prov_def) (simp add: toy_device_def tag_of_new_def example_new_tag_def ascii_def)
  have f: "dev_BuildJoinRequest toy_lorawan (cl_dev toy_client) example_store = (Inr (frame, 1), ?st1)" "db_up ?st1"
    "find_session (t_ID (dv_tag (cl_dev toy_client))) ?st1 = Some ?r" "cipher_ok (st_cipher ?st1)"
    using b up by (simp_all add: find_session_upd cipher_ok_def NewInsecureDisabled_def)
  have w: "sr_dev_nonce ?r = uint (1 :: u16)" by (simp add: nonce_row_def session_row_of_def)
  have e: "Encrypt (st_cipher ?st1) x d (st_entropy ?st1) = (Inr x, st_entropy ?st1)" for x d
    using example_Encrypt [of x d "st_entropy ?st1"] by simp
  show ?thesis
    unfolding tag_ready_def using pre toy_client f w e by blast
qed

lemma toy_server_ready:
  obtains nwk app where "server_ready toy_aes toy_lorawan toy_client (mock_New toy_mock_config) 1 nwk app"
proof -
  let ?m = "mock_New toy_mock_config"
  obtain p1 p2 accept where a: "SetDownlinkJoinMIC toy_lorawan (pr_JoinEUI toy_prov) 1 (pr_AppKey toy_prov)
       (phy_frame JoinAccept (JoinAcceptPayload (join_accept_of (mk_cfg ?m) (mk_joinNonce ?m + 1)))) = Inr p1"
    "EncryptJoinAcceptPayload toy_lorawan (pr_AppKey toy_prov) p1 = Inr p2" "phy_MarshalBinary toy_lorawan p2 = Inr accept"
    by (rule toy_join_accept_frame [of "join_accept_of (mk_cfg ?m) (mk_joinNonce ?m + 1)" "pr_JoinEUI toy_prov" 1 "pr_AppKey toy_prov"])
      (simp_all add: join_accept_of_def)
  obtain nwk app where k: "DeriveNwkSKey toy_aes toy_lorawan (mcfg_AppKey (mk_cfg ?m)) (mcfg_NetID (mk_cfg ?m)) (mk_joinNonce ?m + 1) 1 = Inr nwk"
    "DeriveAppSKey toy_aes toy_lorawan (mcfg_AppKey (mk_cfg ?m)) (mcfg_NetID (mk_cfg ?m)) (mk_joinNonce ?m + 1) 1 = Inr app"
    using toy_derive [of toy_app_key "[0, 0, 19]" 1 1] by (auto simp: toy_app_key_def)
  have m: "mk_faults ?m = []" "int64_ok (mcfg_RxDelay (mk_cfg ?m))" "length (mcfg_DevAddr (mk_cfg ?m)) = 4"
    "mcfg_AppKey (mk_cfg ?m) = pr_AppKey toy_prov"
    by (simp_all add: int64_ok_def toy_prov_def)
  have "cl_dev toy_client = toy_device" "dv_prov toy_device = toy_prov" by simp_all
  then show thesis using that m a k unfolding server_ready_def by metis
qed


end
