(* ===== verification/Hub.thy ===== *)
theory Hub
  imports Protocol EventRepo "HOL-Library.Sublist"
begin

text \<open>
  The live event feed (\<open>internal/api/hub.go\<close>, \<open>publisher.go\<close>): a hub that fans messages out to bounded
  client buffers, and the publisher that stores an event, counts it and broadcasts it. Clients are
  numbered; \<open>hb_sent cl\<close> is what the writer goroutine of client \<open>cl\<close> has written to its WebSocket.
\<close>

section \<open>The hub\<close>

definition sendBuffer :: nat where
  "sendBuffer = 64"

record hub =
  hb_clients :: "nat \<rightharpoonup> string list"
  hb_sent :: "nat \<Rightarrow> string list"

definition NewHub :: hub where
  "NewHub = \<lparr>hb_clients = Map.empty, hb_sent = (\<lambda>_. [])\<rparr>"

definition hub_add :: "nat \<Rightarrow> hub \<Rightarrow> hub" where
  "hub_add cl h = h\<lparr>hb_clients := (hb_clients h)(cl \<mapsto> [])\<rparr>"

definition hub_remove :: "nat \<Rightarrow> hub \<Rightarrow> hub" where
  "hub_remove cl h = h\<lparr>hb_clients := (hb_clients h)(cl := None)\<rparr>"

definition offer :: "string \<Rightarrow> string list \<Rightarrow> string list" where
  "offer msg buf = (if length buf < sendBuffer then buf @ [msg] else buf)"

definition Broadcast :: "string \<Rightarrow> hub \<Rightarrow> hub" where
  "Broadcast msg h = h\<lparr>hb_clients := map_option (offer msg) \<circ> hb_clients h\<rparr>"

definition hub_Clients :: "hub \<Rightarrow> nat" where
  "hub_Clients h = card (dom (hb_clients h))"

text \<open>
  One round of the writer goroutine of \<open>ServeWS\<close>; \<open>ok\<close> is the outcome of the write. After a failed
  write the goroutine ends, which ends \<open>ServeWS\<close> and removes the client.
\<close>

definition hub_pump :: "nat \<Rightarrow> bool \<Rightarrow> hub \<Rightarrow> hub" where
  "hub_pump cl ok h =
     (case hb_clients h cl of
        Some (msg # buf) \<Rightarrow>
          if ok then h\<lparr>hb_clients := (hb_clients h)(cl \<mapsto> buf), hb_sent := (hb_sent h)(cl := hb_sent h cl @ [msg])\<rparr>
          else hub_remove cl h
      | _ \<Rightarrow> h)"

datatype hub_event =
    Connect nat
  | Disconnect nat
  | Pump nat bool
  | Message string

definition hub_step :: "hub_event \<Rightarrow> hub \<Rightarrow> hub" where
  "hub_step ev h =
     (case ev of
        Connect cl \<Rightarrow> hub_add cl h
      | Disconnect cl \<Rightarrow> hub_remove cl h
      | Pump cl ok \<Rightarrow> hub_pump cl ok h
      | Message msg \<Rightarrow> Broadcast msg h)"

fun hub_run :: "hub_event list \<Rightarrow> hub \<Rightarrow> hub" where
  "hub_run [] h = h"
| "hub_run (ev # evs) h = hub_run evs (hub_step ev h)"

fun messages :: "hub_event list \<Rightarrow> string list" where
  "messages [] = []"
| "messages (Message m # evs) = m # messages evs"
| "messages (_ # evs) = messages evs"

section \<open>The publisher\<close>

record metric_counts =
  mt_Joins :: "string \<Rightarrow> nat"
  mt_Uplinks :: "string \<Rightarrow> nat"
  mt_Downlinks :: "string \<Rightarrow> nat"

definition inc :: "string \<Rightarrow> (string \<Rightarrow> nat) \<Rightarrow> string \<Rightarrow> nat" where
  "inc k f = f(k := f k + 1)"

record publisher =
  pb_hub :: hub
  pb_metrics :: "metric_counts option"

definition record_counts :: "event \<Rightarrow> metric_counts \<Rightarrow> metric_counts" where
  "record_counts e m =
     (if ev_Kind e = ''join'' then
        (let result = (if ev_Result e = [] then ''success'' else ev_Result e) in m\<lparr>mt_Joins := inc result (mt_Joins m)\<rparr>)
      else if ev_Direction e = ''up'' \<and> ev_Kind e = ''data'' then m\<lparr>mt_Uplinks := inc ''data'' (mt_Uplinks m)\<rparr>
      else if ev_Direction e = ''down'' then m\<lparr>mt_Downlinks := inc ''A'' (mt_Downlinks m)\<rparr>
      else m)"

definition record_event :: "event \<Rightarrow> metric_counts option \<Rightarrow> metric_counts option" where
  "record_event e m = (case m of None \<Rightarrow> None | Some m \<Rightarrow> Some (record_counts e m))"

text \<open>The JSON of an event and of the message around it.\<close>

definition enc_opt :: "('a \<Rightarrow> json) \<Rightarrow> 'a option \<Rightarrow> json" where
  "enc_opt f x = (case x of None \<Rightarrow> JNull | Some y \<Rightarrow> f y)"

definition event_fields :: "event \<Rightarrow> (string \<times> bool \<times> json) list" where
  "event_fields e =
     [(''id'', False, enc_int (ev_ID e)), (''ts'', False, JStr (ev_TS e)),
      (''tag_id'', ev_TagID e = None, enc_opt (\<lambda>i. enc_int i) (ev_TagID e)),
      (''direction'', False, JStr (ev_Direction e)), (''kind'', False, JStr (ev_Kind e)),
      (''freq'', ev_Freq e = None, enc_opt (\<lambda>i. enc_int i) (ev_Freq e)), (''dr'', ev_DR e = None, enc_opt (\<lambda>i. enc_int i) (ev_DR e)),
      (''fcnt'', ev_FCnt e = None, enc_opt (\<lambda>i. enc_int i) (ev_FCnt e)), (''fport'', ev_FPort e = None, enc_opt (\<lambda>i. enc_int i) (ev_FPort e)),
      (''rssi'', ev_RSSI e = None, enc_opt (\<lambda>r. enc_float r) (ev_RSSI e)), (''snr'', ev_SNR e = None, enc_opt (\<lambda>r. enc_float r) (ev_SNR e)),
      (''payload_hex'', ev_PayloadHex e = [], JStr (ev_PayloadHex e)), (''decoded'', ev_Decoded e = [], JStr (ev_Decoded e)),
      (''result'', ev_Result e = [], JStr (ev_Result e))]"

definition enc_event :: "event \<Rightarrow> json" where
  "enc_event e = JObj (struct_members (event_fields e))"

definition ws_message :: "event \<Rightarrow> string" where
  "ws_message e = json_print (JObj [(''type'', JStr ''event''), (''event'', enc_event e)])"

text \<open>An emitter changes the shared store and a state of its own.\<close>

type_synonym 'e emitter = "event \<Rightarrow> store \<times> 'e \<Rightarrow> store \<times> 'e"

definition Publish :: "publisher emitter" where
  "Publish e sp =
     (case sp of (st, p) \<Rightarrow>
      case events_Append e st of
        (r, st) \<Rightarrow>
          let e = (case r of Inl _ \<Rightarrow> e | Inr n \<Rightarrow> e\<lparr>ev_ID := n\<rparr>) in
          (st, p\<lparr>pb_metrics := record_event e (pb_metrics p), pb_hub := Broadcast (ws_message e) (pb_hub p)\<rparr>))"

section \<open>What a client gets\<close>

definition pending :: "nat \<Rightarrow> hub \<Rightarrow> string list" where
  "pending cl h = (case hb_clients h cl of None \<Rightarrow> [] | Some buf \<Rightarrow> buf)"

definition hub_inv :: "hub \<Rightarrow> bool" where
  "hub_inv h = (\<forall>cl buf. hb_clients h cl = Some buf \<longrightarrow> length buf \<le> sendBuffer)"

lemma hub_inv_NewHub [simp]: "hub_inv NewHub"
  by (simp add: hub_inv_def NewHub_def)

lemma hub_step_inv: "hub_inv h \<Longrightarrow> hub_inv (hub_step ev h)"
  by (cases ev)
    (fastforce simp: hub_inv_def hub_step_def hub_add_def hub_remove_def hub_pump_def Broadcast_def offer_def
      split: option.splits list.splits if_splits)+

lemma hub_run_inv: "hub_inv h \<Longrightarrow> hub_inv (hub_run evs h)"
  by (induction evs arbitrary: h) (simp_all add: hub_step_inv)

text \<open>What one client has been sent and still waits for grows only at its end, by the message broadcast.\<close>

lemma hub_step_client:
  "hb_sent (hub_step ev h) cl @ pending cl (hub_step ev h) = hb_sent h cl @ pending cl h \<or>
   (\<exists>msg. ev = Message msg \<and> hb_sent (hub_step ev h) cl @ pending cl (hub_step ev h) = hb_sent h cl @ pending cl h @ [msg]) \<or>
   hb_sent (hub_step ev h) cl @ pending cl (hub_step ev h) = hb_sent h cl"
  by (cases ev)
    (auto simp: hub_step_def hub_add_def hub_remove_def hub_pump_def Broadcast_def offer_def pending_def
      split: option.splits list.splits)

lemma messages_append [simp]: "messages (xs @ ys) = messages xs @ messages ys"
  by (induction xs rule: messages.induct) simp_all

lemma hub_run_append: "hub_run (xs @ ys) h = hub_run ys (hub_run xs h)"
  by (induction xs arbitrary: h) simp_all

lemma hub_run_subseq: "subseq (hb_sent (hub_run evs NewHub) cl @ pending cl (hub_run evs NewHub)) (messages evs)"
proof (induction evs rule: rev_induct)
  case Nil
  show ?case by (simp add: NewHub_def pending_def)
next
  case (snoc ev evs)
  let ?h = "hub_run evs NewHub"
  have old: "subseq (hb_sent ?h cl @ pending cl ?h) (messages (evs @ [ev]))"
    using list_emb_prefix [OF snoc] by simp
  have sent: "subseq (hb_sent ?h cl) (messages (evs @ [ev]))"
    by (rule subseq_order.order_trans [OF list_emb_prefix old]) simp
  from hub_step_client [of ev ?h cl] show ?case
  proof (elim disjE exE conjE)
    fix msg
    assume "ev = Message msg" and "hb_sent (hub_step ev ?h) cl @ pending cl (hub_step ev ?h) = hb_sent ?h cl @ pending cl ?h @ [msg]"
    moreover have "subseq ((hb_sent ?h cl @ pending cl ?h) @ [msg]) (messages evs @ [msg])"
      by (rule list_emb_append_mono [OF snoc]) simp
    ultimately show ?thesis by (simp add: hub_run_append)
  qed (use old sent in \<open>simp_all add: hub_run_append\<close>)
qed

section \<open>Properties\<close>

text \<open>C15: the live feed keeps order and stays bounded. In every run each client has been sent, and still
  waits for, messages that were broadcast, each at most once and in the order of the broadcasts; no
  client buffers more than 64, so that a slow client drops messages instead of holding the
  publisher up.\<close>

theorem feed_ordered_bounded:
  "subseq (hb_sent (hub_run evs NewHub) cl @ pending cl (hub_run evs NewHub)) (messages evs) \<and>
   length (pending cl (hub_run evs NewHub)) \<le> 64"
proof -
  have "length (pending cl (hub_run evs NewHub)) \<le> sendBuffer"
    using hub_run_inv [OF hub_inv_NewHub, of evs] by (auto simp: hub_inv_def pending_def split: option.splits)
  with hub_run_subseq show ?thesis by (simp add: sendBuffer_def)
qed

end
