(* ===== verification/Orchestrator.thy ===== *)
theory Orchestrator
  imports Client Hub
begin

text \<open>
  The scenario engine (\<open>internal/sim/orchestrator.go\<close>): it runs tags of the database in process, each
  over a connection to the gateway. Connections are numbered in the order they are dialled;
  \<open>or_open\<close> are those not closed yet. What the network does while a tag starts is a record \<open>net\<close>: the
  failure of the dial and of the writes, the envelopes that arrive during the join and whether the
  request's context ends before. The emitter is an argument: it has a state of its own (a field)
  and the store, which it shares with everything else.
\<close>

record running_tag =
  rt_client :: client
  rt_conn :: nat

record 'e orch =
  or_store :: store
  or_running :: "int \<rightharpoonup> running_tag"
  or_open :: "nat set"
  or_next :: nat
  or_emit :: 'e

record net =
  ne_dial :: "err option"
  ne_hello :: "(nat \<times> err) option"
  ne_join :: "(nat \<times> err) option"
  ne_envs :: "envelope list"
  ne_cancelled :: bool

definition orch_New :: "store \<Rightarrow> 'e \<Rightarrow> 'e orch" where
  "orch_New st e = \<lparr>or_store = st, or_running = Map.empty, or_open = {}, or_next = 0, or_emit = e\<rparr>"

definition zero_event :: event where
  "zero_event = \<lparr>ev_ID = 0, ev_TS = [], ev_TagID = None, ev_Direction = [], ev_Kind = [], ev_Freq = None, ev_DR = None,
     ev_FCnt = None, ev_FPort = None, ev_RSSI = None, ev_SNR = None, ev_PayloadHex = [], ev_Decoded = [], ev_Result = []\<rparr>"

definition join_event :: "int \<Rightarrow> string \<Rightarrow> string \<Rightarrow> event" where
  "join_event tagID result decoded =
     zero_event\<lparr>ev_TagID := Some tagID, ev_Direction := ''up'', ev_Kind := ''join'', ev_Result := result, ev_Decoded := decoded\<rparr>"

definition uplink_event :: "int \<Rightarrow> u32 \<Rightarrow> int \<Rightarrow> event" where
  "uplink_event tagID fcnt fport =
     zero_event\<lparr>ev_TagID := Some tagID, ev_Direction := ''up'', ev_Kind := ''data'', ev_FCnt := Some (uint fcnt),
       ev_FPort := Some fport\<rparr>"

text \<open>\<open>emitDownlink\<close>, the hook of every client.\<close>

definition downlink_event :: "int \<Rightarrow> downlink \<Rightarrow> event" where
  "downlink_event tagID dl =
     (let kind = (if dl_MACCommands dl \<noteq> [] then ''macdown'' else if dl_ACK dl \<and> dl_Payload dl = [] then ''ack'' else ''data'') in
      zero_event\<lparr>ev_TagID := Some tagID, ev_Direction := ''down'', ev_Kind := kind, ev_FCnt := Some (uint (dl_FCnt dl)),
        ev_FPort := Some (uint (dl_FPort dl)), ev_PayloadHex := hex_EncodeToString (dl_Payload dl)\<rparr>)"

definition emit_to :: "'e emitter \<Rightarrow> event \<Rightarrow> 'e orch \<Rightarrow> 'e orch" where
  "emit_to emit e s = (case emit e (or_store s, or_emit s) of (st, em) \<Rightarrow> s\<lparr>or_store := st, or_emit := em\<rparr>)"

definition close_conn :: "nat \<Rightarrow> 'e orch \<Rightarrow> 'e orch" where
  "close_conn k s = s\<lparr>or_open := or_open s - {k}\<rparr>"

section \<open>Starting a tag\<close>

definition is_running :: "int \<Rightarrow> 'e orch \<Rightarrow> bool" where
  "is_running tagID s = (or_running s tagID \<noteq> None)"

definition dial_tag :: "'e orch \<Rightarrow> nat \<times> 'e orch" where
  "dial_tag s = (or_next s, s\<lparr>or_next := or_next s + 1, or_open := insert (or_next s) (or_open s)\<rparr>)"

text \<open>The end of \<open>Start\<close>: the tag is entered as running, whatever has been entered meanwhile.\<close>

definition enter_running :: "int \<Rightarrow> client \<Rightarrow> nat \<Rightarrow> 'e orch \<Rightarrow> 'e orch" where
  "enter_running tagID c k s = s\<lparr>or_running := (or_running s)(tagID \<mapsto> \<lparr>rt_client = c, rt_conn = k\<rparr>)\<rparr>"

text \<open>The text of the event, put together without escaping.\<close>

definition joined_decoded :: "string \<Rightarrow> string" where
  "joined_decoded devAddr = ''{'' @ [CHR 0x22] @ ''dev_addr'' @ [CHR 0x22] @ '':'' @ [CHR 0x22] @ devAddr @ [CHR 0x22] @ ''}''"

text \<open>The join of a tag without a session: \<open>None\<close> while it waits for a join-accept.\<close>

definition start_join :: "aes_lib \<Rightarrow> lorawan \<Rightarrow> 'e emitter \<Rightarrow> net \<Rightarrow> int \<Rightarrow> client \<Rightarrow> nat \<Rightarrow> 'e orch \<Rightarrow>
    (client res \<times> 'e orch) option" where
  "start_join A L emit net tagID c k s =
     (case client_Join A L (ne_join net) (ne_envs net) (ne_cancelled net) c (or_store s) of
        (None, c, st) \<Rightarrow> None
      | (Some (Inl e), c, st) \<Rightarrow>
          Some (Inl (Wrap ''join'' e), emit_to emit (join_event tagID ''error'' []) (close_conn k (s\<lparr>or_store := st\<rparr>)))
      | (Some (Inr _), c, st) \<Rightarrow>
          (case sessions_Get tagID st of
             (Inr sess, st) \<Rightarrow>
               Some (Inr c, emit_to emit (join_event tagID ''success'' (joined_decoded (s_DevAddr sess))) (s\<lparr>or_store := st\<rparr>))
           | (Inl e, st) \<Rightarrow> Some (Inr c, s\<lparr>or_store := st\<rparr>)))"

text \<open>\<open>Start\<close> after its check that the tag is not running, which is under the lock, while this is not.\<close>

definition start_rest :: "aes_lib \<Rightarrow> lorawan \<Rightarrow> 'e emitter \<Rightarrow> net \<Rightarrow> int \<Rightarrow> 'e orch \<Rightarrow> (unit res \<times> 'e orch) option" where
  "start_rest A L emit net tagID s =
     (case tags_Get tagID (or_store s) of
        (Inl e, st) \<Rightarrow> Some (Inl e, s\<lparr>or_store := st\<rparr>)
      | (Inr tg, st) \<Rightarrow>
          let s = s\<lparr>or_store := st\<rparr> in
          case NewDevice tg of
            Inl e \<Rightarrow> Some (Inl e, s)
          | Inr dev \<Rightarrow>
              (case ne_dial net of
                 Some e \<Rightarrow> Some (Inl (Wrap ''dialing gateway'' e), s)
               | None \<Rightarrow>
                   (case dial_tag s of (k, s) \<Rightarrow>
                    case Hello (ne_hello net) (NewClient dev) of
                      (Inl e, c) \<Rightarrow> Some (Inl e, close_conn k s)
                    | (Inr _, c) \<Rightarrow>
                        (case sessions_Get tagID (or_store s) of
                           (Inl e, st) \<Rightarrow> Some (Inl e, close_conn k (s\<lparr>or_store := st\<rparr>))
                         | (Inr sess, st) \<Rightarrow>
                             let s = s\<lparr>or_store := st\<rparr> in
                             if s_Joined sess then Some (Inr (), enter_running tagID c k s)
                             else
                               (case start_join A L emit net tagID c k s of
                                  None \<Rightarrow> None
                                | Some (Inl e, s) \<Rightarrow> Some (Inl e, s)
                                | Some (Inr c, s) \<Rightarrow> Some (Inr (), enter_running tagID c k s))))))"

definition orch_Start :: "aes_lib \<Rightarrow> lorawan \<Rightarrow> 'e emitter \<Rightarrow> net \<Rightarrow> int \<Rightarrow> 'e orch \<Rightarrow> (unit res \<times> 'e orch) option" where
  "orch_Start A L emit net tagID s =
     (if is_running tagID s then Some (Inr (), s) else start_rest A L emit net tagID s)"

section \<open>Running tags\<close>

definition orch_Uplink :: "lorawan \<Rightarrow> go_math \<Rightarrow> 'e emitter \<Rightarrow> (nat \<times> err) option \<Rightarrow> int \<Rightarrow> bytes option \<Rightarrow> 'e orch \<Rightarrow>
    (unit, 'e orch) run" where
  "orch_Uplink L M emit w tagID override s =
     (case or_running s tagID of
        None \<Rightarrow> (Inl (Err ''tag is not running''), s)
      | Some rt \<Rightarrow>
          (case SendUplink L M w override (rt_client rt) (or_store s) of
             (r, c, st) \<Rightarrow>
               let s = s\<lparr>or_store := st, or_running := (or_running s)(tagID \<mapsto> rt\<lparr>rt_client := c\<rparr>)\<rparr> in
               case r of
                 Inl e \<Rightarrow> (Inl e, s)
               | Inr fcnt \<Rightarrow> (Inr (), emit_to emit (uplink_event tagID fcnt (client_FPort c)) s)))"

text \<open>An envelope that arrives for a running tag.\<close>

definition orch_receive :: "lorawan \<Rightarrow> 'e emitter \<Rightarrow> int \<Rightarrow> envelope \<Rightarrow> 'e orch \<Rightarrow> 'e orch" where
  "orch_receive L emit tagID env s =
     (case or_running s tagID of
        None \<Rightarrow> s
      | Some rt \<Rightarrow>
          (case client_dispatch L env (rt_client rt) (or_store s) of
             (h, c, st) \<Rightarrow>
               let s = s\<lparr>or_store := st, or_running := (or_running s)(tagID \<mapsto> rt\<lparr>rt_client := c\<rparr>)\<rparr> in
               case h of None \<Rightarrow> s | Some dl \<Rightarrow> emit_to emit (downlink_event tagID dl) s))"

text \<open>
  \<open>JoinAll\<close>, with the goroutines in the order they were started; each has its own network. \<open>None\<close> when
  one of them goes on waiting.
\<close>

fun join_all :: "aes_lib \<Rightarrow> lorawan \<Rightarrow> 'e emitter \<Rightarrow> (int \<Rightarrow> net) \<Rightarrow> tag list \<Rightarrow> 'e orch \<Rightarrow> ((nat \<times> nat) \<times> 'e orch) option" where
  "join_all A L emit nets [] s = Some ((0, 0), s)"
| "join_all A L emit nets (t # ts) s =
     (if \<not> t_Enabled t then join_all A L emit nets ts s
      else case orch_Start A L emit (nets (t_ID t)) (t_ID t) s of
        None \<Rightarrow> None
      | Some (r, s) \<Rightarrow>
          (case join_all A L emit nets ts s of
             None \<Rightarrow> None
           | Some ((started, errs), s) \<Rightarrow>
               Some (if is_ok r then (started + 1, errs) else (started, errs + 1), s)))"

definition orch_JoinAll :: "aes_lib \<Rightarrow> lorawan \<Rightarrow> 'e emitter \<Rightarrow> (int \<Rightarrow> net) \<Rightarrow> 'e orch \<Rightarrow> ((nat \<times> nat) \<times> 'e orch) option" where
  "orch_JoinAll A L emit nets s =
     (case tags_List (or_store s) of
        (Inl e, st) \<Rightarrow> Some ((0, 1), s\<lparr>or_store := st\<rparr>)
      | (Inr ts, st) \<Rightarrow> join_all A L emit nets ts (s\<lparr>or_store := st\<rparr>))"

definition orch_Running :: "'e orch \<Rightarrow> int set" where
  "orch_Running s = dom (or_running s)"

text \<open>
  \<open>Burst\<close> over the running tags in the order \<open>ids\<close> in which the map was iterated; the uplinks are
  taken one after the other, so that \<open>atOnce\<close>, which bounds those in flight, plays no part. Errors of
  single uplinks are dropped.
\<close>

fun burst_loop :: "lorawan \<Rightarrow> go_math \<Rightarrow> 'e emitter \<Rightarrow> int list \<Rightarrow> nat \<Rightarrow> nat \<Rightarrow> 'e orch \<Rightarrow> 'e orch" where
  "burst_loop L M emit ids i 0 s = s"
| "burst_loop L M emit ids i (Suc n) s =
     burst_loop L M emit ids (i + 1) n (snd (orch_Uplink L M emit None (ids ! (i mod length ids)) None s))"

definition orch_Burst :: "lorawan \<Rightarrow> go_math \<Rightarrow> 'e emitter \<Rightarrow> int list \<Rightarrow> int \<Rightarrow> 'e orch \<Rightarrow> (unit, 'e orch) run" where
  "orch_Burst L M emit ids count s =
     (if ids = [] then (Inl (Err ''no running tags''), s) else (Inr (), burst_loop L M emit ids 0 (nat count) s))"

definition orch_Stop :: "int \<Rightarrow> 'e orch \<Rightarrow> 'e orch" where
  "orch_Stop tagID s =
     (case or_running s tagID of
        None \<Rightarrow> s
      | Some rt \<Rightarrow> close_conn (rt_conn rt) (s\<lparr>or_running := (or_running s)(tagID := None)\<rparr>))"

definition orch_StopAll :: "'e orch \<Rightarrow> 'e orch" where
  "orch_StopAll s =
     s\<lparr>or_running := Map.empty, or_open := or_open s - rt_conn ` ran (or_running s)\<rparr>"

section \<open>What each operation does to the connections\<close>

lemma emit_to_frame [simp]:
  "or_running (emit_to emit e s) = or_running s"
  "or_open (emit_to emit e s) = or_open s" "or_next (emit_to emit e s) = or_next s"
  by (simp_all add: emit_to_def split: prod.splits)

lemma close_conn_frame [simp]:
  "or_store (close_conn k s) = or_store s" "or_running (close_conn k s) = or_running s"
  "or_open (close_conn k s) = or_open s - {k}" "or_next (close_conn k s) = or_next s"
  by (simp_all add: close_conn_def)

lemma enter_running_frame [simp]:
  "or_running (enter_running t c k s) = (or_running s)(t \<mapsto> \<lparr>rt_client = c, rt_conn = k\<rparr>)"
  "or_open (enter_running t c k s) = or_open s" "or_next (enter_running t c k s) = or_next s"
  by (simp_all add: enter_running_def)

lemma start_join_frame:
  assumes "start_join A L emit net t c k s = Some (r, s')"
  shows "or_running s' = or_running s \<and> or_next s' = or_next s \<and>
    or_open s' = (if is_ok r then or_open s else or_open s - {k})"
  using assms by (auto simp: start_join_def split: prod.splits option.splits sum.splits)

text \<open>A start that succeeds has one new connection, a start that fails has none.\<close>

lemma start_rest_frame:
  assumes "start_rest A L emit net t s = Some (r, s')" and "or_next s \<notin> or_open s"
  shows "if is_ok r
    then (\<exists>c. or_running s' = (or_running s)(t \<mapsto> \<lparr>rt_client = c, rt_conn = or_next s\<rparr>)) \<and>
      or_open s' = insert (or_next s) (or_open s) \<and> or_next s' = or_next s + 1
    else or_running s' = or_running s \<and> or_open s' = or_open s \<and> or_next s \<le> or_next s'"
proof -
  obtain rg st where g: "tags_Get t (or_store s) = (rg, st)" by fastforce
  show ?thesis
  proof (cases rg)
    case (Inl e)
    with assms(1) g show ?thesis by (auto simp: start_rest_def)
  next
    case (Inr tg)
    show ?thesis
    proof (cases "NewDevice tg")
      case (Inl e)
      with assms(1) g Inr show ?thesis by (auto simp: start_rest_def)
    next
      case (Inr dev)
      note dev = Inr
      show ?thesis
      proof (cases "ne_dial net")
        case (Some e)
        with assms(1) g \<open>rg = Inr tg\<close> dev show ?thesis by (auto simp: start_rest_def)
      next
        case None
        define s1 where "s1 = s\<lparr>or_store := st, or_next := or_next s + 1, or_open := insert (or_next s) (or_open s)\<rparr>"
        obtain rh c where h: "Hello (ne_hello net) (NewClient dev) = (rh, c)" by fastforce
        obtain rs st2 where ss: "sessions_Get t st = (rs, st2)" by fastforce
        have d: "dial_tag (s\<lparr>or_store := st\<rparr>) = (or_next s, s1)" by (simp add: dial_tag_def s1_def)
        have st1: "or_store s1 = st" by (simp add: s1_def)
        define s2 where "s2 = s1\<lparr>or_store := st2\<rparr>"
        have e: "start_rest A L emit net t s =
          (case rh of Inl e \<Rightarrow> Some (Inl e, close_conn (or_next s) s1)
           | Inr _ \<Rightarrow> (case rs of Inl e \<Rightarrow> Some (Inl e, close_conn (or_next s) s2)
             | Inr sess \<Rightarrow> if s_Joined sess then Some (Inr (), enter_running t c (or_next s) s2)
               else (case start_join A L emit net t c (or_next s) s2 of
                  None \<Rightarrow> None | Some (Inl e, s) \<Rightarrow> Some (Inl e, s)
                | Some (Inr c, s3) \<Rightarrow> Some (Inr (), enter_running t c (or_next s) s3))))"
          by (cases rh; cases rs) (simp_all add: start_rest_def g \<open>rg = Inr tg\<close> dev None d h st1 ss s2_def)
        have f: "or_running s2 = or_running s" "or_open s2 = insert (or_next s) (or_open s)" "or_next s2 = or_next s + 1"
          "or_running s1 = or_running s" "or_open s1 = insert (or_next s) (or_open s)" "or_next s1 = or_next s + 1"
          by (simp_all add: s2_def s1_def)
        have fresh: "insert (or_next s) (or_open s) - {or_next s} = or_open s" using assms(2) by simp
        have closed: ?thesis if "s' = close_conn (or_next s) s1 \<or> s' = close_conn (or_next s) s2" and "\<not> is_ok r"
          using that f fresh by auto
        have entered: ?thesis if "s' = enter_running t c' (or_next s) s3" and "is_ok r" and "or_running s3 = or_running s"
          "or_open s3 = insert (or_next s) (or_open s)" "or_next s3 = or_next s + 1" for c' s3
          using that by auto
        show ?thesis
        proof (cases rh)
          case (Inl x)
          with assms(1) e show ?thesis by (intro closed) auto
        next
          case rh: (Inr u)
          show ?thesis
          proof (cases rs)
            case (Inl x)
            with assms(1) e rh show ?thesis by (intro closed) auto
          next
            case (Inr sess)
            show ?thesis
            proof (cases "s_Joined sess")
              case True
              with assms(1) e rh Inr have "s' = enter_running t c (or_next s) s2" "is_ok r" by auto
              then show ?thesis using f by (intro entered)
            next
              case False
              with assms(1) e rh Inr obtain rj s3 where j: "start_join A L emit net t c (or_next s) s2 = Some (rj, s3)"
                by (auto split: option.splits)
              note sj = start_join_frame [OF j]
              show ?thesis
              proof (cases rj)
                case (Inl x)
                with assms(1) e rh \<open>rs = Inr sess\<close> False j have "s' = s3" "\<not> is_ok r" by auto
                with sj Inl f fresh show ?thesis by simp
              next
                case (Inr c')
                with assms(1) e rh \<open>rs = Inr sess\<close> False j have "s' = enter_running t c' (or_next s) s3" "is_ok r" by auto
                with sj Inr f show ?thesis by (intro entered [of c' s3]) simp_all
              qed
            qed
          qed
        qed
      qed
    qed
  qed
qed

text \<open>The open connections are those of the running tags, one each.\<close>

definition orch_inv :: "'e orch \<Rightarrow> bool" where
  "orch_inv s =
     (or_open s = rt_conn ` ran (or_running s) \<and> (\<forall>k \<in> or_open s. k < or_next s) \<and>
      (\<forall>t t' x x'. or_running s t = Some x \<longrightarrow> or_running s t' = Some x' \<longrightarrow> rt_conn x = rt_conn x' \<longrightarrow> t = t'))"

lemma orch_inv_fresh: "orch_inv s \<Longrightarrow> or_next s \<notin> or_open s"
  by (auto simp: orch_inv_def)

lemma orch_inv_New: "orch_inv (orch_New st e)"
  by (simp add: orch_inv_def orch_New_def)

lemma orch_Start_inv:
  assumes "orch_inv s" and "orch_Start A L emit net t s = Some (r, s')"
  shows "orch_inv s'"
proof (cases "is_running t s")
  case True
  with assms show ?thesis by (simp add: orch_Start_def)
next
  case False
  then have n: "or_running s t = None" by (simp add: is_running_def)
  from False assms(2) have "start_rest A L emit net t s = Some (r, s')" by (simp add: orch_Start_def)
  note f = start_rest_frame [OF this orch_inv_fresh [OF assms(1)]]
  show ?thesis
  proof (cases "is_ok r")
    case True
    with f obtain c where f: "or_running s' = (or_running s)(t \<mapsto> \<lparr>rt_client = c, rt_conn = or_next s\<rparr>)"
      "or_open s' = insert (or_next s) (or_open s)" "or_next s' = or_next s + 1" by auto
    have lt: "rt_conn x < or_next s" if "or_running s u = Some x" for u x
      using assms(1) that by (auto simp: orch_inv_def ran_def)
    show ?thesis
      using assms(1) n unfolding orch_inv_def f
      by (auto simp: less_Suc_eq dest: lt)
  next
    case False
    with f assms(1) show ?thesis by (fastforce simp: orch_inv_def)
  qed
qed

lemma img_ran_iff: "k \<in> f ` ran m \<longleftrightarrow> (\<exists>u z. m u = Some z \<and> f z = k)"
  by (auto simp: ran_def)

lemma img_ran_update:
  assumes "m t = Some x" and "f y = f x"
  shows "f ` ran (m(t \<mapsto> y)) = f ` ran m"
proof (rule set_eqI)
  fix k
  have "(\<exists>u z. (m(t \<mapsto> y)) u = Some z \<and> f z = k) \<longleftrightarrow> (\<exists>u z. m u = Some z \<and> f z = k)"
    using assms by (metis fun_upd_apply option.inject)
  then show "k \<in> f ` ran (m(t \<mapsto> y)) \<longleftrightarrow> k \<in> f ` ran m" by (simp only: img_ran_iff)
qed

lemma img_ran_delete:
  assumes "m t = Some x" and "\<And>u z. m u = Some z \<Longrightarrow> f z = f x \<Longrightarrow> u = t"
  shows "f ` ran (m(t := None)) = f ` ran m - {f x}"
proof (rule set_eqI)
  fix k
  have "(\<exists>u z. (m(t := None)) u = Some z \<and> f z = k) \<longleftrightarrow> (\<exists>u z. m u = Some z \<and> f z = k) \<and> k \<noteq> f x"
    using assms by (metis fun_upd_apply option.distinct(1) option.inject)
  then show "k \<in> f ` ran (m(t := None)) \<longleftrightarrow> k \<in> f ` ran m - {f x}" by (simp only: img_ran_iff Diff_iff singleton_iff)
qed

lemma orch_inv_one: "orch_inv s \<Longrightarrow> or_running s a = Some u \<Longrightarrow> or_running s b = Some v \<Longrightarrow> rt_conn u = rt_conn v \<Longrightarrow> a = b"
  unfolding orch_inv_def by blast

lemma orch_update_client_inv:
  assumes "orch_inv s" and "or_running s t = Some x" and "rt_conn y = rt_conn x"
  shows "orch_inv (s\<lparr>or_store := st, or_running := (or_running s)(t \<mapsto> y)\<rparr>)"
proof -
  have "rt_conn ` ran ((or_running s)(t \<mapsto> y)) = rt_conn ` ran (or_running s)"
    by (rule img_ran_update [of "or_running s" t x rt_conn y, OF assms(2,3)])
  moreover have "a = b" if "((or_running s)(t \<mapsto> y)) a = Some u" "((or_running s)(t \<mapsto> y)) b = Some v" "rt_conn u = rt_conn v" for a b u v
  proof -
    have "\<exists>u'. or_running s a = Some u' \<and> rt_conn u' = rt_conn u"
      using that(1) assms(2,3) by (cases "a = t") auto
    moreover have "\<exists>v'. or_running s b = Some v' \<and> rt_conn v' = rt_conn v"
      using that(2) assms(2,3) by (cases "b = t") auto
    ultimately show ?thesis using orch_inv_one [OF assms(1)] that(3) by metis
  qed
  moreover have "or_open s = rt_conn ` ran (or_running s)" "\<forall>k \<in> or_open s. k < or_next s"
    using assms(1) by (simp_all add: orch_inv_def)
  ultimately show ?thesis unfolding orch_inv_def by (intro conjI allI impI) (simp_all del: fun_upd_apply)
qed

lemma orch_emit_inv: "orch_inv (emit_to emit e s) = orch_inv s"
  by (simp add: orch_inv_def)

lemma orch_Uplink_inv: "orch_inv s \<Longrightarrow> orch_inv (snd (orch_Uplink L M emit w t override s))"
  by (auto simp: orch_Uplink_def orch_emit_inv orch_update_client_inv Let_def split: option.splits prod.splits sum.splits)

lemma orch_receive_inv: "orch_inv s \<Longrightarrow> orch_inv (orch_receive L emit t env s)"
  by (auto simp: orch_receive_def orch_emit_inv orch_update_client_inv Let_def split: option.splits prod.splits)

lemma orch_Stop_inv:
  assumes "orch_inv s"
  shows "orch_inv (orch_Stop t s)"
proof (cases "or_running s t")
  case None
  with assms show ?thesis by (simp add: orch_Stop_def)
next
  case (Some x)
  have "rt_conn ` ran ((or_running s)(t := None)) = rt_conn ` ran (or_running s) - {rt_conn x}"
    by (rule img_ran_delete [of "or_running s" t x rt_conn, OF Some]) (use assms Some in \<open>auto simp: orch_inv_def\<close>)
  with assms Some show ?thesis by (auto simp: orch_Stop_def orch_inv_def split: if_splits)
qed

lemma orch_StopAll_inv: "orch_inv s \<Longrightarrow> orch_inv (orch_StopAll s) \<and> or_open (orch_StopAll s) = {}"
  by (simp add: orch_StopAll_def orch_inv_def)

section \<open>Runs\<close>

datatype orch_op =
    Start net int
  | Uplink "(nat \<times> err) option" int "bytes option"
  | Receive int envelope
  | Stop int
  | StopAll

text \<open>A start that waits for its join-accept is not a step yet.\<close>

definition orch_exec :: "aes_lib \<Rightarrow> lorawan \<Rightarrow> go_math \<Rightarrow> 'e emitter \<Rightarrow> orch_op \<Rightarrow> 'e orch \<Rightarrow> 'e orch option" where
  "orch_exec A L M emit op s =
     (case op of
        Start net t \<Rightarrow> map_option snd (orch_Start A L emit net t s)
      | Uplink w t override \<Rightarrow> Some (snd (orch_Uplink L M emit w t override s))
      | Receive t env \<Rightarrow> Some (orch_receive L emit t env s)
      | Stop t \<Rightarrow> Some (orch_Stop t s)
      | StopAll \<Rightarrow> Some (orch_StopAll s))"

inductive orch_reachable :: "aes_lib \<Rightarrow> lorawan \<Rightarrow> go_math \<Rightarrow> 'e emitter \<Rightarrow> 'e orch \<Rightarrow> bool"
  for A :: aes_lib and L :: lorawan and M :: go_math and emit :: "'e emitter" where
  init: "orch_reachable A L M emit (orch_New st e)"
| step: "orch_reachable A L M emit s \<Longrightarrow> orch_exec A L M emit op s = Some s' \<Longrightarrow> orch_reachable A L M emit s'"

lemma orch_exec_inv: "orch_inv s \<Longrightarrow> orch_exec A L M emit op s = Some s' \<Longrightarrow> orch_inv s'"
  by (cases op)
    (auto simp: orch_exec_def orch_Uplink_inv orch_receive_inv orch_Stop_inv orch_StopAll_inv intro: orch_Start_inv)

lemma orch_reachable_inv: "orch_reachable A L M emit s \<Longrightarrow> orch_inv s"
  by (induction rule: orch_reachable.induct) (auto intro: orch_inv_New orch_exec_inv)

lemma join_all_counts:
  "join_all A L emit nets ts s = Some ((started, errs), s') \<Longrightarrow> started + errs = length (filter t_Enabled ts)"
  by (induction ts arbitrary: s started errs) (auto split: if_splits option.splits)

section \<open>Instances\<close>

text \<open>An emitter that only collects the events.\<close>

definition log_event :: "event list emitter" where
  "log_event e sp = (fst sp, e # snd sp)"

text \<open>A store with one tag, whose session is joined if \<open>j\<close>.\<close>

definition fleet_store :: "bool \<Rightarrow> store" where
  "fleet_store j =
     (let st = insert_tag example_new_tag (nt_AppKey example_new_tag) (store_New NewInsecureDisabled) in
      if j then upd_session 1 (joined_row (example_join\<lparr>js_NwkSKey := [], js_AppSKey := []\<rparr>) [] [] []) st else st)"

definition quiet_net :: net where
  "quiet_net = \<lparr>ne_dial = None, ne_hello = None, ne_join = None, ne_envs = [], ne_cancelled = True\<rparr>"

lemma fleet_store:
  assumes "db_up ((fleet_store True)\<lparr>db_faults := fs\<rparr>)"
  obtains tg dev sess st1 fs' where "tags_Get 1 ((fleet_store True)\<lparr>db_faults := fs\<rparr>) = (Inr tg, st1)" "NewDevice tg = Inr dev"
    "sessions_Get 1 st1 = (Inr sess, (fleet_store True)\<lparr>db_faults := fs'\<rparr>)" "s_Joined sess"
    "db_up ((fleet_store True)\<lparr>db_faults := fs'\<rparr>)"
proof -
  let ?st = "\<lambda>fs. (fleet_store True)\<lparr>db_faults := fs\<rparr>"
  let ?row = "tag_row_of 1 example_new_tag (nt_AppKey example_new_tag) []"
  have f: "find_tag 1 (?st fs) = Some ?row"
    by (simp add: fleet_store_def Let_def find_tag_def insert_tag_def store_New_def upd_session_def tag_row_of_def)
  have c: "st_cipher (?st fs) = NewInsecureDisabled"
    by (simp add: fleet_store_def Let_def insert_tag_def store_New_def upd_session_def)
  have dec: "Decrypt NewInsecureDisabled (nt_AppKey example_new_tag) d = Inr (nt_AppKey example_new_tag)" for d
    by (simp add: Decrypt_def NewInsecureDisabled_def example_new_tag_def secret_prefix_def)
  have dec': "Decrypt NewInsecureDisabled ''000102030405060708090a0b0c0d0e0f'' d = Inr ''000102030405060708090a0b0c0d0e0f''" for d
    using dec [of d] by (simp add: example_new_tag_def)
  obtain tg where tg: "scanTag NewInsecureDisabled ?row = Inr tg"
    and t: "t_DevEUI tg = nt_DevEUI example_new_tag" "t_JoinEUI tg = nt_JoinEUI example_new_tag"
      "t_AppKey tg = nt_AppKey example_new_tag" "t_PayloadType tg = ''counter''" "t_PayloadConfig tg = []"
  proof -
    have "t_DevEUI tg = nt_DevEUI example_new_tag \<and> t_JoinEUI tg = nt_JoinEUI example_new_tag \<and>
        t_AppKey tg = nt_AppKey example_new_tag \<and> t_PayloadType tg = ''counter'' \<and> t_PayloadConfig tg = []"
      if "scanTag NewInsecureDisabled ?row = Inr tg" for tg
      using that by (auto simp: scanTag_def tag_row_of_def dec' nullable_def null_string_def example_new_tag_def res_simps)
    moreover have "is_ok (scanTag NewInsecureDisabled ?row)"
      by (simp add: scanTag_def) (simp add: tag_row_of_def dec)
    ultimately show thesis using that by (auto simp: is_ok_iff)
  qed
  obtain gs where g: "tags_Get 1 (?st fs) = (Inr tg, ?st gs)" and up1: "db_up (?st gs)"
    using tags_Get_up_row [OF assms f] tg c by auto
  have "is_ok (NewDevice tg)"
    by (simp add: NewDevice_def t example_new_tag_def parseEUI64_def parseAES128_def parse_fixed_def hex_val_def
        NewGenerator_def gen_members_def gen_field_def json_parse_def members_def is_ws_def numeral_eq_Suc)
  then obtain dev where d: "NewDevice tg = Inr dev" by (auto simp: is_ok_iff)
  let ?js = "example_join\<lparr>js_NwkSKey := [], js_AppSKey := []\<rparr>"
  have dn: "Decrypt NewInsecureDisabled [] x = Inr []" for x
    by (simp add: Decrypt_def NewInsecureDisabled_def secret_prefix_def)
  have fsn: "find_session 1 (fleet_store True) = Some (joined_row ?js [] [] [] (session_row_of 1 []))"
    by (simp add: fleet_store_def Let_def find_session_upd, simp add: find_session_def insert_tag_def store_New_def session_row_of_def)
  have sc: "scan_session NewInsecureDisabled (joined_row ?js [] [] [] (session_row_of 1 [])) =
      Inr (session_of_join (sr_tag_id (session_row_of 1 [])) ?js 0)"
    by (intro scan_joined_row) (simp_all add: dn example_session)
  have ci: "st_cipher (fleet_store True) = NewInsecureDisabled" using c by simp
  have "\<exists>hs. sessions_Get 1 (?st gs) = (Inr (session_of_join (sr_tag_id (session_row_of 1 [])) ?js 0), ?st hs) \<and> db_up (?st hs)"
    unfolding sessions_Get_def by (rule seq_wrap_up [OF up1]) (auto simp: fsn sc ci)
  with g d that show thesis by (auto simp: session_of_join_def)
qed

lemma fleet_store_up: "db_up ((fleet_store True)\<lparr>db_faults := []\<rparr>)" "(fleet_store True)\<lparr>db_faults := []\<rparr> = fleet_store True"
  by (simp_all add: fleet_store_def Let_def insert_tag_def store_New_def db_up_def upd_session_def)

lemma fleet_start:
  assumes "db_up ((fleet_store True)\<lparr>db_faults := fs\<rparr>)" and "or_store s = (fleet_store True)\<lparr>db_faults := fs\<rparr>"
  obtains s' fs' where "start_rest toy_aes toy_lorawan emit quiet_net 1 s = Some (Inr (), s')" "is_running 1 s'"
    "or_store s' = (fleet_store True)\<lparr>db_faults := fs'\<rparr>" "db_up ((fleet_store True)\<lparr>db_faults := fs'\<rparr>)"
proof -
  obtain tg dev sess st1 fs' where f: "tags_Get 1 ((fleet_store True)\<lparr>db_faults := fs\<rparr>) = (Inr tg, st1)" "NewDevice tg = Inr dev"
    "sessions_Get 1 st1 = (Inr sess, (fleet_store True)\<lparr>db_faults := fs'\<rparr>)" "s_Joined sess"
    "db_up ((fleet_store True)\<lparr>db_faults := fs'\<rparr>)" by (rule fleet_store [OF assms(1)])
  have "\<exists>s'. start_rest toy_aes toy_lorawan emit quiet_net 1 s = Some (Inr (), s') \<and> is_running 1 s' \<and>
      or_store s' = (fleet_store True)\<lparr>db_faults := fs'\<rparr>"
    by (simp add: start_rest_def assms(2) f quiet_net_def dial_tag_def Hello_def is_running_def enter_running_def)
  with f(5) that show thesis by blast
qed

section \<open>Properties\<close>

text \<open>C33: a tag that has joined in an earlier run can be started but not used. \<open>Start\<close> returns without error
  and the tag counts as running, because its session is joined; but the client in it does not know,
  so every uplink is refused with the error for a tag that has not joined, and no downlink is ever
  reported.\<close>

theorem restart_cannot_send:
  assumes "\<not> is_running t s" and "tags_Get t (or_store s) = (Inr tg, st1)" and "NewDevice tg = Inr dev"
    and "sessions_Get t st1 = (Inr sess, st2)" and "s_Joined sess" and "ne_dial net = None" and "ne_hello net = None"
  shows "\<exists>s'. orch_Start A L emit net t s = Some (Inr (), s') \<and> is_running t s' \<and>
     (\<forall>M w override. orch_Uplink L M emit w t override s' = (Inl (Err ''cannot send uplink before join''), s')) \<and>
     (\<forall>env. or_emit (orch_receive L emit t env s') = or_emit s')"
proof -
  obtain c where h: "Hello None (NewClient dev) = (Inr (), c)" and c: "\<not> cl_joined c"
    by (simp add: Hello_def NewClient_def)
  define s' where "s' = enter_running t c (or_next s) (s\<lparr>or_next := or_next s + 1, or_open := insert (or_next s) (or_open s), or_store := st2\<rparr>)"
  have st: "orch_Start A L emit net t s = Some (Inr (), s')"
    using assms by (simp add: orch_Start_def start_rest_def h dial_tag_def s'_def)
  have r: "or_running s' t = Some \<lparr>rt_client = c, rt_conn = or_next s\<rparr>" by (simp add: s'_def)
  then have run: "is_running t s'" by (simp add: is_running_def)
  have "(or_running s')(t \<mapsto> \<lparr>rt_client = c, rt_conn = or_next s\<rparr>) = or_running s'" using r by auto
  then have "orch_Uplink L M emit w t override s' = (Inl (Err ''cannot send uplink before join''), s')" for M w override
    using r c by (simp add: orch_Uplink_def SendUplink_def)
  moreover have "or_emit (orch_receive L emit t env s') = or_emit s'" for env
  proof -
    obtain x c' st' where d: "client_dispatch L env c (or_store s') = (x, c', st')" by (rule prod_cases3)
    then have "x = None" using c by (auto simp: client_dispatch_def split: if_splits sum.splits)
    with d r show ?thesis by (simp add: orch_receive_def)
  qed
  ultimately show ?thesis using st run by blast
qed

theorem restart_cannot_send_witness:
  "\<exists>s'. orch_Start toy_aes toy_lorawan log_event quiet_net 1 (orch_New (fleet_store True) []) = Some (Inr (), s') \<and>
     orch_Uplink toy_lorawan toy_math log_event None 1 (Some [42]) s' = (Inl (Err ''cannot send uplink before join''), s')"
proof -
  obtain tg dev sess st1 st2 where f: "tags_Get 1 (fleet_store True) = (Inr tg, st1)" "NewDevice tg = Inr dev"
    "sessions_Get 1 st1 = (Inr sess, st2)" "s_Joined sess"
    by (rule fleet_store [OF fleet_store_up(1), unfolded fleet_store_up(2)])
  let ?s = "orch_New (fleet_store True) []"
  have n: "\<not> is_running 1 ?s" "ne_dial quiet_net = None" "ne_hello quiet_net = None"
    by (simp_all add: is_running_def orch_New_def quiet_net_def)
  have g: "tags_Get 1 (or_store ?s) = (Inr tg, st1)" using f(1) by (simp add: orch_New_def)
  from restart_cannot_send [OF n(1) g f(2-4) n(2,3), of toy_aes toy_lorawan "log_event"] show ?thesis by blast
qed

text \<open>The orchestrator keeps its connections in order as long as starts do not overlap. In every state
  reached by whole operations the open connections are exactly those of the running tags, and no
  two tags share one; so stopping everything leaves no connection open.\<close>

theorem orch_no_leak:
  assumes "orch_reachable A L M emit s"
  shows "or_open s = rt_conn ` ran (or_running s) \<and> or_open (orch_StopAll s) = {} \<and>
    (\<forall>t t' x x'. or_running s t = Some x \<longrightarrow> or_running s t' = Some x' \<longrightarrow> rt_conn x = rt_conn x' \<longrightarrow> t = t')"
  using orch_StopAll_inv [OF orch_reachable_inv [OF assms]] orch_reachable_inv [OF assms] orch_inv_one
  by (simp add: orch_inv_def [of s])

theorem orch_no_leak_witness:
  "\<exists>s. orch_reachable toy_aes toy_lorawan toy_math log_event (s :: event list orch) \<and> is_running 1 s \<and> or_open (orch_StopAll s) = {}"
proof -
  let ?s = "orch_New (fleet_store True) [] :: event list orch"
  have st: "or_store ?s = (fleet_store True)\<lparr>db_faults := []\<rparr>" by (simp add: orch_New_def fleet_store_up(2))
  obtain s' where s': "start_rest toy_aes toy_lorawan log_event quiet_net 1 ?s = Some (Inr (), s')" "is_running 1 s'"
    by (rule fleet_start [OF fleet_store_up(1) st])
  have "\<not> is_running 1 ?s" by (simp add: is_running_def orch_New_def)
  then have "orch_exec toy_aes toy_lorawan toy_math log_event (Start quiet_net 1) ?s = Some s'"
    by (simp add: orch_exec_def orch_Start_def s'(1))
  then have "orch_reachable toy_aes toy_lorawan toy_math log_event s'"
    by (rule orch_reachable.step [OF orch_reachable.init])
  with orch_no_leak [OF this] s'(2) show ?thesis by blast
qed

text \<open>C37: two starts of one tag at the same time leak a connection. Both pass the check before either has
  entered the tag, both succeed, and the second entry replaces the first; stopping the tag closes
  one connection, and the other stays open with nothing that refers to it.\<close>

theorem start_race_leaks:
  assumes "orch_inv s" and "\<not> is_running t s"
    and "start_rest A L emit net1 t s = Some (Inr (), s1)" and "start_rest A L emit net2 t s1 = Some (Inr (), s2)"
  shows "or_next s \<in> or_open (orch_Stop t s2) \<and> \<not> is_running t (orch_Stop t s2) \<and>
    or_next s \<notin> rt_conn ` ran (or_running (orch_Stop t s2))"
proof -
  let ?k = "or_next s"
  have fresh: "?k \<notin> or_open s" by (rule orch_inv_fresh [OF assms(1)])
  obtain c1 where f1: "or_running s1 = (or_running s)(t \<mapsto> \<lparr>rt_client = c1, rt_conn = ?k\<rparr>)"
    "or_open s1 = insert ?k (or_open s)" "or_next s1 = ?k + 1"
    using start_rest_frame [OF assms(3) fresh] by auto
  have "\<forall>j \<in> or_open s. j < ?k" using assms(1) by (simp add: orch_inv_def)
  then have "?k + 1 \<notin> or_open s" by fastforce
  then have fresh1: "or_next s1 \<notin> or_open s1" by (simp add: f1)
  obtain c2 where f2: "or_running s2 = (or_running s1)(t \<mapsto> \<lparr>rt_client = c2, rt_conn = ?k + 1\<rparr>)"
    "or_open s2 = insert (?k + 1) (or_open s1)"
    using start_rest_frame [OF assms(4) fresh1] f1(3) by auto
  have stop: "or_open (orch_Stop t s2) = or_open s2 - {?k + 1}" "or_running (orch_Stop t s2) = (or_running s2)(t := None)"
    by (simp_all add: orch_Stop_def f2)
  have "or_running (orch_Stop t s2) = or_running s"
    using assms(2) by (auto simp: stop f2 f1 is_running_def)
  then show ?thesis
    using assms(1,2) fresh by (simp add: stop(1) f1 f2 is_running_def orch_inv_def)
qed

theorem start_race_leaks_witness:
  "\<exists>s1 s2. start_rest toy_aes toy_lorawan log_event quiet_net 1 (orch_New (fleet_store True) []) = Some (Inr (), s1) \<and>
     start_rest toy_aes toy_lorawan log_event quiet_net 1 s1 = Some (Inr (), s2) \<and> 0 \<in> or_open (orch_Stop 1 s2)"
proof -
  let ?s = "orch_New (fleet_store True) [] :: event list orch"
  have st: "or_store ?s = (fleet_store True)\<lparr>db_faults := []\<rparr>" by (simp add: orch_New_def fleet_store_up(2))
  obtain s1 fs1 where s1: "start_rest toy_aes toy_lorawan log_event quiet_net 1 ?s = Some (Inr (), s1)"
    "or_store s1 = (fleet_store True)\<lparr>db_faults := fs1\<rparr>" "db_up ((fleet_store True)\<lparr>db_faults := fs1\<rparr>)"
    by (rule fleet_start [OF fleet_store_up(1) st])
  obtain s2 where s2: "start_rest toy_aes toy_lorawan log_event quiet_net 1 s1 = Some (Inr (), s2)"
    by (rule fleet_start [OF s1(3,2)])
  have n: "\<not> is_running 1 ?s" "or_next ?s = 0" by (simp_all add: is_running_def orch_New_def)
  from start_race_leaks [OF orch_inv_New n(1) s1(1) s2] s1(1) s2 n(2) show ?thesis by auto
qed

text \<open>\<open>JoinAll\<close> accounts for every tag: when all joins have ended, started and failed tags add up to the
  enabled tags of the listing, and tags that are not enabled are not touched.\<close>

lemma join_all_accounts:
  assumes "tags_List (or_store s) = (Inr ts, st)" and "orch_JoinAll A L emit nets s = Some ((started, errs), s')"
  shows "started + errs = length (filter t_Enabled ts) \<and>
    (filter t_Enabled ts = [] \<longrightarrow> or_running s' = or_running s \<and> or_open s' = or_open s)"
proof -
  have j: "join_all A L emit nets ts (s\<lparr>or_store := st\<rparr>) = Some ((started, errs), s')"
    using assms by (simp add: orch_JoinAll_def)
  have "join_all A L emit nets ts s0 = Some ((0, 0), s0)" if "filter t_Enabled ts = []" for s0
    using that by (induction ts) (auto split: if_splits)
  with join_all_counts [OF j] j show ?thesis by auto
qed

end
