(* ===== verification/Api.thy ===== *)
theory Api
  imports Orchestrator Gateway GatewayRepo
begin

text \<open>
  The REST handlers (\<open>internal/api/tags.go\<close>, \<open>handlers_misc.go\<close>, \<open>server.go\<close>, \<open>health.go\<close>). A handler takes
  the decoded parts of its request (path and query parameters, the body's bytes) and the state of
  the API, and gives a response and the new state. The body of an error response is kept as the
  error whose text it is. When the gateway runs, the store is the one of the orchestrator; the hub and
  the gateway, which the handlers only read, are there as they are when the request is served.
\<close>

datatype body =
    NoBody
  | Body json
  | Message string
  | ErrorText err

record response =
  rs_status :: nat
  rs_body :: body

definition StatusOK :: nat where "StatusOK = 200"
definition StatusCreated :: nat where "StatusCreated = 201"
definition StatusNoContent :: nat where "StatusNoContent = 204"
definition StatusBadRequest :: nat where "StatusBadRequest = 400"
definition StatusNotFound :: nat where "StatusNotFound = 404"
definition StatusInternalServerError :: nat where "StatusInternalServerError = 500"
definition StatusBadGateway :: nat where "StatusBadGateway = 502"
definition StatusServiceUnavailable :: nat where "StatusServiceUnavailable = 503"

definition respond :: "nat \<Rightarrow> body \<Rightarrow> response" where
  "respond status b = \<lparr>rs_status = status, rs_body = b\<rparr>"

record 'e api =
  ap_store :: store
  ap_orch :: "'e orch option"
  ap_gw :: "(string \<times> gateway) option"
  ap_hub :: hub
  ap_version :: string
  ap_eui :: string

definition NewAPI :: "store \<Rightarrow> hub \<Rightarrow> 'e orch option \<Rightarrow> (string \<times> gateway) option \<Rightarrow> string \<Rightarrow> string \<Rightarrow> 'e api" where
  "NewAPI st hub orch gw ver eui =
     \<lparr>ap_store = st, ap_orch = orch, ap_gw = gw, ap_hub = hub, ap_version = ver, ap_eui = eui\<rparr>"

definition the_store :: "'e api \<Rightarrow> store" where
  "the_store a = (case ap_orch a of None \<Rightarrow> ap_store a | Some s \<Rightarrow> or_store s)"

definition with_store :: "store \<Rightarrow> 'e api \<Rightarrow> 'e api" where
  "with_store st a =
     (case ap_orch a of None \<Rightarrow> a\<lparr>ap_store := st\<rparr> | Some s \<Rightarrow> a\<lparr>ap_orch := Some (s\<lparr>or_store := st\<rparr>)\<rparr>)"

text \<open>\<open>decodeJSON\<close>: the first value of the body, an object without unknown fields.\<close>

definition decodeJSON :: "string list \<Rightarrow> (json \<Rightarrow> 'a res) \<Rightarrow> string \<Rightarrow> 'a res" where
  "decodeJSON names dec s =
     (if skip_ws s = [] then Inl EOF
      else case parse_value (2 * length s + 2) s of
        None \<Rightarrow> Inl (Err ''invalid JSON'')
      | Some (j, r) \<Rightarrow>
          bindE (members j) (\<lambda>kvs.
          if list_all (\<lambda>(k, v). list_ex (\<lambda>f. key_matches f k) names) kvs then dec j
          else Inl (Err ''json: unknown field'')))"

definition dec_opt_bool :: "bool option dec" where
  "dec_opt_bool j cur = (case j of JBool b \<Rightarrow> Inr (Some b) | JNull \<Rightarrow> Inr None | _ \<Rightarrow> Inl type_error)"

definition healthz :: "'e api \<Rightarrow> response" where
  "healthz a = respond StatusOK (Body (JObj [(''status'', JStr ''ok''), (''version'', JStr (ap_version a)), (''eui'', JStr (ap_eui a))]))"

section \<open>Tags\<close>

record session_dto =
  sd_Joined :: bool
  sd_DevAddr :: string
  sd_FCntUp :: u32
  sd_FCntDown :: u32
  sd_DevNonce :: u16

record tag_dto =
  td_ID :: int
  td_DevEUI :: string
  td_JoinEUI :: string
  td_AppKeyMasked :: string
  td_Class :: string
  td_Region :: string
  td_SubBand :: int
  td_DefaultDR :: int
  td_FPort :: int
  td_PayloadType :: string
  td_PayloadConfig :: string
  td_Enabled :: bool
  td_Running :: bool
  td_CreatedAt :: string
  td_UpdatedAt :: string
  td_Session :: "session_dto option"

definition enc_session_dto :: "session_dto \<Rightarrow> json" where
  "enc_session_dto s = JObj (struct_members
     [(''joined'', False, JBool (sd_Joined s)), (''dev_addr'', sd_DevAddr s = [], JStr (sd_DevAddr s)),
      (''fcnt_up'', False, enc_word (sd_FCntUp s)), (''fcnt_down'', False, enc_word (sd_FCntDown s)),
      (''dev_nonce'', False, enc_word (sd_DevNonce s))])"

definition enc_tag_dto :: "tag_dto \<Rightarrow> json" where
  "enc_tag_dto t = JObj (struct_members
     [(''id'', False, enc_int (td_ID t)), (''dev_eui'', False, JStr (td_DevEUI t)), (''join_eui'', False, JStr (td_JoinEUI t)),
      (''app_key_masked'', False, JStr (td_AppKeyMasked t)), (''class'', False, JStr (td_Class t)),
      (''region'', False, JStr (td_Region t)), (''sub_band'', False, enc_int (td_SubBand t)),
      (''default_dr'', False, enc_int (td_DefaultDR t)), (''fport'', False, enc_int (td_FPort t)),
      (''payload_type'', False, JStr (td_PayloadType t)),
      (''payload_config'', td_PayloadConfig t = [], JStr (td_PayloadConfig t)), (''enabled'', False, JBool (td_Enabled t)),
      (''running'', False, JBool (td_Running t)), (''created_at'', False, JStr (td_CreatedAt t)),
      (''updated_at'', False, JStr (td_UpdatedAt t)),
      (''session'', td_Session t = None, enc_opt enc_session_dto (td_Session t))])"

definition maskKey :: "string \<Rightarrow> string" where
  "maskKey k = (if length k \<le> 4 then ''****'' else ''****'' @ drop (length k - 4) k)"

definition toTagDTO :: "int set \<Rightarrow> tag \<Rightarrow> tag_dto" where
  "toTagDTO running t =
     \<lparr>td_ID = t_ID t, td_DevEUI = t_DevEUI t, td_JoinEUI = t_JoinEUI t, td_AppKeyMasked = maskKey (t_AppKey t),
      td_Class = t_Class t, td_Region = t_Region t, td_SubBand = t_SubBand t, td_DefaultDR = t_DefaultDR t,
      td_FPort = t_FPort t, td_PayloadType = t_PayloadType t, td_PayloadConfig = t_PayloadConfig t,
      td_Enabled = t_Enabled t, td_Running = (t_ID t \<in> running), td_CreatedAt = t_CreatedAt t,
      td_UpdatedAt = t_UpdatedAt t, td_Session = None\<rparr>"

definition runningSet :: "'e api \<Rightarrow> int set" where
  "runningSet a = (case ap_orch a of None \<Rightarrow> {} | Some s \<Rightarrow> orch_Running s)"

definition session_dto_of :: "session \<Rightarrow> session_dto" where
  "session_dto_of s = \<lparr>sd_Joined = s_Joined s, sd_DevAddr = s_DevAddr s, sd_FCntUp = s_FCntUp s,
     sd_FCntDown = s_FCntDown s, sd_DevNonce = s_DevNonce s\<rparr>"

text \<open>A tag with its session; a session that cannot be read is left out.\<close>

definition dto_with_session :: "int set \<Rightarrow> int \<Rightarrow> tag \<Rightarrow> store \<Rightarrow> tag_dto \<times> store" where
  "dto_with_session running tid t st =
     (case sessions_Get tid st of
        (Inr s, st) \<Rightarrow> ((toTagDTO running t)\<lparr>td_Session := Some (session_dto_of s)\<rparr>, st)
      | (Inl _, st) \<Rightarrow> (toTagDTO running t, st))"

fun list_dtos :: "int set \<Rightarrow> tag list \<Rightarrow> store \<Rightarrow> tag_dto list \<times> store" where
  "list_dtos running [] st = ([], st)"
| "list_dtos running (t # ts) st =
     (case dto_with_session running (t_ID t) t st of (d, st) \<Rightarrow>
        case list_dtos running ts st of (ds, st) \<Rightarrow> (d # ds, st))"

definition listTags :: "'e api \<Rightarrow> response \<times> 'e api" where
  "listTags a =
     (case tags_List (the_store a) of
        (Inl e, st) \<Rightarrow> (respond StatusInternalServerError (ErrorText e), with_store st a)
      | (Inr ts, st) \<Rightarrow>
          (case list_dtos (runningSet a) ts st of
             (ds, st) \<Rightarrow> (respond StatusOK (Body (JArr (map enc_tag_dto ds))), with_store st a)))"

record create_tag_req =
  cr_DevEUI :: string
  cr_JoinEUI :: string
  cr_AppKey :: string
  cr_Class :: string
  cr_Region :: string
  cr_SubBand :: int
  cr_DefaultDR :: int
  cr_FPort :: int
  cr_PayloadType :: string
  cr_PayloadConfig :: string
  cr_Enabled :: "bool option"
  cr_Count :: int

definition create_tag_names :: "string list" where
  "create_tag_names = [''dev_eui'', ''join_eui'', ''app_key'', ''class'', ''region'', ''sub_band'', ''default_dr'', ''fport'',
     ''payload_type'', ''payload_config'', ''enabled'', ''count'']"

definition dec_create_tag_req :: "json \<Rightarrow> create_tag_req res" where
  "dec_create_tag_req j =
     bindE (members j) (\<lambda>kvs.
     bindE (get_field ''dev_eui'' dec_string kvs []) (\<lambda>devEUI.
     bindE (get_field ''join_eui'' dec_string kvs []) (\<lambda>joinEUI.
     bindE (get_field ''app_key'' dec_string kvs []) (\<lambda>appKey.
     bindE (get_field ''class'' dec_string kvs []) (\<lambda>cls.
     bindE (get_field ''region'' dec_string kvs []) (\<lambda>region.
     bindE (get_field ''sub_band'' dec_int64 kvs 0) (\<lambda>subBand.
     bindE (get_field ''default_dr'' dec_int64 kvs 0) (\<lambda>defaultDR.
     bindE (get_field ''fport'' dec_int64 kvs 0) (\<lambda>fport.
     bindE (get_field ''payload_type'' dec_string kvs []) (\<lambda>payloadType.
     bindE (get_field ''payload_config'' dec_string kvs []) (\<lambda>payloadConfig.
     bindE (get_field ''enabled'' dec_opt_bool kvs None) (\<lambda>enabled.
     bindE (get_field ''count'' dec_int64 kvs 0) (\<lambda>count.
     Inr \<lparr>cr_DevEUI = devEUI, cr_JoinEUI = joinEUI, cr_AppKey = appKey, cr_Class = cls, cr_Region = region,
          cr_SubBand = subBand, cr_DefaultDR = defaultDR, cr_FPort = fport, cr_PayloadType = payloadType,
          cr_PayloadConfig = payloadConfig, cr_Enabled = enabled, cr_Count = count\<rparr>)))))))))))))"

definition or_default :: "'a \<Rightarrow> 'a \<Rightarrow> 'a \<Rightarrow> 'a" where
  "or_default zero d x = (if x = zero then d else x)"

definition toNewTag :: "bool \<Rightarrow> create_tag_req \<Rightarrow> entropy \<Rightarrow> (new_tag, entropy) run" where
  "toNewTag fleet req e =
     seqE (if cr_DevEUI req = [] \<or> fleet then GenerateEUI [] e else (Inr (cr_DevEUI req), e)) (\<lambda>devEUI e.
     seqE (if cr_AppKey req = [] then (case rand_read 16 e of (r, e) \<Rightarrow> (mapE hex_EncodeToString r, e))
           else (Inr (cr_AppKey req), e)) (\<lambda>appKey e.
     (Inr \<lparr>nt_DevEUI = devEUI, nt_JoinEUI = or_default [] ''0000000000000000'' (cr_JoinEUI req), nt_AppKey = appKey,
           nt_Class = or_default [] ''A'' (cr_Class req), nt_Region = or_default [] ''EU868'' (cr_Region req),
           nt_SubBand = or_default 0 2 (cr_SubBand req), nt_DefaultDR = cr_DefaultDR req,
           nt_FPort = or_default 0 10 (cr_FPort req), nt_PayloadType = or_default [] ''counter'' (cr_PayloadType req),
           nt_PayloadConfig = cr_PayloadConfig req, nt_Schedule = [],
           nt_Enabled = (case cr_Enabled req of None \<Rightarrow> True | Some b \<Rightarrow> b)\<rparr>, e)))"

text \<open>The loop of \<open>createTags\<close>: \<open>n\<close> more tags; it stops at the first error.\<close>

fun create_loop :: "nat \<Rightarrow> bool \<Rightarrow> create_tag_req \<Rightarrow> store \<Rightarrow> ((nat \<times> err) + tag_dto list) \<times> store" where
  "create_loop 0 fleet req st = (Inr [], st)"
| "create_loop (Suc n) fleet req st =
     (case toNewTag fleet req (st_entropy st) of
        (Inl e, r) \<Rightarrow> (Inl (StatusBadRequest, e), st\<lparr>st_entropy := r\<rparr>)
      | (Inr nt, r) \<Rightarrow>
          (case tags_Create nt (st\<lparr>st_entropy := r\<rparr>) of
             (Inl e, st) \<Rightarrow> (Inl (StatusInternalServerError, e), st)
           | (Inr t, st) \<Rightarrow>
               (case create_loop n fleet req st of
                  (Inl e, st) \<Rightarrow> (Inl e, st)
                | (Inr ds, st) \<Rightarrow> (Inr (toTagDTO {} t # ds), st))))"

definition createTags :: "string \<Rightarrow> 'e api \<Rightarrow> response \<times> 'e api" where
  "createTags b a =
     (case decodeJSON create_tag_names dec_create_tag_req b of
        Inl e \<Rightarrow> (respond StatusBadRequest (ErrorText e), a)
      | Inr req \<Rightarrow>
          let count = (if cr_Count req \<le> 0 then 1 else cr_Count req) in
          (case create_loop (nat count) (count > 1) req (the_store a) of
             (Inl (status, e), st) \<Rightarrow> (respond status (ErrorText e), with_store st a)
           | (Inr ds, st) \<Rightarrow> (respond StatusCreated (Body (JArr (map enc_tag_dto ds))), with_store st a)))"

definition tagID :: "string \<Rightarrow> int res" where
  "tagID param = (case strconv_ParseInt param of (i, None) \<Rightarrow> Inr i | (_, Some e) \<Rightarrow> Inl e)"

definition bad_id :: response where
  "bad_id = respond StatusBadRequest (Message ''invalid tag id'')"

definition no_gateway :: response where
  "no_gateway = respond StatusServiceUnavailable (Message ''gateway is not running'')"

definition store_error :: "err \<Rightarrow> response" where
  "store_error e =
     (if errors_Is e ErrNotFound then respond StatusNotFound (Message ''tag not found'')
      else respond StatusInternalServerError (ErrorText e))"

definition getTag :: "string \<Rightarrow> 'e api \<Rightarrow> response \<times> 'e api" where
  "getTag param a =
     (case tagID param of
        Inl e \<Rightarrow> (bad_id, a)
      | Inr tid \<Rightarrow>
          (case tags_Get tid (the_store a) of
             (Inl e, st) \<Rightarrow> (store_error e, with_store st a)
           | (Inr t, st) \<Rightarrow>
               (case dto_with_session (runningSet a) tid t st of
                  (d, st) \<Rightarrow> (respond StatusOK (Body (enc_tag_dto d)), with_store st a))))"

definition stop_running :: "int \<Rightarrow> 'e api \<Rightarrow> 'e api" where
  "stop_running tid a = (case ap_orch a of None \<Rightarrow> a | Some s \<Rightarrow> a\<lparr>ap_orch := Some (orch_Stop tid s)\<rparr>)"

definition deleteTag :: "string \<Rightarrow> 'e api \<Rightarrow> response \<times> 'e api" where
  "deleteTag param a =
     (case tagID param of
        Inl e \<Rightarrow> (bad_id, a)
      | Inr tid \<Rightarrow>
          let a = stop_running tid a in
          (case tags_Delete tid (the_store a) of
             (Inl e, st) \<Rightarrow> (store_error e, with_store st a)
           | (Inr _, st) \<Rightarrow> (respond StatusNoContent NoBody, with_store st a)))"

definition status_body :: "string \<Rightarrow> body" where
  "status_body s = Body (JObj [(''status'', JStr s)])"

text \<open>\<open>None\<close> while the join waits for its join-accept.\<close>

definition joinTag :: "aes_lib \<Rightarrow> lorawan \<Rightarrow> 'e emitter \<Rightarrow> net \<Rightarrow> string \<Rightarrow> 'e api \<Rightarrow> (response \<times> 'e api) option" where
  "joinTag A L emit net param a =
     (case tagID param of
        Inl e \<Rightarrow> Some (bad_id, a)
      | Inr tid \<Rightarrow>
          (case ap_orch a of
             None \<Rightarrow> Some (no_gateway, a)
           | Some s \<Rightarrow>
               (case orch_Start A L emit net tid s of
                  None \<Rightarrow> None
                | Some (Inl e, s) \<Rightarrow> Some (respond StatusBadGateway (ErrorText e), a\<lparr>ap_orch := Some s\<rparr>)
                | Some (Inr _, s) \<Rightarrow> Some (respond StatusOK (status_body ''joined''), a\<lparr>ap_orch := Some s\<rparr>))))"

definition dec_uplink_req :: "json \<Rightarrow> string res" where
  "dec_uplink_req j = bindE (members j) (\<lambda>kvs. get_field ''payload_hex'' dec_string kvs [])"

text \<open>The body is read when the request says it has one.\<close>

definition uplinkTag :: "lorawan \<Rightarrow> go_math \<Rightarrow> 'e emitter \<Rightarrow> (nat \<times> err) option \<Rightarrow> string \<Rightarrow> string \<Rightarrow> 'e api \<Rightarrow> response \<times> 'e api" where
  "uplinkTag L M emit w param b a =
     (case tagID param of
        Inl e \<Rightarrow> (bad_id, a)
      | Inr tid \<Rightarrow>
          (case ap_orch a of
             None \<Rightarrow> (no_gateway, a)
           | Some s \<Rightarrow>
               (case (if b = [] then Inr [] else decodeJSON [''payload_hex''] dec_uplink_req b) of
                  Inl e \<Rightarrow> (respond StatusBadRequest (ErrorText e), a)
                | Inr payloadHex \<Rightarrow>
                    (case (if payloadHex = [] then Inr None else mapE Some (hex_DecodeString payloadHex)) of
                       Inl e \<Rightarrow> (respond StatusBadRequest (Message ''invalid payload_hex''), a)
                     | Inr override \<Rightarrow>
                         (case orch_Uplink L M emit w tid override s of
                            (Inl e, s) \<Rightarrow> (respond StatusBadGateway (ErrorText e), a\<lparr>ap_orch := Some s\<rparr>)
                          | (Inr _, s) \<Rightarrow> (respond StatusOK (status_body ''sent''), a\<lparr>ap_orch := Some s\<rparr>))))))"

section \<open>Gateway, events and scenarios\<close>

record gateway_dto =
  gd_EUI :: string
  gd_Region :: string
  gd_SubBand :: int
  gd_ConnectionMode :: string
  gd_Status :: string
  gd_TCPAddr :: string
  gd_TagConns :: nat
  gd_WSClients :: nat

definition enc_gateway_dto :: "gateway_dto \<Rightarrow> json" where
  "enc_gateway_dto g = JObj (struct_members
     [(''eui'', False, JStr (gd_EUI g)), (''region'', False, JStr (gd_Region g)), (''sub_band'', False, enc_int (gd_SubBand g)),
      (''connection_mode'', False, JStr (gd_ConnectionMode g)), (''status'', False, JStr (gd_Status g)),
      (''tcp_addr'', gd_TCPAddr g = [], JStr (gd_TCPAddr g)), (''tag_conns'', False, enc_int (int (gd_TagConns g))),
      (''ws_clients'', False, enc_int (int (gd_WSClients g)))])"

definition disabled_dto :: "gateway_row \<Rightarrow> gateway_dto" where
  "disabled_dto g =
     \<lparr>gd_EUI = g_eui g, gd_Region = g_region g, gd_SubBand = g_sub_band g, gd_ConnectionMode = g_connection_mode g,
      gd_Status = ''disabled'', gd_TCPAddr = [], gd_TagConns = 0, gd_WSClients = 0\<rparr>"

definition getGateway :: "'e api \<Rightarrow> response \<times> 'e api" where
  "getGateway a =
     (case gateway_Get (the_store a) of
        (Inl e, st) \<Rightarrow>
          (if errors_Is e ErrNotFound then respond StatusNotFound (Message ''gateway not initialized'')
           else respond StatusInternalServerError (ErrorText e), with_store st a)
      | (Inr g, st) \<Rightarrow>
          let dto = (disabled_dto g)\<lparr>gd_WSClients := hub_Clients (ap_hub a)\<rparr>;
              dto = (case ap_gw a of
                       None \<Rightarrow> dto
                     | Some (addr, gw) \<Rightarrow> dto\<lparr>gd_Status := ''connected'', gd_TCPAddr := addr, gd_TagConns := ConnCount gw\<rparr>)
          in (respond StatusOK (Body (enc_gateway_dto dto)), with_store st a))"

record put_gateway_req =
  pg_Region :: string
  pg_SubBand :: int
  pg_ConnectionMode :: string

definition dec_put_gateway_req :: "json \<Rightarrow> put_gateway_req res" where
  "dec_put_gateway_req j =
     bindE (members j) (\<lambda>kvs.
     bindE (get_field ''region'' dec_string kvs []) (\<lambda>region.
     bindE (get_field ''sub_band'' dec_int64 kvs 0) (\<lambda>subBand.
     bindE (get_field ''connection_mode'' dec_string kvs []) (\<lambda>mode.
     Inr \<lparr>pg_Region = region, pg_SubBand = subBand, pg_ConnectionMode = mode\<rparr>))))"

definition putGateway :: "string \<Rightarrow> 'e api \<Rightarrow> response \<times> 'e api" where
  "putGateway b a =
     (case decodeJSON [''region'', ''sub_band'', ''connection_mode''] dec_put_gateway_req b of
        Inl e \<Rightarrow> (respond StatusBadRequest (ErrorText e), a)
      | Inr req \<Rightarrow>
          (case gateway_Get (the_store a) of
             (Inl e, st) \<Rightarrow> (respond StatusInternalServerError (ErrorText e), with_store st a)
           | (Inr g, st) \<Rightarrow>
               (case UpdateConfig (or_default [] (g_region g) (pg_Region req)) (or_default 0 (g_sub_band g) (pg_SubBand req))
                       (or_default [] (g_connection_mode g) (pg_ConnectionMode req)) st of
                  (Inl e, st) \<Rightarrow> (respond StatusInternalServerError (ErrorText e), with_store st a)
                | (Inr updated, st) \<Rightarrow>
                    (respond StatusOK (Body (enc_gateway_dto (disabled_dto updated))), with_store st a))))"

text \<open>The filter that the query string \<open>q\<close> asks for; what is absent or no number is not filtered on.\<close>

definition query_filter :: "(string \<Rightarrow> string) \<Rightarrow> event_filter" where
  "query_filter q =
     \<lparr>ef_TagID = (if q ''tag'' = [] then None
                  else case strconv_ParseInt (q ''tag'') of (i, None) \<Rightarrow> Some i | (_, Some _) \<Rightarrow> None),
      ef_Direction = q ''dir'',
      ef_BeforeID = (if q ''before'' = [] then 0 else fst (strconv_ParseInt (q ''before''))),
      ef_Limit = (if q ''limit'' = [] then 0 else fst (strconv_ParseInt (q ''limit'')))\<rparr>"

definition listEvents :: "(string \<Rightarrow> string) \<Rightarrow> 'e api \<Rightarrow> response \<times> 'e api" where
  "listEvents q a =
     (case events_List (query_filter q) (the_store a) of
        (Inl e, st) \<Rightarrow> (respond StatusInternalServerError (ErrorText e), with_store st a)
      | (Inr es, st) \<Rightarrow> (respond StatusOK (Body (JArr (map enc_event es))), with_store st a))"

definition dec_burst_req :: "json \<Rightarrow> (int \<times> int) res" where
  "dec_burst_req j =
     bindE (members j) (\<lambda>kvs.
     bindE (get_field ''count'' dec_int64 kvs 0) (\<lambda>count.
     bindE (get_field ''at_once'' dec_int64 kvs 0) (\<lambda>atOnce. Inr (count, atOnce))))"

text \<open>
  The scenarios. \<open>nets\<close> is the network of each joining tag and \<open>ids\<close> the order in which the running
  tags are visited; \<open>None\<close> while a join waits.
\<close>

definition runScenario :: "aes_lib \<Rightarrow> lorawan \<Rightarrow> go_math \<Rightarrow> 'e emitter \<Rightarrow> (int \<Rightarrow> net) \<Rightarrow> int list \<Rightarrow> string \<Rightarrow> string \<Rightarrow> 'e api \<Rightarrow> (response \<times> 'e api) option" where
  "runScenario A L M emit nets ids name b a =
     (case ap_orch a of
        None \<Rightarrow> Some (no_gateway, a)
      | Some s \<Rightarrow>
          if name = ''join_all'' then
            (case orch_JoinAll A L emit nets s of
               None \<Rightarrow> None
             | Some ((started, errs), s) \<Rightarrow>
                 Some (respond StatusOK (Body (JObj [(''errors'', enc_int (int errs)), (''started'', enc_int (int started))])),
                       a\<lparr>ap_orch := Some s\<rparr>))
          else if name = ''burst'' then
            (case (if b = [] then Inr (0, 0) else decodeJSON [''count'', ''at_once''] dec_burst_req b) of
               Inl e \<Rightarrow> Some (respond StatusBadRequest (ErrorText e), a)
             | Inr (count, atOnce) \<Rightarrow>
                 (case orch_Burst L M emit ids (if count \<le> 0 then int (card (orch_Running s)) else count) s of
                    (Inl e, s) \<Rightarrow> Some (respond StatusBadGateway (ErrorText e), a\<lparr>ap_orch := Some s\<rparr>)
                  | (Inr _, s) \<Rightarrow> Some (respond StatusOK (status_body ''ok''), a\<lparr>ap_orch := Some s\<rparr>)))
          else Some (respond StatusNotFound (Message ''unknown scenario''), a))"

end
