(* ===== verification/Fleet.thy ===== *)
theory Fleet
  imports Orchestrator
begin

text \<open>
  The abstract orchestrator: a set of running tags. Each operation has an outcome, and the abstract
  machine says which outcomes it allows and how the set changes. The detailed operations are a
  functional refinement: their outcomes are allowed, and the abstraction of the state they give is what the
  abstract machine gives.
\<close>

fun fleet_step :: "orch_op \<Rightarrow> bool \<Rightarrow> int set \<Rightarrow> int set option" where
  "fleet_step (Start net t) ok R = (if ok then Some (insert t R) else if t \<in> R then None else Some R)"
| "fleet_step (Uplink w t override) ok R = (if ok \<and> t \<notin> R then None else Some R)"
| "fleet_step (Receive t env) ok R = Some R"
| "fleet_step (Stop t) ok R = Some (R - {t})"
| "fleet_step StopAll ok R = Some {}"

fun fleet_run :: "(orch_op \<times> bool) list \<Rightarrow> int set \<Rightarrow> int set option" where
  "fleet_run [] R = Some R"
| "fleet_run ((op, ok) # ops) R = (case fleet_step op ok R of None \<Rightarrow> None | Some R \<Rightarrow> fleet_run ops R)"

text \<open>The operations of the code with their outcome: whether the call returned without error.\<close>

definition orch_outcome :: "aes_lib \<Rightarrow> lorawan \<Rightarrow> go_math \<Rightarrow> 'e emitter \<Rightarrow> orch_op \<Rightarrow> 'e orch \<Rightarrow> (bool \<times> 'e orch) option" where
  "orch_outcome A L M emit op s =
     (case op of
        Start net t \<Rightarrow> map_option (\<lambda>(r, s). (is_ok r, s)) (orch_Start A L emit net t s)
      | Uplink w t override \<Rightarrow> (case orch_Uplink L M emit w t override s of (r, s) \<Rightarrow> Some (is_ok r, s))
      | Receive t env \<Rightarrow> Some (True, orch_receive L emit t env s)
      | Stop t \<Rightarrow> Some (True, orch_Stop t s)
      | StopAll \<Rightarrow> Some (True, orch_StopAll s))"

fun orch_run :: "aes_lib \<Rightarrow> lorawan \<Rightarrow> go_math \<Rightarrow> 'e emitter \<Rightarrow> orch_op list \<Rightarrow> 'e orch \<Rightarrow> ((orch_op \<times> bool) list \<times> 'e orch) option" where
  "orch_run A L M emit [] s = Some ([], s)"
| "orch_run A L M emit (op # ops) s =
     (case orch_outcome A L M emit op s of
        None \<Rightarrow> None
      | Some (ok, s) \<Rightarrow>
          (case orch_run A L M emit ops s of
             None \<Rightarrow> None
           | Some (tr, s) \<Rightarrow> Some ((op, ok) # tr, s)))"

lemma orch_outcome_exec: "orch_outcome A L M emit op s = Some (ok, s') \<Longrightarrow> orch_exec A L M emit op s = Some s'"
  by (auto simp: orch_outcome_def orch_exec_def split: orch_op.splits prod.splits)

section \<open>One step\<close>

lemma orch_Start_Running:
  assumes "orch_Start A L emit net t s = Some (r, s')" and "orch_inv s"
  shows "if is_ok r then orch_Running s' = insert t (orch_Running s)
    else t \<notin> orch_Running s \<and> orch_Running s' = orch_Running s"
proof (cases "is_running t s")
  case True
  with assms(1) show ?thesis by (auto simp: orch_Start_def orch_Running_def is_running_def)
next
  case False
  with assms(1) have "start_rest A L emit net t s = Some (r, s')" by (simp add: orch_Start_def)
  note f = start_rest_frame [OF this orch_inv_fresh [OF assms(2)]]
  show ?thesis
  proof (cases "is_ok r")
    case True
    with f show ?thesis by (auto simp: orch_Running_def)
  next
    case False
    with f \<open>\<not> is_running t s\<close> show ?thesis by (auto simp: orch_Running_def is_running_def)
  qed
qed

lemma orch_Uplink_Running:
  assumes "orch_Uplink L M emit w t override s = (r, s')"
  shows "orch_Running s' = orch_Running s \<and> (is_ok r \<longrightarrow> t \<in> orch_Running s)"
  using assms by (auto simp: orch_Uplink_def orch_Running_def Let_def split: option.splits prod.splits sum.splits if_splits)

lemma orch_receive_Running: "orch_Running (orch_receive L emit t env s) = orch_Running s"
  by (auto simp: orch_receive_def orch_Running_def Let_def split: option.splits prod.splits)

lemma orch_Stop_Running: "orch_Running (orch_Stop t s) = orch_Running s - {t}"
  by (auto simp: orch_Running_def orch_Stop_def split: option.splits)

lemma orch_StopAll_Running: "orch_Running (orch_StopAll s) = {}"
  by (simp add: orch_Running_def orch_StopAll_def)

lemma fleet_step_refines:
  assumes "orch_outcome A L M emit op s = Some (ok, s')" and "orch_inv s"
  shows "fleet_step op ok (orch_Running s) = Some (orch_Running s')"
proof (cases op)
  case (Start net t)
  with assms(1) obtain r where "orch_Start A L emit net t s = Some (r, s')" "ok = is_ok r"
    by (auto simp: orch_outcome_def)
  with orch_Start_Running [OF this(1) assms(2)] Start show ?thesis by (auto split: if_splits)
next
  case (Uplink w t override)
  with assms(1) obtain r where "orch_Uplink L M emit w t override s = (r, s')" "ok = is_ok r"
    by (auto simp: orch_outcome_def split: prod.splits)
  with orch_Uplink_Running [OF this(1)] Uplink show ?thesis by auto
qed (use assms(1) in \<open>auto simp: orch_outcome_def orch_receive_Running orch_Stop_Running orch_StopAll_Running\<close>)

section \<open>Runs\<close>

lemma orch_run_refines:
  "orch_run A L M emit ops s = Some (tr, s') \<Longrightarrow> orch_inv s \<Longrightarrow>
     map fst tr = ops \<and> fleet_run tr (orch_Running s) = Some (orch_Running s') \<and> orch_inv s'"
proof (induction ops arbitrary: s tr)
  case (Cons op ops)
  obtain ok s1 where o1: "orch_outcome A L M emit op s = Some (ok, s1)"
    using Cons.prems(1) by (auto split: option.splits)
  obtain tr2 where o2: "orch_run A L M emit ops s1 = Some (tr2, s')" "tr = (op, ok) # tr2"
    using Cons.prems(1) o1 by (auto split: option.splits)
  have "orch_inv s1" by (rule orch_exec_inv [OF Cons.prems(2) orch_outcome_exec [OF o1]])
  with Cons.IH [OF o2(1)] fleet_step_refines [OF o1 Cons.prems(2)] o2(2) show ?case by simp
qed auto

text \<open>C14: the orchestrator implements a set of running tags. Whatever operations are run from a fresh
  orchestrator, with whatever the network and the tags do, the abstract machine allows the outcomes
  the calls had (a start fails only for a tag that is not running, an uplink succeeds only for one
  that is) and reaches exactly the set of running tags; and the open connections correspond one to
  one to the tags of that set.\<close>

theorem fleet_refinement:
  assumes "orch_run A L M emit ops (orch_New st e) = Some (tr, s)"
  shows "map fst tr = ops \<and> fleet_run tr {} = Some (orch_Running s) \<and>
    bij_betw (\<lambda>t. rt_conn (the (or_running s t))) (orch_Running s) (or_open s)"
proof -
  have r: "map fst tr = ops" "fleet_run tr {} = Some (orch_Running s)" "orch_inv s"
    using orch_run_refines [OF assms orch_inv_New] by (simp_all add: orch_Running_def orch_New_def)
  have "inj_on (\<lambda>t. rt_conn (the (or_running s t))) (orch_Running s)"
    using r(3) by (auto simp: inj_on_def orch_Running_def orch_inv_def)
  moreover have "(\<lambda>t. rt_conn (the (or_running s t))) ` orch_Running s = or_open s"
    using r(3) by (force simp: orch_Running_def orch_inv_def ran_def image_iff dom_def)
  ultimately show ?thesis using r(1,2) by (simp add: bij_betw_def)
qed

theorem fleet_refinement_witness:
  "\<exists>tr s. orch_run toy_aes toy_lorawan toy_math log_event [Start quiet_net 1, Stop 2] (orch_New (fleet_store True) ([] :: event list)) = Some (tr, s) \<and>
     orch_Running s = {1} \<and> card (or_open s) = 1"
proof -
  let ?s = "orch_New (fleet_store True) [] :: event list orch"
  have st: "or_store ?s = (fleet_store True)\<lparr>db_faults := []\<rparr>" by (simp add: orch_New_def fleet_store_up(2))
  obtain s' where s': "start_rest toy_aes toy_lorawan log_event quiet_net 1 ?s = Some (Inr (), s')" "is_running 1 s'"
    by (rule fleet_start [OF fleet_store_up(1) st])
  have "\<not> is_running 1 ?s" by (simp add: is_running_def orch_New_def)
  then have "orch_outcome toy_aes toy_lorawan toy_math log_event (Start quiet_net 1) ?s = Some (True, s')"
    by (simp add: orch_outcome_def orch_Start_def s'(1))
  moreover have "orch_outcome toy_aes toy_lorawan toy_math log_event (Stop 2) s' = Some (True, orch_Stop 2 s')"
    by (simp add: orch_outcome_def)
  ultimately have run: "orch_run toy_aes toy_lorawan toy_math log_event [Start quiet_net 1, Stop 2] ?s =
      Some ([(Start quiet_net 1, True), (Stop 2, True)], orch_Stop 2 s')"
    by simp
  from fleet_refinement [OF run] have "orch_Running (orch_Stop 2 s') = {1}"
    and b: "bij_betw (\<lambda>t. rt_conn (the (or_running (orch_Stop 2 s') t))) (orch_Running (orch_Stop 2 s')) (or_open (orch_Stop 2 s'))"
    by auto
  with bij_betw_same_card [OF b] run show ?thesis by simp
qed

end
