(* ===== verification/Rest.thy ===== *)
theory Rest
  imports Api Fleet
begin

text \<open>
  What the REST handlers promise their callers: creating a fleet of tags, deleting a running tag, and
  the state of the gateway as the two gateway handlers report it.
\<close>

lemma the_store_with [simp]: "the_store (with_store st a) = st"
  by (simp add: the_store_def with_store_def split: option.splits)

lemma the_store_without: "the_store (a\<lparr>ap_orch := Some s\<rparr>) = or_store s"
  by (simp add: the_store_def)

lemma with_store_frame [simp]:
  "ap_gw (with_store st a) = ap_gw a" "ap_hub (with_store st a) = ap_hub a" "runningSet (with_store st a) = runningSet a"
  "ap_orch (with_store st a) = map_option (\<lambda>s. s\<lparr>or_store := st\<rparr>) (ap_orch a)"
  by (simp_all add: with_store_def runningSet_def orch_Running_def split: option.splits)

lemma respond_simps [simp]: "rs_status (respond n b) = n" "rs_body (respond n b) = b"
  by (simp_all add: respond_def)

lemma scanTag_id: "scanTag c r = Inr t \<Longrightarrow> t_ID t = tr_id r"
  by (auto simp: scanTag_def res_simps split: sum.splits)

section \<open>Creating tags\<close>

text \<open>One turn of the loop: either no row is added, or exactly one with the next id.\<close>

lemma tags_Create_step:
  assumes "store_inv st" and "tags_Create nt st = (r, st')"
  shows "store_inv st' \<and> (\<exists>new. db_tags st' = db_tags st @ new \<and> db_tag_seq st' = db_tag_seq st + int (length new) \<and>
    map tr_id new = map (\<lambda>i. db_tag_seq st + int i) [1..<length new + 1] \<and> length new \<le> 1 \<and>
    (\<forall>x \<in> set new. tr_dev_eui x = nt_DevEUI nt) \<and> (\<forall>t. r = Inr t \<longrightarrow> map tr_id new = [t_ID t]))"
proof (intro conjI)
  show "store_inv st'" using tags_Create_inv [OF assms(1), of nt] assms(2) by simp
  show "\<exists>new. db_tags st' = db_tags st @ new \<and> db_tag_seq st' = db_tag_seq st + int (length new) \<and>
    map tr_id new = map (\<lambda>i. db_tag_seq st + int i) [1..<length new + 1] \<and> length new \<le> 1 \<and>
    (\<forall>x \<in> set new. tr_dev_eui x = nt_DevEUI nt) \<and> (\<forall>t. r = Inr t \<longrightarrow> map tr_id new = [t_ID t])"
  proof (cases nt st rule: tags_Create_cases)
    case (rolled_back e s)
    with assms(2) show ?thesis by (intro exI [of _ "[]"]) (auto simp: same_db_def)
  next
    case (committed k ent fs)
    let ?s = "insert_tag nt k (st\<lparr>st_entropy := ent, db_faults := fs\<rparr>)"
    let ?x = "tag_row_of (db_tag_seq st + 1) nt k (st_clock st)"
    have get: "tags_Get (db_tag_seq st + 1) ?s = (r, st')" using committed(4) assms(2) by simp
    have same: "same_db ?s st'" using tags_Get_same [of ?s "db_tag_seq st + 1"] get by simp
    have "t_ID t = db_tag_seq st + 1" if "r = Inr t" for t
    proof (cases "db_tag_seq st + 1" ?s rule: tags_Get_cases)
      case (row x fs')
      then have "tr_id x = db_tag_seq st + 1" by (auto simp: find_tag_def find_Some_iff)
      with row that get show ?thesis using scanTag_id [of "st_cipher ?s" x t] by simp
    qed (use that get in auto)
    with same show ?thesis
      by (intro exI [of _ "[?x]"]) (auto simp: same_db_def insert_tag_def tag_row_of_def)
  qed
qed

lemma upt_split_map: "map (\<lambda>i. s + int i) [1..<m + 1] @ map (\<lambda>i. s + int m + int i) [1..<n + 1] =
  map (\<lambda>i. s + int i) [1..<m + n + 1]"
proof -
  have "[1..<m + n + 1] = [1..<m + 1] @ map (\<lambda>i. m + i) [1..<n + 1]"
    by (induction n) simp_all
  then show ?thesis by (simp add: algebra_simps)
qed

definition added_tags :: "store \<Rightarrow> store \<Rightarrow> tag_row list \<Rightarrow> bool" where
  "added_tags st st' new =
     (db_tags st' = db_tags st @ new \<and> db_tag_seq st' = db_tag_seq st + int (length new) \<and>
      map tr_id new = map (\<lambda>i. db_tag_seq st + int i) [1..<length new + 1])"

lemma added_tags_trans: "added_tags st st1 xs \<Longrightarrow> added_tags st1 st2 ys \<Longrightarrow> added_tags st st2 (xs @ ys)"
  using upt_split_map [of "db_tag_seq st" "length xs" "length ys"] by (auto simp: added_tags_def)

lemma added_tags_Nil: "added_tags st st' [] \<longleftrightarrow> db_tags st' = db_tags st \<and> db_tag_seq st' = db_tag_seq st"
  by (auto simp: added_tags_def)

lemma fleet_eui: "toNewTag True req e = (Inr nt, e') \<Longrightarrow> valid_eui (nt_DevEUI nt)"
  using GenerateEUI_valid [of "[]" e] by (auto simp: toNewTag_def res_simps seqE_def split: prod.splits sum.splits if_splits)

lemma create_loop_adds:
  "create_loop n fleet req st = (r, st') \<Longrightarrow> store_inv st \<Longrightarrow>
     store_inv st' \<and> (\<exists>new. added_tags st st' new \<and> length new \<le> n \<and>
       (fleet \<longrightarrow> (\<forall>x \<in> set new. valid_eui (tr_dev_eui x))) \<and>
       (\<forall>ds. r = Inr ds \<longrightarrow> length new = n \<and> map td_ID ds = map tr_id new) \<and>
       (\<forall>c e. r = Inl (c, e) \<longrightarrow> c \<in> {400, 500}))"
proof (induction n arbitrary: st r st')
  case 0
  then show ?case by (auto simp: added_tags_Nil)
next
  case (Suc n)
  obtain q ent where nt: "toNewTag fleet req (st_entropy st) = (q, ent)" by fastforce
  let ?st = "st\<lparr>st_entropy := ent\<rparr>"
  have inv: "store_inv ?st" using Suc.prems(2) store_inv_same [of st ?st] by simp
  show ?case
  proof (cases q)
    case (Inl e)
    with Suc.prems nt inv show ?thesis
      by (intro conjI exI [of _ "[]"]) (auto simp: added_tags_Nil StatusBadRequest_def)
  next
    case (Inr newtag)
    obtain c st1 where cr: "tags_Create newtag ?st = (c, st1)" by fastforce
    from tags_Create_step [OF inv cr] obtain xs where inv1: "store_inv st1" and xs: "added_tags st st1 xs" "length xs \<le> 1"
      "\<forall>x \<in> set xs. tr_dev_eui x = nt_DevEUI newtag" "\<forall>t. c = Inr t \<longrightarrow> map tr_id xs = [t_ID t]"
      by (auto simp: added_tags_def)
    have eui: "fleet \<longrightarrow> (\<forall>x \<in> set xs. valid_eui (tr_dev_eui x))"
      using fleet_eui [of req] nt Inr xs(3) by (cases fleet) auto
    show ?thesis
    proof (cases c)
      case (Inl e)
      with Suc.prems(1) nt Inr cr inv1 xs eui show ?thesis
        by (intro conjI exI [of _ xs]) (auto simp: StatusInternalServerError_def)
    next
      case c: (Inr t)
      obtain q2 st2 where rest: "create_loop n fleet req st1 = (q2, st2)" by fastforce
      from Suc.IH [OF rest inv1] obtain ys where inv2: "store_inv st2" and ys: "added_tags st1 st2 ys" "length ys \<le> n"
        "fleet \<longrightarrow> (\<forall>x \<in> set ys. valid_eui (tr_dev_eui x))" "\<forall>ds. q2 = Inr ds \<longrightarrow> length ys = n \<and> map td_ID ds = map tr_id ys"
        "\<forall>c e. q2 = Inl (c, e) \<longrightarrow> c \<in> {400, 500}" by blast
      have one: "map tr_id xs = [t_ID t]" using xs(4) c by blast
      then have len: "length xs = 1" by (metis length_map length_Cons list.size(3) One_nat_def)
      have st': "st' = st2" using Suc.prems(1) nt Inr cr c rest by (auto split: sum.splits prod.splits)
      have r: "\<forall>ds. r = Inr ds \<longrightarrow> (\<exists>ds2. q2 = Inr ds2 \<and> ds = toTagDTO {} t # ds2)" "\<forall>c e. r = Inl (c, e) \<longrightarrow> q2 = Inl (c, e)"
        using Suc.prems(1) nt Inr cr c rest by (auto split: sum.splits prod.splits)
      show ?thesis
        using inv2 added_tags_trans [OF xs(1) ys(1)] ys eui one len r
        unfolding st' by (intro conjI exI [of _ "xs @ ys"]) (auto simp: toTagDTO_def)
    qed
  qed
qed



definition fleet_body :: string where
  "fleet_body = json_print (JObj [(''count'', JNum ''2'')])"

lemma fleet_body: "decodeJSON create_tag_names dec_create_tag_req fleet_body =
  Inr \<lparr>cr_DevEUI = [], cr_JoinEUI = [], cr_AppKey = [], cr_Class = [], cr_Region = [], cr_SubBand = 0, cr_DefaultDR = 0,
    cr_FPort = 0, cr_PayloadType = [], cr_PayloadConfig = [], cr_Enabled = None, cr_Count = 2\<rparr>"
  by code_simp

definition idle_api :: "event list api" where
  "idle_api = NewAPI (store_New NewInsecureDisabled) NewHub None None ''dev'' ''0102030405060708''"


section \<open>Deleting a running tag\<close>

lemma tagID_fmt_d: "- (2 ^ 63) \<le> i \<Longrightarrow> i < 2 ^ 63 \<Longrightarrow> tagID (fmt_d i) = Inr i"
  by (simp add: tagID_def ParseInt_fmt_d)

lemma the_store_stop [simp]: "the_store (stop_running t a) = the_store a"
  by (simp add: stop_running_def the_store_def orch_Stop_def close_conn_def split: option.splits)

lemma tags_Delete_up:
  assumes "db_up st" and "store_inv st" and "tags_Delete tid st = (r, st')"
  shows "db_up st' \<and> tid \<notin> tr_id ` set (db_tags st') \<and> tid \<notin> sr_tag_id ` set (db_sessions st') \<and>
    r = (if tid \<in> tr_id ` set (db_tags st) then Inr () else Inl ErrNotFound)"
proof -
  let ?P = "\<lambda>(r, st'). db_up st' \<and> tid \<notin> tr_id ` set (db_tags st') \<and>
    r = (if tid \<in> tr_id ` set (db_tags st) then Inr () else Inl ErrNotFound)"
  have "?P (tags_Delete tid st)"
    unfolding tags_Delete_def by (rule seq_wrap_up [OF assms(1)]) (auto simp: find_tag_None)
  moreover have "store_inv st'" using tags_Delete_inv [OF assms(2), of tid] assms(3) by simp
  then have "tr_id ` set (db_tags st') = sr_tag_id ` set (db_sessions st')"
    by (metis store_inv_def sessions_inv_def set_map)
  ultimately show ?thesis using assms(3) by simp
qed

lemma orch_Stop_closed:
  "or_running s t = Some rt \<Longrightarrow> rt_conn rt \<notin> or_open (orch_Stop t s)"
  by (simp add: orch_Stop_def)

lemma getTag_gone:
  assumes "db_up (the_store a)" and "tid \<notin> tr_id ` set (db_tags (the_store a))" and "tagID p = Inr tid"
  shows "rs_status (fst (getTag p a)) = 404"
proof -
  have "find_tag tid (the_store a) = None" using assms(2) by (simp add: find_tag_None)
  then show ?thesis
    using assms(3) by (auto simp: getTag_def store_error_def StatusNotFound_def intro: tags_Get_up [OF assms(1), of tid])
qed

lemma runningSet_stop: "runningSet (stop_running t a) = runningSet a - {t}"
  by (auto simp: runningSet_def stop_running_def orch_Stop_Running split: option.splits)

lemma deleteTag_running: "deleteTag p a = (resp, a') \<Longrightarrow> runningSet a' \<subseteq> runningSet a"
  by (auto simp: deleteTag_def Let_def runningSet_stop split: prod.splits sum.splits)

text \<open>C18: deleting a tag through the API also takes it out of the simulation. On a working database the answer is
  204 when the tag exists and 404 otherwise, and either way afterwards the tag is not running, the
  connection it had is closed, it has neither a row nor a session, and asking for it gives 404.\<close>

theorem delete_running_tag:
  assumes "deleteTag (fmt_d tid) a = (resp, a')" and "db_up (the_store a)" and "store_inv (the_store a)"
    and "- (2 ^ 63) \<le> tid" and "tid < 2 ^ 63"
  shows "rs_status resp = (if tid \<in> tr_id ` set (db_tags (the_store a)) then 204 else 404) \<and>
    tid \<notin> runningSet a' \<and>
    (\<forall>s s' rt. ap_orch a = Some s \<longrightarrow> ap_orch a' = Some s' \<longrightarrow> or_running s tid = Some rt \<longrightarrow> rt_conn rt \<notin> or_open s') \<and>
    tid \<notin> tr_id ` set (db_tags (the_store a')) \<and> tid \<notin> sr_tag_id ` set (db_sessions (the_store a')) \<and>
    rs_status (fst (getTag (fmt_d tid) a')) = 404"
proof -
  have p: "tagID (fmt_d tid) = Inr tid" by (rule tagID_fmt_d [OF assms(4,5)])
  obtain r st' where d: "tags_Delete tid (the_store a) = (r, st')" by fastforce
  note up = tags_Delete_up [OF assms(2,3) d]
  have a': "a' = with_store st' (stop_running tid a)"
    and status: "rs_status resp = (if tid \<in> tr_id ` set (db_tags (the_store a)) then 204 else 404)"
    using assms(1) p d up by (auto simp: deleteTag_def Let_def store_error_def StatusNotFound_def StatusNoContent_def split: if_splits)
  have "tid \<notin> runningSet a'"
    by (simp add: a' runningSet_stop)
  moreover have "rs_status (fst (getTag (fmt_d tid) a')) = 404"
    by (rule getTag_gone [OF _ _ p]) (use up in \<open>simp_all add: a'\<close>)
  ultimately show ?thesis
    using status up orch_Stop_closed by (auto simp: a' stop_running_def)
qed

lemma fleet_store_inv: "store_inv (fleet_store True)"
proof -
  have "store_inv (insert_tag example_new_tag (nt_AppKey example_new_tag) (store_New NewInsecureDisabled))"
    by (rule insert_tag_inv [OF store_inv_New]) (simp add: store_New_def)
  then have "store_inv (upd_session 1 (joined_row (example_join\<lparr>js_NwkSKey := [], js_AppSKey := []\<rparr>) [] [] [])
      (insert_tag example_new_tag (nt_AppKey example_new_tag) (store_New NewInsecureDisabled)))"
    by (rule upd_session_inv) auto
  then show ?thesis by (simp add: fleet_store_def)
qed

definition fleet_api :: "'e orch \<Rightarrow> 'e api" where
  "fleet_api s = NewAPI (fleet_store True) NewHub (Some s) None ''dev'' ''0102030405060708''"

theorem delete_running_tag_witness:
  "\<exists>a a' resp. 1 \<in> runningSet (a :: event list api) \<and> deleteTag (fmt_d 1) a = (resp, a') \<and> rs_status resp = 204 \<and> runningSet a' = {}"
proof -
  let ?s = "orch_New (fleet_store True) [] :: event list orch"
  have st: "or_store ?s = (fleet_store True)\<lparr>db_faults := []\<rparr>" by (simp add: orch_New_def fleet_store_up(2))
  obtain s' where s': "start_rest toy_aes toy_lorawan log_event quiet_net 1 ?s = Some (Inr (), s')" "is_running 1 s'"
    by (rule fleet_start [OF fleet_store_up(1) st])
  define s where "s = s'\<lparr>or_store := fleet_store True, or_running := (or_running s') |` {1}\<rparr>"
  let ?a = "fleet_api s"
  obtain resp a' where d: "deleteTag (fmt_d 1) ?a = (resp, a')" by fastforce
  have store: "the_store ?a = fleet_store True"
    by (simp add: fleet_api_def NewAPI_def the_store_def s_def)
  have running: "runningSet ?a = {1}"
    using s'(2) by (auto simp: fleet_api_def NewAPI_def runningSet_def orch_Running_def s_def is_running_def)
  have "db_up (the_store ?a)" using fleet_store_up by (simp add: store)
  moreover have "store_inv (the_store ?a)" by (simp add: store fleet_store_inv)
  moreover have "1 \<in> tr_id ` set (db_tags (the_store ?a))"
    by (simp add: store fleet_store_def Let_def upd_session_def insert_tag_def store_New_def tag_row_of_def)
  ultimately have "rs_status resp = 204" "1 \<notin> runningSet a'"
    using delete_running_tag [OF d] by simp_all
  moreover have "runningSet a' \<subseteq> {1}" using deleteTag_running [OF d] running by simp
  ultimately show ?thesis using d running by (intro exI [of _ ?a] exI [of _ a'] exI [of _ resp]) blast
qed

section \<open>The state of the gateway\<close>

definition gateway_body :: "gateway_row \<Rightarrow> string \<Rightarrow> string \<Rightarrow> nat \<Rightarrow> nat \<Rightarrow> body" where
  "gateway_body g status addr conns clients = Body (enc_gateway_dto
     \<lparr>gd_EUI = g_eui g, gd_Region = g_region g, gd_SubBand = g_sub_band g, gd_ConnectionMode = g_connection_mode g,
      gd_Status = status, gd_TCPAddr = addr, gd_TagConns = conns, gd_WSClients = clients\<rparr>)"

definition edited :: "put_gateway_req \<Rightarrow> string \<Rightarrow> gateway_row \<Rightarrow> gateway_row" where
  "edited req now g = g\<lparr>g_region := or_default [] (g_region g) (pg_Region req),
     g_sub_band := or_default 0 (g_sub_band g) (pg_SubBand req),
     g_connection_mode := or_default [] (g_connection_mode g) (pg_ConnectionMode req), g_updated_at := now\<rparr>"

lemma UpdateConfig_up:
  assumes "db_up st" and "db_gateway st = Some g"
  shows "\<exists>fs. UpdateConfig r b m st = (Inr (g\<lparr>g_region := r, g_sub_band := b, g_connection_mode := m, g_updated_at := st_clock st\<rparr>),
    st\<lparr>db_faults := fs, db_gateway := Some (g\<lparr>g_region := r, g_sub_band := b, g_connection_mode := m, g_updated_at := st_clock st\<rparr>)\<rparr>) \<and>
    db_up (st\<lparr>db_faults := fs\<rparr>)"
  unfolding UpdateConfig_def Let_def
proof (rule seq_wrap_up [OF assms(1)])
  fix fs
  let ?g = "g\<lparr>g_region := r, g_sub_band := b, g_connection_mode := m, g_updated_at := st_clock st\<rparr>"
  let ?s = "st\<lparr>db_faults := fs, db_gateway := Some ?g\<rparr>"
  assume "db_up (st\<lparr>db_faults := fs\<rparr>)"
  then have "db_up ?s" by (simp add: db_up_def)
  then obtain gs where "gateway_Get ?s = (Inr ?g, ?s\<lparr>db_faults := gs\<rparr>)" "db_up (?s\<lparr>db_faults := gs\<rparr>)"
    using gateway_Get_up_Some [of ?s ?g] by auto
  then show "\<exists>fs'. (case db_gateway (st\<lparr>db_faults := fs\<rparr>) of
        None \<Rightarrow> (Inl ErrNotFound, st\<lparr>db_faults := fs\<rparr>)
      | Some g \<Rightarrow> gateway_Get (st\<lparr>db_faults := fs, db_gateway := Some (g\<lparr>g_region := r, g_sub_band := b, g_connection_mode := m,
          g_updated_at := st_clock st\<rparr>)\<rparr>)) = (Inr ?g, st\<lparr>db_faults := fs', db_gateway := Some ?g\<rparr>) \<and> db_up (st\<lparr>db_faults := fs'\<rparr>)"
    by (intro exI [of _ gs]) (simp add: assms(2) db_up_def)
qed

text \<open>Editing the gateway answers that the gateway is disabled, whether it runs or not. The edit itself is stored, with
  the values left out of the request kept, but the answer says \<open>disabled\<close>, without address and
  connections, where asking for the gateway at once says \<open>connected\<close> with both.\<close>

theorem put_gateway_says_disabled:
  assumes "db_up (the_store a)" and "db_gateway (the_store a) = Some g" and "ap_gw a = Some (addr, gw)"
    and "decodeJSON [''region'', ''sub_band'', ''connection_mode''] dec_put_gateway_req b = Inr req"
  shows "\<exists>a' a''. putGateway b a = (respond 200 (gateway_body (edited req (st_clock (the_store a)) g) ''disabled'' [] 0 0), a') \<and>
    db_gateway (the_store a') = Some (edited req (st_clock (the_store a)) g) \<and>
    getGateway a' = (respond 200 (gateway_body (edited req (st_clock (the_store a)) g) ''connected'' addr (ConnCount gw)
      (hub_Clients (ap_hub a))), a'')"
proof -
  let ?e = "edited req (st_clock (the_store a)) g"
  obtain fs where get: "gateway_Get (the_store a) = (Inr g, (the_store a)\<lparr>db_faults := fs\<rparr>)" "db_up ((the_store a)\<lparr>db_faults := fs\<rparr>)"
    using gateway_Get_up_Some [OF assms(1,2)] by blast
  obtain gs where upd: "UpdateConfig (or_default [] (g_region g) (pg_Region req)) (or_default 0 (g_sub_band g) (pg_SubBand req))
      (or_default [] (g_connection_mode g) (pg_ConnectionMode req)) ((the_store a)\<lparr>db_faults := fs\<rparr>) =
      (Inr ?e, (the_store a)\<lparr>db_faults := gs, db_gateway := Some ?e\<rparr>)" "db_up ((the_store a)\<lparr>db_faults := gs\<rparr>)"
    using UpdateConfig_up [OF get(2), of g "or_default [] (g_region g) (pg_Region req)" "or_default 0 (g_sub_band g) (pg_SubBand req)"
        "or_default [] (g_connection_mode g) (pg_ConnectionMode req)"] assms(2) by (auto simp: edited_def)
  let ?st = "(the_store a)\<lparr>db_faults := gs, db_gateway := Some ?e\<rparr>"
  have "db_up ?st" using upd(2) by (simp add: db_up_def)
  then obtain hs where get2: "gateway_Get ?st = (Inr ?e, ?st\<lparr>db_faults := hs\<rparr>)"
    using gateway_Get_up_Some [of ?st ?e] by auto
  have "putGateway b a = (respond 200 (gateway_body ?e ''disabled'' [] 0 0), with_store ?st a)"
    by (simp add: putGateway_def assms(4) get upd gateway_body_def disabled_dto_def StatusOK_def)
  moreover have "getGateway (with_store ?st a) = (respond 200 (gateway_body ?e ''connected'' addr (ConnCount gw)
      (hub_Clients (ap_hub a))), with_store (?st\<lparr>db_faults := hs\<rparr>) (with_store ?st a))"
    by (simp add: getGateway_def get2 assms(3) gateway_body_def disabled_dto_def StatusOK_def)
  ultimately show ?thesis by (intro exI conjI) simp_all
qed

definition live_api :: "event list api" where
  "live_api = NewAPI (snd (gateway_create ''0102030405060708'' (store_New NewInsecureDisabled))) NewHub None
     (Some (''127.0.0.1:6000'', gateway_New [])) ''dev'' ''0102030405060708''"

definition edit_body :: string where
  "edit_body = json_print (JObj [(''sub_band'', JNum ''3'')])"

lemma edit_body: "decodeJSON [''region'', ''sub_band'', ''connection_mode''] dec_put_gateway_req edit_body =
  Inr \<lparr>pg_Region = [], pg_SubBand = 3, pg_ConnectionMode = []\<rparr>"
  by code_simp

theorem put_gateway_says_disabled_witness:
  "\<exists>a' a'' g. putGateway edit_body live_api = (respond 200 (gateway_body g ''disabled'' [] 0 0), a') \<and> g_sub_band g = 3 \<and>
    getGateway a' = (respond 200 (gateway_body g ''connected'' ''127.0.0.1:6000'' 0 0), a'')"
proof -
  have st: "the_store live_api = snd (gateway_create ''0102030405060708'' (store_New NewInsecureDisabled))"
    by (simp add: live_api_def NewAPI_def the_store_def)
  have up: "db_up (the_store live_api)" and "db_gateway (the_store live_api) \<noteq> None"
    unfolding st by (simp_all add: gateway_create_def gateway_Get_def store_New_def sql_wrap_def sql_stmt_def db_up_def seqE_def mapE_def)
  then obtain g where g: "db_gateway (the_store live_api) = Some g" by blast
  have gw: "ap_gw live_api = Some (''127.0.0.1:6000'', gateway_New [])" by (simp add: live_api_def NewAPI_def)
  have "ConnCount (gateway_New []) = 0" "hub_Clients (ap_hub live_api) = 0"
    by (simp_all add: ConnCount_def gateway_New_def hub_Clients_def live_api_def NewAPI_def NewHub_def)
  moreover define h where "h = edited \<lparr>pg_Region = [], pg_SubBand = 3, pg_ConnectionMode = []\<rparr> (st_clock (the_store live_api)) g"
  moreover have "g_sub_band h = 3" by (simp add: h_def edited_def or_default_def)
  ultimately show ?thesis
    using put_gateway_says_disabled [OF up g gw edit_body] by metis
qed

end
