(* ===== verification/Feed.thy ===== *)
theory Feed
  imports Rest
begin

text \<open>
  The way of an event from a running tag to the log and the live feed: the orchestrator with the
  publisher as its emitter, on the store that both use.
\<close>

section \<open>Building an uplink leaves the log alone\<close>

definition same_log :: "store \<Rightarrow> store \<Rightarrow> bool" where
  "same_log st st' =
     (db_tags st' = db_tags st \<and> db_events st' = db_events st \<and> db_event_seq st' = db_event_seq st \<and>
      st_clock st' = st_clock st \<and> (db_up st \<longrightarrow> db_up st'))"

lemma same_log_refl [simp, intro]: "same_log st st"
  by (simp add: same_log_def)

lemma same_log_trans: "same_log s t \<Longrightarrow> same_log t u \<Longrightarrow> same_log s u"
  by (simp add: same_log_def)

lemma same_log_upd [simp, intro]: "same_log st (upd_session t f st)" "same_log st (st\<lparr>st_entropy := e\<rparr>)"
  by (simp_all add: same_log_def db_up_def upd_session_def)

lemma seqE_log:
  assumes "same_log st (snd m)" and "\<And>x s. same_log s (snd (k x s))"
  shows "same_log st (snd (seqE m k))"
proof (cases m)
  case (Pair r s)
  show ?thesis
  proof (cases r)
    case (Inr x)
    with Pair assms(1) same_log_trans [OF _ assms(2) [of s x]] show ?thesis by (simp add: seqE_def)
  qed (use Pair assms(1) in \<open>simp add: seqE_def\<close>)
qed

lemma sql_wrap_log: "same_log st (snd (sql_wrap m st))"
  by (cases "db_faults st") (auto simp: sql_wrap_def sql_stmt_def same_log_def db_up_def split: option.splits)

lemma sessions_Get_log: "same_log st (snd (sessions_Get t st))"
  unfolding sessions_Get_def by (rule seqE_log [OF sql_wrap_log]) (auto split: option.splits)

lemma TakeFCntUp_log: "same_log st (snd (TakeFCntUp t st))"
  unfolding TakeFCntUp_def by (rule seqE_log [OF sql_wrap_log]) (auto split: option.splits)

lemma gen_payload_log: "same_log st (snd (gen_payload M d override fcnt st))"
  by (auto simp: gen_payload_def Let_def split: option.splits prod.splits)

lemma dev_BuildUplink_log: "same_log st (snd (dev_BuildUplink L M d override st))"
  unfolding dev_BuildUplink_def
  by (rule seqE_log [OF sessions_Get_log])
    (auto intro!: seqE_log TakeFCntUp_log gen_payload_log split: prod.splits)

section \<open>From an uplink to the feed\<close>

lemma events_Append_up:
  assumes "db_up st" and "ev_TagID e = Some t" and "t \<in> tr_id ` set (db_tags st)"
  shows "is_ok (fst (events_Append e st))"
  unfolding events_Append_def by (rule seq_wrap_up [OF assms(1)]) (use assms(2,3) in simp)


definition toy_orch :: "publisher orch" where
  "toy_orch = \<lparr>or_store = joined_example [1, 2, 3, 4] toy_app_key toy_app_key,
     or_running = [1 \<mapsto> \<lparr>rt_client = (NewClient toy_device)\<lparr>cl_joined := True\<rparr>, rt_conn = 0\<rparr>], or_open = {0}, or_next = 1,
     or_emit = \<lparr>pb_hub = hub_add 5 NewHub, pb_metrics = None\<rparr>\<rparr>"


end
