(* ===== verification/Router.thy ===== *)
theory Router
  imports Feed StoreOps
begin

text \<open>
  The HTTP surface as a whole (\<open>internal/api/router.go\<close>): the routes under \<open>/api\<close>, and a request as one
  step of the program. What the tags, the orchestrator and the handlers ask of the store is stated as
  an interface (\<open>store_use\<close>): any predicate on the store that each repository operation and the emitter
  preserve is preserved by everything above them.
\<close>

section \<open>What uses the store preserves what the store preserves\<close>

locale store_use =
  fixes keeps :: "store \<Rightarrow> bool"
    and emit :: "'e emitter"
  assumes op: "keeps st \<Longrightarrow> keeps (exec_op op st)"
    and emitted: "keeps st \<Longrightarrow> keeps (fst (emit e (st, p)))"
begin

lemma repository:
  assumes "keeps st"
  shows "keeps (snd (tags_Get t st))" "keeps (snd (tags_List st))" "keeps (snd (tags_Create nt st))" "keeps (snd (tags_Delete t st))"
    "keeps (snd (sessions_Get t st))" "keeps (snd (NextDevNonce t st))" "keeps (snd (SaveJoinResult t js st))"
    "keeps (snd (TakeFCntUp t st))" "keeps (snd (SetFCntDown t f st))" "keeps (snd (events_List ef st))"
    "keeps (snd (UpdateConfig r b m st))" "keeps (st\<lparr>st_entropy := ent\<rparr>)"
  using op [OF assms, of "OpGetTag t"] op [OF assms, of OpListTags] op [OF assms, of "OpCreateTag nt"] op [OF assms, of "OpDeleteTag t"]
    op [OF assms, of "OpGetSession t"] op [OF assms, of "OpNextDevNonce t"] op [OF assms, of "OpSaveJoinResult t js"]
    op [OF assms, of "OpTakeFCntUp t"] op [OF assms, of "OpSetFCntDown t f"] op [OF assms, of "OpListEvents ef"]
    op [OF assms, of "OpUpdateConfig r b m"] op [OF assms, of "OpEnv (db_faults st) (st_clock st) ent"]
  by simp_all

lemma gateway_keeps:
  assumes "keeps st"
  shows "keeps (snd (gateway_Get st))"
proof -
  have "keeps (st\<lparr>db_faults := fs\<rparr>)" for fs using op [OF assms, of "OpEnv fs (st_clock st) (st_entropy st)"] by simp
  then show ?thesis by (cases st rule: gateway_Get_cases) simp_all
qed

lemma seqE_keeps: "keeps (snd m) \<Longrightarrow> (\<And>x s. keeps s \<Longrightarrow> keeps (snd (k x s))) \<Longrightarrow> keeps (snd (seqE m k))"
  by (cases m; cases "fst m") (auto simp: seqE_def)

lemma dev_BuildJoinRequest_keeps: "keeps st \<Longrightarrow> keeps (snd (dev_BuildJoinRequest L d st))"
  unfolding dev_BuildJoinRequest_def Let_def
  by (auto intro!: seqE_keeps repository split: prod.splits dest: repository(6) [of st "t_ID (dv_tag d)"])

lemma CompleteJoin_keeps: "keeps st \<Longrightarrow> keeps (snd (CompleteJoin A L d n accept st))"
  unfolding CompleteJoin_def by (auto intro!: seqE_keeps repository)

lemma gen_payload_keeps: "keeps st \<Longrightarrow> keeps (snd (gen_payload M d override fcnt st))"
  by (auto simp: gen_payload_def Let_def intro: repository split: option.splits prod.splits)

lemma dev_BuildUplink_keeps: "keeps st \<Longrightarrow> keeps (snd (dev_BuildUplink L M d override st))"
  unfolding dev_BuildUplink_def by (auto intro!: seqE_keeps repository gen_payload_keeps)

lemma HandleDownlink_keeps: "keeps st \<Longrightarrow> keeps (snd (HandleDownlink L d frame st))"
  unfolding HandleDownlink_def by (auto intro!: seqE_keeps repository)

lemma client_dispatch_keeps: "keeps st \<Longrightarrow> client_dispatch L env c st = (h, c', st') \<Longrightarrow> keeps st'"
  using HandleDownlink_keeps [of st L "cl_dev c"]
  by (auto simp: client_dispatch_def split: if_splits sum.splits prod.splits) (metis snd_conv)+

lemma dispatch_all_keeps: "keeps st \<Longrightarrow> dispatch_all L envs c st = (hs, c', st') \<Longrightarrow> keeps st'"
proof (induction envs arbitrary: c st hs c' st')
  case (Cons e es)
  obtain h c1 st1 where d: "client_dispatch L e c st = (h, c1, st1)" by (rule prod_cases3)
  obtain hs2 c2 st2 where a: "dispatch_all L es c1 st1 = (hs2, c2, st2)" by (rule prod_cases3)
  from Cons.IH [OF client_dispatch_keeps [OF Cons.prems(1) d] a] Cons.prems(2) d a show ?case by simp
qed simp

lemma client_JoinStart_keeps: "keeps st \<Longrightarrow> keeps (snd (snd (client_JoinStart L w c st)))"
  using dev_BuildJoinRequest_keeps [of st L "cl_dev c"]
  by (auto simp: client_JoinStart_def Let_def seqE_def split: prod.splits sum.splits)

lemma client_JoinFinish_keeps: "keeps st \<Longrightarrow> keeps (snd (snd (client_JoinFinish A L n pdu c st)))"
  using CompleteJoin_keeps [of st A L "cl_dev c" n pdu]
  by (auto simp: client_JoinFinish_def Let_def seqE_def split: prod.splits sum.splits)

lemma client_Join_keeps:
  assumes "keeps st" and "client_Join A L w envs cancelled c st = (r, c', st')"
  shows "keeps st'"
proof -
  obtain q c1 st1 where s: "client_JoinStart L w c st = (q, c1, st1)" by (rule prod_cases3)
  have k1: "keeps st1" using client_JoinStart_keeps [OF assms(1), of L w c] s by simp
  obtain hs c2 st2 where d: "dispatch_all L envs c1 st1 = (hs, c2, st2)" by (rule prod_cases3)
  have k2: "keeps st2" by (rule dispatch_all_keeps [OF k1 d])
  have k3: "keeps (snd (snd (client_JoinFinish A L n pdu c2 st2)))" for n pdu by (rule client_JoinFinish_keeps [OF k2])
  show ?thesis
    using assms(2) s d k1 k2 k3 by (auto simp: client_Join_def split: sum.splits if_splits option.splits prod.splits) (metis snd_conv)+
qed

lemma SendUplink_keeps: "keeps st \<Longrightarrow> SendUplink L M w override c st = (r, c', st') \<Longrightarrow> keeps st'"
  using dev_BuildUplink_keeps [of st L M "cl_dev c" override]
  by (auto simp: SendUplink_def Let_def seqE_def split: if_splits prod.splits sum.splits)

section \<open>The orchestrator\<close>

lemma emit_to_keeps: "keeps (or_store s) \<Longrightarrow> keeps (or_store (emit_to emit e s))"
  using emitted [of "or_store s" e "or_emit s"] by (cases "emit e (or_store s, or_emit s)") (simp add: emit_to_def)

lemma start_join_keeps:
  assumes "keeps (or_store s)" and "start_join A L emit net t c k s = Some (r, s')"
  shows "keeps (or_store s')"
proof -
  obtain q c1 st1 where j: "client_Join A L (ne_join net) (ne_envs net) (ne_cancelled net) c (or_store s) = (q, c1, st1)"
    by (rule prod_cases3)
  have k: "keeps st1" by (rule client_Join_keeps [OF assms(1) j])
  have k2: "keeps (snd (sessions_Get t st1))" by (rule repository(5) [OF k])
  show ?thesis
    using assms(2) j k k2
    by (auto simp: start_join_def intro!: emit_to_keeps split: option.splits sum.splits prod.splits)
qed

lemma start_rest_keeps:
  assumes "keeps (or_store s)" and "start_rest A L emit net t s = Some (r, s')"
  shows "keeps (or_store s')"
proof -
  obtain q st where g: "tags_Get t (or_store s) = (q, st)" by fastforce
  have k: "keeps st" using repository(1) [OF assms(1), of t] g by simp
  obtain q2 st2 where ss: "sessions_Get t st = (q2, st2)" by fastforce
  have k2: "keeps st2" using repository(5) [OF k, of t] ss by simp
  have k3: "keeps (or_store s3)" if "start_join A L emit net t c j (s\<lparr>or_next := n, or_open := os, or_store := st2\<rparr>) = Some (r3, s3)" for c j n os r3 s3
    by (rule start_join_keeps [OF _ that]) (simp add: k2)
  show ?thesis
    using assms(2) g k k2 ss
    by (auto simp: start_rest_def Let_def dial_tag_def enter_running_def
        split: option.splits sum.splits prod.splits if_splits dest!: k3)
qed

lemma orch_Start_keeps: "keeps (or_store s) \<Longrightarrow> orch_Start A L emit net t s = Some (r, s') \<Longrightarrow> keeps (or_store s')"
  by (auto simp: orch_Start_def dest: start_rest_keeps split: if_splits)

lemma orch_Uplink_keeps:
  assumes "keeps (or_store s)"
  shows "keeps (or_store (snd (orch_Uplink L M emit w t override s)))"
proof (cases "or_running s t")
  case (Some rt)
  obtain r c st where u: "SendUplink L M w override (rt_client rt) (or_store s) = (r, c, st)" by (rule prod_cases3)
  with Some SendUplink_keeps [OF assms u] show ?thesis
    by (auto simp: orch_Uplink_def Let_def intro!: emit_to_keeps split: sum.splits)
qed (use assms in \<open>simp add: orch_Uplink_def\<close>)

lemma orch_receive_keeps:
  assumes "keeps (or_store s)"
  shows "keeps (or_store (orch_receive L emit t env s))"
proof (cases "or_running s t")
  case (Some rt)
  obtain h c st where u: "client_dispatch L env (rt_client rt) (or_store s) = (h, c, st)" by (rule prod_cases3)
  with Some client_dispatch_keeps [OF assms u] show ?thesis
    by (auto simp: orch_receive_def Let_def intro!: emit_to_keeps split: option.splits)
qed (use assms in \<open>simp add: orch_receive_def\<close>)

lemma join_all_keeps: "keeps (or_store s) \<Longrightarrow> join_all A L emit nets ts s = Some (r, s') \<Longrightarrow> keeps (or_store s')"
proof (induction ts arbitrary: s r)
  case (Cons t ts)
  show ?case
  proof (cases "t_Enabled t")
    case True
    then obtain q s1 where st: "orch_Start A L emit (nets (t_ID t)) (t_ID t) s = Some (q, s1)"
      using Cons.prems(2) by (auto split: option.splits)
    obtain r2 where "join_all A L emit nets ts s1 = Some (r2, s')"
      using Cons.prems(2) True st by (auto split: option.splits)
    from Cons.IH [OF orch_Start_keeps [OF Cons.prems(1) st] this] show ?thesis .
  next
    case False
    with Cons show ?thesis by simp
  qed
qed simp

lemma orch_JoinAll_keeps:
  assumes "keeps (or_store s)" and "orch_JoinAll A L emit nets s = Some (r, s')"
  shows "keeps (or_store s')"
proof -
  obtain q st where g: "tags_List (or_store s) = (q, st)" by fastforce
  have "keeps st" using repository(2) [OF assms(1)] g by simp
  then show ?thesis
    using assms(2) g join_all_keeps [of "s\<lparr>or_store := st\<rparr>"] by (auto simp: orch_JoinAll_def split: sum.splits)
qed

lemma burst_loop_keeps: "keeps (or_store s) \<Longrightarrow> keeps (or_store (burst_loop L M emit ids i n s))"
  by (induction n arbitrary: i s) (simp_all add: orch_Uplink_keeps)

lemma orch_Burst_keeps: "keeps (or_store s) \<Longrightarrow> keeps (or_store (snd (orch_Burst L M emit ids count s)))"
  by (simp add: orch_Burst_def burst_loop_keeps)

section \<open>The handlers\<close>

lemma dto_with_session_keeps: "keeps st \<Longrightarrow> keeps (snd (dto_with_session R t x st))"
  using repository(5) [of st t] by (auto simp: dto_with_session_def split: prod.splits sum.splits)

lemma list_dtos_keeps: "keeps st \<Longrightarrow> keeps (snd (list_dtos R ts st))"
proof (induction ts arbitrary: st)
  case (Cons t ts)
  show ?case
    using Cons.IH [OF dto_with_session_keeps [OF Cons.prems, of R "t_ID t" t]]
    by (cases "dto_with_session R (t_ID t) t st"; cases "list_dtos R ts (snd (dto_with_session R (t_ID t) t st))") simp
qed simp

lemma create_loop_keeps: "keeps st \<Longrightarrow> keeps (snd (create_loop n fleet req st))"
proof (induction n arbitrary: st)
  case (Suc n)
  obtain q r where nt: "toNewTag fleet req (st_entropy st) = (q, r)" by fastforce
  have k: "keeps (st\<lparr>st_entropy := r\<rparr>)" by (rule repository(12) [OF Suc.prems])
  show ?case
  proof (cases q)
    case (Inr newtag)
    obtain c st1 where c: "tags_Create newtag (st\<lparr>st_entropy := r\<rparr>) = (c, st1)" by fastforce
    have "keeps st1" using repository(3) [OF k, of newtag] c by simp
    from Suc.IH [OF this] this nt Inr c show ?thesis by (auto split: sum.splits prod.splits)
  qed (use nt k in simp)
qed simp

lemma api_handlers_keep:
  assumes "keeps (the_store a)"
  shows "keeps (the_store (snd (listTags a)))" "keeps (the_store (snd (createTags b a)))" "keeps (the_store (snd (getTag p a)))"
    "keeps (the_store (snd (deleteTag p a)))" "keeps (the_store (snd (getGateway a)))" "keeps (the_store (snd (putGateway b a)))"
    "keeps (the_store (snd (listEvents q a)))"
proof -
  show "keeps (the_store (snd (listTags a)))"
  proof (cases "tags_List (the_store a)")
    case (Pair r st)
    have "keeps st" using repository(2) [OF assms] Pair by simp
    from list_dtos_keeps [OF this] have "keeps st'" if "list_dtos R ts st = (ds, st')" for R ts ds st'
      using that by (metis snd_conv)
    with Pair \<open>keeps st\<close> show ?thesis by (auto simp: listTags_def split: sum.splits prod.splits)
  qed
  have "keeps st'" if "create_loop n fleet req (the_store a) = (r, st')" for n fleet req r st'
    using create_loop_keeps [OF assms, of n fleet req] that by simp
  then show "keeps (the_store (snd (createTags b a)))"
    using assms by (auto simp: createTags_def Let_def simp del: create_loop.simps split: sum.splits prod.splits)
  show "keeps (the_store (snd (getTag p a)))"
  proof (cases "tagID p")
    case (Inr t)
    show ?thesis
    proof (cases "tags_Get t (the_store a)")
      case (Pair r st)
      have "keeps st" using repository(1) [OF assms, of t] Pair by simp
      then have "keeps st'" if "dto_with_session R i x st = (d, st')" for R i x d st'
        using dto_with_session_keeps [of st R i x] that by simp
      with Pair Inr \<open>keeps st\<close> show ?thesis by (auto simp: getTag_def split: sum.splits prod.splits)
    qed
  qed (use assms in \<open>simp add: getTag_def\<close>)
  have del: "keeps st'" if "tags_Delete t (the_store a) = (d, st')" for t d st'
    using repository(4) [OF assms, of t] that by simp
  show "keeps (the_store (snd (deleteTag p a)))"
    using assms by (auto simp: deleteTag_def Let_def dest: del split: sum.splits prod.splits)
  show "keeps (the_store (snd (getGateway a)))"
  proof (cases "gateway_Get (the_store a)")
    case (Pair r st)
    have "keeps st" using gateway_keeps [OF assms] Pair by simp
    with Pair show ?thesis by (auto simp: getGateway_def Let_def split: sum.splits)
  qed
  show "keeps (the_store (snd (putGateway b a)))"
  proof (cases "gateway_Get (the_store a)")
    case (Pair r st)
    have k: "keeps st" using gateway_keeps [OF assms] Pair by simp
    have "keeps st'" if "UpdateConfig rg sb cm st = (g, st')" for rg sb cm g st'
      using repository(11) [OF k, of rg sb cm] that by simp
    with Pair k assms show ?thesis by (auto simp: putGateway_def split: sum.splits prod.splits)
  qed
  show "keeps (the_store (snd (listEvents q a)))"
  proof (cases "events_List (query_filter q) (the_store a)")
    case (Pair r st)
    have "keeps st" using repository(10) [OF assms, of "query_filter q"] Pair by simp
    with Pair show ?thesis by (auto simp: listEvents_def split: sum.splits)
  qed
qed

lemma joinTag_keeps:
  assumes "keeps (the_store a)" and "joinTag A L emit net p a = Some (resp, a')"
  shows "keeps (the_store a')"
proof (cases "ap_orch a")
  case (Some s)
  then have k: "keeps (or_store s)" using assms(1) by (simp add: the_store_def)
  show ?thesis
    using assms Some orch_Start_keeps [OF k]
    by (fastforce simp: joinTag_def the_store_without split: sum.splits option.splits prod.splits)
qed (use assms in \<open>auto simp: joinTag_def split: sum.splits\<close>)

lemma uplinkTag_keeps:
  assumes "keeps (the_store a)"
  shows "keeps (the_store (snd (uplinkTag L M emit w p b a)))"
proof (cases "ap_orch a")
  case (Some s)
  then have "keeps (or_store s)" using assms by (simp add: the_store_def)
  from orch_Uplink_keeps [OF this] have "keeps (or_store s')" if "orch_Uplink L M emit w t override s = (r, s')" for t override r s'
    using that by (metis snd_conv)
  with Some assms show ?thesis
    by (auto simp: uplinkTag_def the_store_without split: sum.splits prod.splits if_splits)
qed (use assms in \<open>auto simp: uplinkTag_def split: sum.splits\<close>)

lemma runScenario_keeps:
  assumes "keeps (the_store a)" and "runScenario A L M emit nets ids name b a = Some (resp, a')"
  shows "keeps (the_store a')"
proof (cases "ap_orch a")
  case (Some s)
  then have k: "keeps (or_store s)" using assms(1) by (simp add: the_store_def)
  consider (join) "name = ''join_all''" | (burst) "name = ''burst''" | (other) "name \<noteq> ''join_all''" "name \<noteq> ''burst''" by blast
  then show ?thesis
  proof cases
    case join
    with assms(2) Some orch_JoinAll_keeps [OF k] show ?thesis
      by (fastforce simp: runScenario_def the_store_without split: option.splits prod.splits)
  next
    case burst
    from orch_Burst_keeps [OF k] have "keeps (or_store s')" if "orch_Burst L M emit ids n s = (r, s')" for n r s'
      using that by (metis snd_conv)
    with assms Some burst show ?thesis
      by (auto simp: runScenario_def the_store_without split: sum.splits prod.splits if_splits)
  qed (use assms Some in \<open>simp add: runScenario_def\<close>)
qed (use assms in \<open>simp add: runScenario_def\<close>)

end

section \<open>Routes and requests\<close>

text \<open>
  The routes of \<open>NewRouter\<close>, on a path split at its slashes: the router mounts \<open>/tags/{id}\<close> with and without
  a slash at its end. Everything else (the WebSocket, the files of the UI, and what is not found or not
  allowed) goes to none of these handlers.
\<close>

datatype endpoint =
    Healthz
  | GetGateway
  | PutGateway
  | ListTags
  | CreateTags
  | GetTag string
  | DeleteTag string
  | JoinTag string
  | UplinkTag string
  | ListEvents
  | RunScenario string

definition route :: "string \<Rightarrow> string list \<Rightarrow> endpoint option" where
  "route meth path =
     (case path of
        [a] \<Rightarrow> if a = ''healthz'' \<and> meth = ''GET'' then Some Healthz else None
      | [a, b] \<Rightarrow>
          if a \<noteq> ''api'' then None
          else if b = ''gateway'' then
            (if meth = ''GET'' then Some GetGateway else if meth = ''PUT'' then Some PutGateway else None)
          else if b = ''tags'' then
            (if meth = ''GET'' then Some ListTags else if meth = ''POST'' then Some CreateTags else None)
          else if b = ''events'' \<and> meth = ''GET'' then Some ListEvents
          else None
      | [a, b, c] \<Rightarrow>
          if a = ''api'' \<and> b = ''tags'' \<and> c \<noteq> [] then
            (if meth = ''GET'' then Some (GetTag c) else if meth = ''DELETE'' then Some (DeleteTag c) else None)
          else None
      | [a, b, c, d] \<Rightarrow>
          if a \<noteq> ''api'' then None
          else if b = ''tags'' \<and> d = [] then
            (if meth = ''GET'' then Some (GetTag c) else if meth = ''DELETE'' then Some (DeleteTag c) else None)
          else if meth \<noteq> ''POST'' then None
          else if b = ''tags'' \<and> d = ''join'' then Some (JoinTag c)
          else if b = ''tags'' \<and> d = ''uplink'' then Some (UplinkTag c)
          else if b = ''scenarios'' \<and> d = ''run'' then Some (RunScenario c)
          else None
      | _ \<Rightarrow> None)"

record request =
  rq_method :: string
  rq_path :: "string list"
  rq_query :: "string \<Rightarrow> string"
  rq_body :: string

text \<open>What the world does while a request is served.\<close>

record world =
  wd_nets :: "int \<Rightarrow> net"
  wd_write :: "(nat \<times> err) option"
  wd_ids :: "int list"

definition the_net :: "world \<Rightarrow> string \<Rightarrow> net" where
  "the_net w p = (case tagID p of Inl e \<Rightarrow> wd_nets w 0 | Inr t \<Rightarrow> wd_nets w t)"

definition dispatch :: "aes_lib \<Rightarrow> lorawan \<Rightarrow> go_math \<Rightarrow> 'e emitter \<Rightarrow> world \<Rightarrow> request \<Rightarrow> endpoint \<Rightarrow> 'e api \<Rightarrow> (response \<times> 'e api) option" where
  "dispatch A L M emit w rq ep a =
     (case ep of
        Healthz \<Rightarrow> Some (healthz a, a)
      | GetGateway \<Rightarrow> Some (getGateway a)
      | PutGateway \<Rightarrow> Some (putGateway (rq_body rq) a)
      | ListTags \<Rightarrow> Some (listTags a)
      | CreateTags \<Rightarrow> Some (createTags (rq_body rq) a)
      | GetTag p \<Rightarrow> Some (getTag p a)
      | DeleteTag p \<Rightarrow> Some (deleteTag p a)
      | JoinTag p \<Rightarrow> joinTag A L emit (the_net w p) p a
      | UplinkTag p \<Rightarrow> Some (uplinkTag L M emit (wd_write w) p (rq_body rq) a)
      | ListEvents \<Rightarrow> Some (listEvents (rq_query rq) a)
      | RunScenario name \<Rightarrow> runScenario A L M emit (wd_nets w) (wd_ids w) name (rq_body rq) a)"

text \<open>
  The steps of the running web app: a request that is answered, an envelope that arrives for a running
  tag, a change of the environment of the store, and the gateway and the hub going on with their work.
\<close>

inductive app_step :: "aes_lib \<Rightarrow> lorawan \<Rightarrow> go_math \<Rightarrow> 'e emitter \<Rightarrow> 'e api \<Rightarrow> 'e api \<Rightarrow> bool"
  for A :: aes_lib and L :: lorawan and M :: go_math and emit :: "'e emitter" where
  request: "route (rq_method rq) (rq_path rq) = Some ep \<Longrightarrow> dispatch A L M emit w rq ep a = Some (resp, a') \<Longrightarrow>
    app_step A L M emit a a'"
| envelope: "ap_orch a = Some s \<Longrightarrow> app_step A L M emit a (a\<lparr>ap_orch := Some (orch_receive L emit t env s)\<rparr>)"
| environment: "app_step A L M emit a (with_store (exec_op (OpEnv fs now ent) (the_store a)) a)"
| elsewhere: "app_step A L M emit a (a\<lparr>ap_gw := map_option (\<lambda>(addr, _). (addr, g)) (ap_gw a), ap_hub := h\<rparr>)"

inductive app_run :: "aes_lib \<Rightarrow> lorawan \<Rightarrow> go_math \<Rightarrow> 'e emitter \<Rightarrow> 'e api \<Rightarrow> 'e api \<Rightarrow> bool"
  for A :: aes_lib and L :: lorawan and M :: go_math and emit :: "'e emitter" and a :: "'e api" where
  here: "app_run A L M emit a a"
| more: "app_run A L M emit a b \<Longrightarrow> app_step A L M emit b c \<Longrightarrow> app_run A L M emit a c"

context store_use
begin

lemma app_step_keeps:
  assumes "app_step A L M emit a b" and "keeps (the_store a)"
  shows "keeps (the_store b)"
  using assms(1)
proof (cases rule: app_step.cases)
  case (request rq ep w resp)
  note k = api_handlers_keep [OF assms(2)]
  show ?thesis
  proof (cases ep)
    case (JoinTag p)
    with request(2) have "joinTag A L emit (the_net w p) p a = Some (resp, b)" by (simp add: dispatch_def)
    then show ?thesis by (rule joinTag_keeps [OF assms(2)])
  next
    case (RunScenario name)
    with request(2) have "runScenario A L M emit (wd_nets w) (wd_ids w) name (rq_body rq) a = Some (resp, b)" by (simp add: dispatch_def)
    then show ?thesis by (rule runScenario_keeps [OF assms(2)])
  next
    case (UplinkTag p)
    with request(2) uplinkTag_keeps [OF assms(2), of L M "wd_write w" p "rq_body rq"] show ?thesis by (simp add: dispatch_def)
  next
    case PutGateway
    with request(2) k(6) [of "rq_body rq"] show ?thesis by (simp add: dispatch_def)
  next
    case CreateTags
    with request(2) k(2) [of "rq_body rq"] show ?thesis by (simp add: dispatch_def)
  next
    case (GetTag p)
    with request(2) k(3) [of p] show ?thesis by (simp add: dispatch_def)
  next
    case (DeleteTag p)
    with request(2) k(4) [of p] show ?thesis by (simp add: dispatch_def)
  next
    case ListEvents
    with request(2) k(7) [of "rq_query rq"] show ?thesis by (simp add: dispatch_def)
  qed (use request(2) k(1,5) assms(2) in \<open>simp_all add: dispatch_def\<close>)
next
  case (envelope s t env)
  with assms(2) orch_receive_keeps [of s L t env] show ?thesis by (simp add: the_store_def)
next
  case (environment fs now ent)
  then show ?thesis using op [OF assms(2), of "OpEnv fs now ent"] by simp
next
  case (elsewhere g h)
  with assms(2) show ?thesis by (simp add: the_store_def split: option.splits)
qed

lemma app_run_keeps: "app_run A L M emit a b \<Longrightarrow> keeps (the_store a) \<Longrightarrow> keeps (the_store b)"
  by (induction rule: app_run.induct) (auto intro: app_step_keeps)

end

section \<open>The connections of the fleet\<close>

definition fleet_inv :: "'e api \<Rightarrow> bool" where
  "fleet_inv a = (case ap_orch a of None \<Rightarrow> True | Some s \<Rightarrow> orch_inv s)"

lemma orch_inv_store [simp]: "orch_inv (s\<lparr>or_store := st\<rparr>) = orch_inv s"
  by (simp add: orch_inv_def)

lemma fleet_inv_simps [simp]:
  "fleet_inv (with_store st a) = fleet_inv a"
  "fleet_inv (a\<lparr>ap_orch := Some s\<rparr>) = orch_inv s"
  "fleet_inv (a\<lparr>ap_gw := g, ap_hub := h\<rparr>) = fleet_inv a"
  by (simp_all add: fleet_inv_def with_store_def split: option.splits)

lemma fleet_inv_Some: "ap_orch a = Some s \<Longrightarrow> fleet_inv a \<Longrightarrow> orch_inv s"
  by (simp add: fleet_inv_def)

lemma fleet_inv_stop: "fleet_inv a \<Longrightarrow> fleet_inv (stop_running t a)"
  by (auto simp: fleet_inv_def stop_running_def orch_Stop_inv split: option.splits)

lemma join_all_inv: "orch_inv s \<Longrightarrow> join_all A L emit nets ts s = Some (r, s') \<Longrightarrow> orch_inv s'"
proof (induction ts arbitrary: s r)
  case (Cons t ts)
  show ?case
  proof (cases "t_Enabled t")
    case True
    with Cons.prems(2) obtain q s1 r2 where "orch_Start A L emit (nets (t_ID t)) (t_ID t) s = Some (q, s1)"
      "join_all A L emit nets ts s1 = Some (r2, s')" by (auto split: option.splits)
    then show ?thesis using Cons.IH orch_Start_inv [OF Cons.prems(1)] by blast
  qed (use Cons in simp)
qed simp

lemma orch_JoinAll_orch_inv: "orch_inv s \<Longrightarrow> orch_JoinAll A L emit nets s = Some (r, s') \<Longrightarrow> orch_inv s'"
  by (auto simp: orch_JoinAll_def intro: join_all_inv [of "s\<lparr>or_store := st\<rparr>" for st, simplified] split: prod.splits sum.splits)

lemma orch_Burst_orch_inv: "orch_inv s \<Longrightarrow> orch_Burst L M emit ids n s = (r, s') \<Longrightarrow> orch_inv s'"
proof -
  have "orch_inv s \<Longrightarrow> orch_inv (burst_loop L M emit ids i n s)" for i n
    by (induction n arbitrary: i s) (simp_all add: orch_Uplink_inv)
  then show "orch_inv s \<Longrightarrow> orch_Burst L M emit ids n s = (r, s') \<Longrightarrow> orch_inv s'"
    by (metis orch_Burst_def snd_conv)
qed

lemma dispatch_fleet_inv:
  assumes "dispatch A L M emit w rq ep a = Some (resp, b)" and "fleet_inv a"
  shows "fleet_inv b"
proof (cases ep)
  case (JoinTag p)
  have start: "orch_inv s'" if "orch_Start A L emit net t s = Some (r, s')" "ap_orch a = Some s" for net t s r s'
    by (rule orch_Start_inv [OF fleet_inv_Some [OF that(2) assms(2)] that(1)])
  from JoinTag assms show ?thesis
    by (auto simp: dispatch_def joinTag_def split: sum.splits option.splits) (rule start; assumption)+
next
  case (UplinkTag p)
  have up: "orch_inv s'" if "orch_Uplink L M emit (wd_write w) t override s = (r, s')" "ap_orch a = Some s" for s t override r s'
    using orch_Uplink_inv [OF fleet_inv_Some [OF that(2) assms(2)], of L M emit "wd_write w" t override] that(1) by simp
  from UplinkTag assms show ?thesis
    by (auto simp: dispatch_def uplinkTag_def split: sum.splits option.splits prod.splits if_splits) (rule up; assumption)+
next
  case (RunScenario name)
  have join: "orch_inv s'" if "orch_JoinAll A L emit nets s = Some (r, s')" "ap_orch a = Some s" for nets s r s'
    by (rule orch_JoinAll_orch_inv [OF fleet_inv_Some [OF that(2) assms(2)] that(1)])
  have burst: "orch_inv s'" if "orch_Burst L M emit ids n s = (r, s')" "ap_orch a = Some s" for ids n s r s'
    by (rule orch_Burst_orch_inv [OF fleet_inv_Some [OF that(2) assms(2)] that(1)])
  from RunScenario assms show ?thesis
    by (auto simp: dispatch_def runScenario_def split: sum.splits option.splits prod.splits if_splits)
      (rule join burst; assumption)+
next
  case (DeleteTag p)
  with assms show ?thesis
    by (auto simp: dispatch_def deleteTag_def Let_def fleet_inv_stop split: sum.splits prod.splits)
next
  case (GetTag p)
  with assms show ?thesis by (auto simp: dispatch_def getTag_def split: sum.splits prod.splits)
next
  case CreateTags
  with assms show ?thesis
    by (auto simp: dispatch_def createTags_def Let_def simp del: create_loop.simps split: sum.splits prod.splits)
qed (use assms in \<open>auto simp: dispatch_def listTags_def getGateway_def putGateway_def listEvents_def Let_def
      split: sum.splits prod.splits\<close>)

lemma app_step_fleet_inv:
  assumes "app_step A L M emit a b" and "fleet_inv a"
  shows "fleet_inv b"
  using assms(1)
proof (cases rule: app_step.cases)
  case (request rq ep w resp)
  from dispatch_fleet_inv [OF request(2) assms(2)] show ?thesis .
qed (use assms(2) in \<open>auto simp: fleet_inv_def [of a] orch_receive_inv\<close>)

lemma app_run_fleet_inv: "app_run A L M emit a b \<Longrightarrow> fleet_inv a \<Longrightarrow> fleet_inv b"
  by (induction rule: app_run.induct) (auto intro: app_step_fleet_inv)

section \<open>The invariant of the running app\<close>

text \<open>The publisher writes to the store through the event repository only.\<close>

lemma Publish_store: "fst (Publish e (st, p)) = exec_op (OpAppend e) st"
  by (simp add: Publish_def Let_def split: prod.splits)

definition tables_ok :: "store \<Rightarrow> bool" where
  "tables_ok st = (store_inv st \<and> gateway_inv st)"

definition nonce_floor :: "int \<Rightarrow> enat \<Rightarrow> store \<Rightarrow> bool" where
  "nonce_floor t m st = (store_inv st \<and> m \<le> counter_mark sr_dev_nonce t st)"

interpretation app_tables: store_use tables_ok Publish
  by unfold_locales (simp_all add: tables_ok_def Publish_store exec_op_inv exec_op_gateway_inv del: exec_op.simps)

lemma nonce_floor_op:
  assumes "nonce_floor t m st"
  shows "nonce_floor t m (exec_op op st)"
proof -
  have "counter_mark sr_dev_nonce t st \<le> counter_mark sr_dev_nonce t (exec_op op st)"
    by (rule counter_mark_op) (use assms in \<open>simp_all add: nonce_floor_def nonce_row_def fcnt_row_def down_row_def joined_row_def\<close>)
  with assms show ?thesis by (auto simp: nonce_floor_def exec_op_inv simp del: exec_op.simps intro: order_trans)
qed

interpretation app_nonces: store_use "nonce_floor t m" Publish for t :: int and m :: enat
  by unfold_locales (simp_all add: Publish_store nonce_floor_op del: exec_op.simps)

text \<open>C23: however the web app is used, it keeps what its parts rely on. Over any sequence of requests, of
  envelopes for the running tags and of database failures, the tables stay well formed (every tag has
  one session, the keys and addresses are well formed), the stored gateway EUI stays valid, no tag's
  DevNonce counter ever goes back, and the open connections are those of the running tags, one each.\<close>

theorem api_invariant:
  assumes "app_run A L M Publish a b"
    and "store_inv (the_store a)" and "gateway_inv (the_store a)" and "fleet_inv a"
  shows "store_inv (the_store b) \<and> gateway_inv (the_store b) \<and> fleet_inv b \<and>
    counter_mark sr_dev_nonce t (the_store a) \<le> counter_mark sr_dev_nonce t (the_store b)"
  using app_tables.app_run_keeps [OF assms(1)] app_run_fleet_inv [OF assms(1,4)] assms(2,3)
    app_nonces.app_run_keeps [OF assms(1), of t "counter_mark sr_dev_nonce t (the_store a)"]
  by (simp add: tables_ok_def nonce_floor_def)

definition feed_api :: "publisher api" where
  "feed_api = fleet_api (orch_New (fleet_store True) \<lparr>pb_hub = NewHub, pb_metrics = None\<rparr>)"

theorem api_invariant_witness:
  "\<exists>b resp w. route ''DELETE'' [''api'', ''tags'', ''1''] = Some (DeleteTag ''1'') \<and>
     dispatch toy_aes toy_lorawan toy_math Publish w \<lparr>rq_method = ''DELETE'', rq_path = [''api'', ''tags'', ''1''], rq_query = (\<lambda>_. []), rq_body = []\<rparr>
       (DeleteTag ''1'') feed_api = Some (resp, b) \<and> store_inv (the_store b) \<and> fleet_inv b"
proof -
  let ?rq = "\<lparr>rq_method = ''DELETE'', rq_path = [''api'', ''tags'', ''1''], rq_query = (\<lambda>_. []), rq_body = []\<rparr>"
  obtain resp b where d: "dispatch toy_aes toy_lorawan toy_math Publish w ?rq (DeleteTag ''1'') feed_api = Some (resp, b)" for w
    by (cases "deleteTag ''1'' feed_api") (auto simp: dispatch_def)
  have r: "route ''DELETE'' [''api'', ''tags'', ''1''] = Some (DeleteTag ''1'')" by (simp add: route_def)
  have "app_run toy_aes toy_lorawan toy_math Publish feed_api b"
    by (rule app_run.more [OF app_run.here app_step.request [OF _ d]]) (simp add: r)
  moreover have "the_store feed_api = fleet_store True"
    by (simp add: feed_api_def fleet_api_def NewAPI_def the_store_def orch_New_def)
  moreover have "gateway_inv (fleet_store True)"
    by (simp add: gateway_inv_def fleet_store_def Let_def upd_session_def insert_tag_def store_New_def)
  moreover have "fleet_inv feed_api"
    by (simp add: feed_api_def fleet_api_def NewAPI_def fleet_inv_def orch_inv_New)
  ultimately show ?thesis
    using api_invariant [of toy_aes toy_lorawan toy_math feed_api b 1] fleet_store_inv r d by auto
qed

end
