(* ===== verification/Config.thy ===== *)
theory Config
  imports Euid
begin

text \<open>
  The bootstrap configuration (\<open>internal/config/config.go\<close>), its validation, and the log level the
  server derives from it (\<open>cmd/cylon/logging.go\<close>). The viper library, which layers environment,
  file and defaults, is a parameter: \<open>v_ReadInConfig\<close> reads the file, \<open>v_Unmarshal\<close> decodes the
  layered settings given the registered defaults and the file that was read.
\<close>

record server_config =
  HTTPListen :: string
  MetricsListen :: string
  LogLevel :: string

record store_config =
  StorePath :: string

record connection_config =
  CredsDir :: string

record gateway_config =
  cfg_EUI :: string
  cfg_EUIPrefix :: string
  TCPListen :: string
  LNSURL :: string
  cfg_Connection :: connection_config

record sim_config =
  Realtime :: bool

record config =
  cfg_Server :: server_config
  cfg_Store :: store_config
  cfg_Gateway :: gateway_config
  cfg_Sim :: sim_config

definition validLogLevels :: "string \<Rightarrow> bool" where
  "validLogLevels s = (s \<in> set [''debug'', ''info'', ''warning'', ''warn'', ''error''])"

text \<open>The regular expression of sixteen hex characters.\<close>

definition euiRe :: "string \<Rightarrow> bool" where
  "euiRe s = (length s = 16 \<and> list_all is_hex s)"

text \<open>The regular expression of one to eight pairs of hex characters.\<close>

definition euiPrefixRe :: "string \<Rightarrow> bool" where
  "euiPrefixRe s = (even (length s) \<and> 2 \<le> length s \<and> length s \<le> 16 \<and> list_all is_hex s)"

definition Default :: config where
  "Default =
     \<lparr>cfg_Server = \<lparr>HTTPListen = '':8080'', MetricsListen = '':9100'', LogLevel = ''info''\<rparr>,
      cfg_Store = \<lparr>StorePath = ''/var/lib/cylon/cylon.db''\<rparr>,
      cfg_Gateway = \<lparr>cfg_EUI = [], cfg_EUIPrefix = [], TCPListen = '':6000'', LNSURL = [],
                 cfg_Connection = \<lparr>CredsDir = ''/etc/cylon/creds''\<rparr>\<rparr>,
      cfg_Sim = \<lparr>Realtime = True\<rparr>\<rparr>"

definition Validate :: "config \<Rightarrow> unit res" where
  "Validate c =
     (if HTTPListen (cfg_Server c) = [] then Inl (Err ''server.http_listen must not be empty'')
      else if \<not> validLogLevels (strings_ToLower (LogLevel (cfg_Server c)))
      then Inl (Err ''server.log_level is invalid (want debug|info|warning|error)'')
      else if StorePath (cfg_Store c) = [] then Inl (Err ''store.path must not be empty'')
      else if cfg_EUI (cfg_Gateway c) \<noteq> [] \<and> \<not> euiRe (cfg_EUI (cfg_Gateway c))
      then Inl (Err ''gateway.eui is invalid (want 16 hex chars)'')
      else if cfg_EUIPrefix (cfg_Gateway c) \<noteq> [] \<and> \<not> euiPrefixRe (cfg_EUIPrefix (cfg_Gateway c))
      then Inl (Err ''gateway.eui_prefix is invalid (want even-length hex up to 16 chars)'')
      else Inr ())"

record viper =
  v_ReadInConfig :: "string \<Rightarrow> unit res"
  v_Unmarshal :: "config \<Rightarrow> string \<Rightarrow> config res"

definition Load :: "viper \<Rightarrow> string \<Rightarrow> config res" where
  "Load v path =
     bindE (if path \<noteq> [] then wrapE ''reading config'' (v_ReadInConfig v path) else Inr ()) (\<lambda>_.
     bindE (wrapE ''decoding config'' (v_Unmarshal v Default path)) (\<lambda>cfg.
     bindE (Validate cfg) (\<lambda>_. Inr cfg)))"

datatype slog_level = LevelDebug | LevelInfo | LevelWarn | LevelError

definition setupLogger :: "string \<Rightarrow> slog_level" where
  "setupLogger level =
     (let l = strings_ToLower level in
      if l = ''debug'' then LevelDebug
      else if l = ''warning'' \<or> l = ''warn'' then LevelWarn
      else if l = ''error'' then LevelError
      else LevelInfo)"

text \<open>What a validated configuration promises to the rest of the program.\<close>

definition config_ok :: "config \<Rightarrow> bool" where
  "config_ok c =
     (HTTPListen (cfg_Server c) \<noteq> [] \<and> StorePath (cfg_Store c) \<noteq> [] \<and>
      validLogLevels (strings_ToLower (LogLevel (cfg_Server c))) \<and>
      (cfg_EUI (cfg_Gateway c) \<noteq> [] \<longrightarrow> is_ok (NormalizeEUI (cfg_EUI (cfg_Gateway c)))) \<and>
      is_ok (eui_head (strings_ToLower (strings_TrimSpace (cfg_EUIPrefix (cfg_Gateway c))))))"

lemma hex_not_space: "is_hex c \<Longrightarrow> \<not> is_space c"
  by (auto simp: is_hex_def hex_val_def is_space_def Let_def split: if_splits)

lemma TrimSpace_hex: "list_all is_hex s \<Longrightarrow> strings_TrimSpace s = s"
  by (rule TrimSpace_no_space) (auto simp: list_all_iff hex_not_space)

lemma euiRe_normalizes: "euiRe s \<Longrightarrow> is_ok (NormalizeEUI s)"
  by (auto simp: is_ok_iff euiRe_def NormalizeEUI_Inr_iff TrimSpace_hex)

lemma euiPrefixRe_head: "s = [] \<or> euiPrefixRe s \<Longrightarrow> is_ok (eui_head (strings_ToLower (strings_TrimSpace s)))"
  by (auto simp: euiPrefixRe_def eui_head_ok_iff TrimSpace_hex)

section \<open>Properties\<close>

text \<open>A configuration that \<open>Load\<close> returns has passed validation, so the identity it configures
  always normalises, its EUI prefix is always accepted by the EUI generator (given eight bytes of
  entropy), its listen address and database path are usable, and its log level names a level (the
  logger falls back to the info level for no validated name); the built-in defaults pass.\<close>

theorem load_config_ok:
  assumes "Load v path = Inr c"
  shows "config_ok c \<and> (8 \<le> length r \<longrightarrow> is_ok (fst (GenerateEUI (cfg_EUIPrefix (cfg_Gateway c)) r)))
    \<and> (setupLogger (LogLevel (cfg_Server c)) = LevelInfo \<longleftrightarrow>
         strings_ToLower (LogLevel (cfg_Server c)) = ''info'')
    \<and> Validate Default = Inr ()"
proof -
  have v: "Validate c = Inr ()" using assms by (auto simp: Load_def res_simps)
  then have "config_ok c"
    unfolding config_ok_def
    by (auto simp: Validate_def euiRe_normalizes euiPrefixRe_head split: if_splits)
  moreover have "Validate Default = Inr ()" by code_simp
  moreover have "setupLogger (LogLevel (cfg_Server c)) = LevelInfo \<longleftrightarrow>
      strings_ToLower (LogLevel (cfg_Server c)) = ''info''"
    using \<open>config_ok c\<close> by (auto simp: config_ok_def validLogLevels_def setupLogger_def Let_def)
  ultimately show ?thesis using GenerateEUI_ok by (auto simp: config_ok_def)
qed

theorem load_config_ok_witness:
  "\<exists>v c. Load v ''cylon.yaml'' = Inr c \<and> cfg_EUI (cfg_Gateway c) = ''0102030405060708'' \<and> config_ok c"
proof -
  define c where "c = Default\<lparr>cfg_Gateway := (cfg_Gateway Default)\<lparr>cfg_EUI := ''0102030405060708''\<rparr>\<rparr>"
  define v where "v = \<lparr>v_ReadInConfig = (\<lambda>_. Inr ()), v_Unmarshal = (\<lambda>_ _. Inr c)\<rparr>"
  have "Validate c = Inr ()" unfolding c_def by code_simp
  then have l: "Load v ''cylon.yaml'' = Inr c" by (simp add: Load_def v_def)
  moreover have "cfg_EUI (cfg_Gateway c) = ''0102030405060708''" by (simp add: c_def)
  moreover have "config_ok c" using load_config_ok [OF l] by blast
  ultimately show ?thesis by blast
qed

end
