(* ===== verification/Cli.thy ===== *)
theory Cli
  imports Rest MockLns Config
begin

text \<open>
  The three programs: the web app (\<open>cmd/cylon\<close>: \<open>serve.go\<close>, \<open>gatewayeui.go\<close>, \<open>common.go\<close>), the standalone
  end-device (\<open>cmd/tag/main.go\<close>) and the emulated network server (\<open>cmd/mock-lns/main.go\<close>). Their parsed
  flags are records. Opening the database and migrating it (\<open>internal/db\<close>, drivers and goose) is an
  argument, and so are the sockets, as in the parts below.
\<close>

section \<open>The emulated network server\<close>

definition parse_flag :: "nat \<Rightarrow> string \<Rightarrow> string \<Rightarrow> bytes res" where
  "parse_flag n msg s =
     (case hex_DecodeString s of
        Inl e \<Rightarrow> Inl (Err msg)
      | Inr b \<Rightarrow> if length b \<noteq> n then Inl (Err msg) else Inr b)"

definition parseKey :: "string \<Rightarrow> aes128_key res" where
  "parseKey s = parse_flag 16 ''app-key must be 32 hex chars'' s"

definition parseNetID :: "string \<Rightarrow> net_id res" where
  "parseNetID s = parse_flag 3 ''netid must be 6 hex chars'' s"

definition mock_parseDevAddr :: "string \<Rightarrow> dev_addr res" where
  "mock_parseDevAddr s = parse_flag 4 ''devaddr must be 8 hex chars'' s"

record mock_flags =
  mf_region :: string
  mf_appKey :: string
  mf_netid :: string
  mf_devaddr :: string
  mf_rx2Freq :: u32

definition default_mock_flags :: mock_flags where
  "default_mock_flags = \<lparr>mf_region = ''EU863'', mf_appKey = [], mf_netid = ''000001'', mf_devaddr = ''01020304'', mf_rx2Freq = 869525000\<rparr>"

text \<open>The server that \<open>run\<close> goes on to serve, or why it does not.\<close>

definition mock_lns_run :: "mock_flags \<Rightarrow> mock res" where
  "mock_lns_run f =
     (if mf_appKey f = [] then Inl (Err ''--app-key is required'')
      else
        bindE (parseKey (mf_appKey f)) (\<lambda>appKey.
        bindE (parseNetID (mf_netid f)) (\<lambda>netID.
        bindE (mock_parseDevAddr (mf_devaddr f)) (\<lambda>devAddr.
        Inr (mock_New \<lparr>mcfg_Region = mf_region f, mcfg_NetID = netID, mcfg_AppKey = appKey, mcfg_DevAddr = devAddr,
          mcfg_JoinNonce = 0, mcfg_RX2Freq = mf_rx2Freq f, mcfg_RX2DR = 0, mcfg_RxDelay = 0\<rparr>)))))"

section \<open>The standalone end-device\<close>

record tag_flags =
  tf_devEUI :: string
  tf_joinEUI :: string
  tf_appKey :: string
  tf_class :: string
  tf_region :: string
  tf_dr :: int
  tf_fport :: int
  tf_payload :: string
  tf_count :: int

definition default_tag_flags :: tag_flags where
  "default_tag_flags = \<lparr>tf_devEUI = [], tf_joinEUI = [], tf_appKey = [], tf_class = ''A'', tf_region = ''EU868'', tf_dr = 5,
     tf_fport = 10, tf_payload = ''counter'', tf_count = 1\<rparr>"

definition new_tag_of :: "tag_flags \<Rightarrow> new_tag" where
  "new_tag_of f = \<lparr>nt_DevEUI = tf_devEUI f, nt_JoinEUI = tf_joinEUI f, nt_AppKey = tf_appKey f, nt_Class = tf_class f,
     nt_Region = tf_region f, nt_SubBand = 0, nt_DefaultDR = tf_dr f, nt_FPort = tf_fport f,
     nt_PayloadType = tf_payload f, nt_PayloadConfig = [], nt_Schedule = [], nt_Enabled = True\<rparr>"

text \<open>Looking the tag up by its DevEUI, and creating it when it is not there.\<close>

definition provision :: "tag_flags \<Rightarrow> store \<Rightarrow> (tag, store) run" where
  "provision f st =
     (case tags_GetByDevEUI (tf_devEUI f) st of
        (Inr t, st) \<Rightarrow> (Inr t, st)
      | (Inl e, st) \<Rightarrow>
          if errors_Is e ErrNotFound then
            (case tags_Create (new_tag_of f) st of (r, st) \<Rightarrow> (wrapE ''provisioning tag'' r, st))
          else (Inl (Wrap ''provisioning tag'' e), st))"

text \<open>
  The sending loop. Each round has what arrived before it, the outcome of its write, and whether the
  program was told to stop before the interval was over; without a further round it goes on waiting
  (\<open>None\<close>).
\<close>

fun send_loop :: "lorawan \<Rightarrow> go_math \<Rightarrow> int \<Rightarrow> int \<Rightarrow> (envelope list \<times> write_fault \<times> bool) list \<Rightarrow> client \<Rightarrow> store \<Rightarrow>
    unit res option \<times> client \<times> store" where
  "send_loop L M count i [] c st = (if count \<noteq> 0 \<and> \<not> i < count then Some (Inr ()) else None, c, st)"
| "send_loop L M count i ((envs, w, stop) # rounds) c st =
     (if count \<noteq> 0 \<and> \<not> i < count then (Some (Inr ()), c, st)
      else
        case dispatch_all L envs c st of (_, c, st) \<Rightarrow>
        case SendUplink L M w None c st of
          (Inl e, c, st) \<Rightarrow> (Some (Inl (Wrap ''uplink'' e)), c, st)
        | (Inr _, c, st) \<Rightarrow> if stop then (Some (Inr ()), c, st) else send_loop L M count (i + 1) rounds c st)"

text \<open>After the connection is up: announce, join unless the stored session has, and send.\<close>

definition tag_session :: "aes_lib \<Rightarrow> lorawan \<Rightarrow> go_math \<Rightarrow> net \<Rightarrow> (envelope list \<times> write_fault \<times> bool) list \<Rightarrow> int \<Rightarrow> int \<Rightarrow>
    client \<Rightarrow> store \<Rightarrow> unit res option \<times> client \<times> store" where
  "tag_session A L M net rounds count tid c st =
     (case Hello (ne_hello net) c of
        (Inl e, c) \<Rightarrow> (Some (Inl e), c, st)
      | (Inr _, c) \<Rightarrow>
          (case sessions_Get tid st of
             (Inl e, st) \<Rightarrow> (Some (Inl e), c, st)
           | (Inr sess, st) \<Rightarrow>
               if s_Joined sess then send_loop L M count 0 rounds c st
               else
                 (case client_Join A L (ne_join net) (ne_envs net) (ne_cancelled net) c st of
                    (None, c, st) \<Rightarrow> (None, c, st)
                  | (Some (Inl e), c, st) \<Rightarrow> (Some (Inl (Wrap ''join'' e)), c, st)
                  | (Some (Inr _), c, st) \<Rightarrow> send_loop L M count 0 rounds c st)))"

text \<open>
  \<open>run\<close>, over the opened and migrated store or the error of that. The client is \<open>None\<close> when the program
  ends before it has one.
\<close>

definition tag_run :: "aes_lib \<Rightarrow> lorawan \<Rightarrow> go_math \<Rightarrow> net \<Rightarrow> (envelope list \<times> write_fault \<times> bool) list \<Rightarrow> string \<Rightarrow> store res \<Rightarrow>
    tag_flags \<Rightarrow> unit res option \<times> client option \<times> store option" where
  "tag_run A L M net rounds key opened f =
     (if tf_devEUI f = [] \<or> tf_joinEUI f = [] \<or> tf_appKey f = [] then
        (Some (Inl (Err ''--dev-eui, --join-eui and --app-key are required'')), None, None)
      else case newCipher A key of
        Inl e \<Rightarrow> (Some (Inl e), None, None)
      | Inr cipher \<Rightarrow>
          (case opened of
             Inl e \<Rightarrow> (Some (Inl e), None, None)
           | Inr st \<Rightarrow>
               (case provision f (st\<lparr>st_cipher := cipher\<rparr>) of
                  (Inl e, st) \<Rightarrow> (Some (Inl e), None, Some st)
                | (Inr tg, st) \<Rightarrow>
                    (case NewDevice tg of
                       Inl e \<Rightarrow> (Some (Inl e), None, Some st)
                     | Inr dev \<Rightarrow>
                         (case ne_dial net of
                            Some e \<Rightarrow> (Some (Inl e), None, Some st)
                          | None \<Rightarrow>
                              (case tag_session A L M net rounds (tf_count f) (t_ID tg) (NewClient dev) st of
                                 (r, c, st) \<Rightarrow> (r, Some c, Some st)))))))"

section \<open>The web app\<close>

definition station_version :: "string \<Rightarrow> version" where
  "station_version ver = \<lparr>ve_MsgType = [], ve_Station = ''cylon'', ve_Firmware = ver, ve_Package = [], ve_Model = ''cylon-sim'',
     ve_Protocol = 2, ve_Features = []\<rparr>"

text \<open>What the world answers when the gateway starts.\<close>

record lns_world =
  lw_dial :: "err option"
  lw_faults :: "err option list"
  lw_reads :: "string res list"
  lw_listen :: "err option"

definition ListenTCP :: "string \<Rightarrow> err option \<Rightarrow> server res" where
  "ListenTCP addr e = net_Listen addr e"

text \<open>
  \<open>startGateway\<close>: the connection to the network server and the gateway with its listener, both there or
  neither; the connection is returned in either case. \<open>None\<close> while the handshake waits.
\<close>

definition startGateway :: "lns_world \<Rightarrow> string \<Rightarrow> string \<Rightarrow> string \<Rightarrow> ((gateway \<times> server) res \<times> lns \<times> string res list) option" where
  "startGateway w tcp ver eui =
     (case ConnectLNS (lw_dial w) (lw_faults w) (station_version ver) (lw_reads w) of
        None \<Rightarrow> None
      | Some (Inl e, l, rs) \<Rightarrow> Some (Inl (Wrap ''connecting to LNS'' e), l, rs)
      | Some (Inr _, l, rs) \<Rightarrow>
          (case ListenTCP tcp (lw_listen w) of
             Inl e \<Rightarrow> Some (Inl e, lns_Close l, rs)
           | Inr srv \<Rightarrow> Some (Inr (gateway_New eui, srv), l, rs)))"

text \<open>The close function that \<open>startGateway\<close> returns.\<close>

definition closeGW :: "server \<Rightarrow> lns \<Rightarrow> server \<times> lns" where
  "closeGW srv l = (sv_Close srv, lns_Close l)"

text \<open>The gauges that \<open>bindGauges\<close> registers, as they read.\<close>

definition gauges :: "hub \<Rightarrow> gateway option \<Rightarrow> 'e orch option \<Rightarrow> (string \<times> nat) list" where
  "gauges h gw orch =
     [(''cylon_ws_clients'', hub_Clients h),
      (''cylon_active_tags'', case orch of None \<Rightarrow> 0 | Some s \<Rightarrow> card (orch_Running s)),
      (''cylon_tag_conns'', case gw of None \<Rightarrow> 0 | Some g \<Rightarrow> ConnCount g)]"

definition NewPublisher :: "hub \<Rightarrow> publisher" where
  "NewPublisher h = \<lparr>pb_hub = h,
     pb_metrics = Some \<lparr>mt_Joins = (\<lambda>_. 0), mt_Uplinks = (\<lambda>_. 0), mt_Downlinks = (\<lambda>_. 0)\<rparr>\<rparr>"

record app =
  app_api :: "publisher api"
  app_gateway :: "(gateway \<times> server \<times> lns) option"
  app_level :: slog_level

definition loadConfig :: "viper \<Rightarrow> string res \<Rightarrow> config res" where
  "loadConfig v flag = bindE flag (\<lambda>path. Load v path)"

text \<open>
  \<open>serve\<close> up to the point where the two HTTP servers run. \<open>opened path\<close> is the migrated database at
  \<open>path\<close>; \<open>addr\<close> is the address the listener got. The events of the running tags go to the publisher.
\<close>

definition cylon_serve :: "viper \<Rightarrow> aes_lib \<Rightarrow> (string \<Rightarrow> store res) \<Rightarrow> lns_world \<Rightarrow> string \<Rightarrow> string \<Rightarrow> string \<Rightarrow> string res \<Rightarrow> app res option" where
  "cylon_serve v A opened w addr ver key flag =
     (case loadConfig v flag of
        Inl e \<Rightarrow> Some (Inl e)
      | Inr cfg \<Rightarrow>
          (case opened (StorePath (cfg_Store cfg)) of
             Inl e \<Rightarrow> Some (Inl e)
           | Inr st \<Rightarrow>
               (case newCipher A key of
                  Inl e \<Rightarrow> Some (Inl e)
                | Inr cipher \<Rightarrow>
                    (case EnsureEUI (cfg_EUI (cfg_Gateway cfg)) (cfg_EUIPrefix (cfg_Gateway cfg)) (st\<lparr>st_cipher := cipher\<rparr>) of
                       (Inl e, st) \<Rightarrow> Some (Inl e)
                     | (Inr g, st) \<Rightarrow>
                         if LNSURL (cfg_Gateway cfg) = [] then
                           Some (Inr \<lparr>app_api = NewAPI st NewHub None None ver (g_eui g), app_gateway = None,
                                      app_level = setupLogger (LogLevel (cfg_Server cfg))\<rparr>)
                         else
                           (case startGateway w (TCPListen (cfg_Gateway cfg)) ver (g_eui g) of
                              None \<Rightarrow> None
                            | Some (Inl e, l, rs) \<Rightarrow> Some (Inl e)
                            | Some (Inr (gw, srv), l, rs) \<Rightarrow>
                                Some (Inr \<lparr>app_api = NewAPI st NewHub (Some (orch_New st (NewPublisher NewHub))) (Some (addr, gw)) ver (g_eui g),
                                           app_gateway = Some (gw, srv, l),
                                           app_level = setupLogger (LogLevel (cfg_Server cfg))\<rparr>))))))"

text \<open>The deferred clean-up of \<open>serve\<close>: the tags first, then the gateway.\<close>

definition serve_exit :: "app \<Rightarrow> app" where
  "serve_exit a =
     a\<lparr>app_api := (app_api a)\<lparr>ap_orch := map_option orch_StopAll (ap_orch (app_api a))\<rparr>,
       app_gateway := map_option (\<lambda>(gw, srv, l). (gw, closeGW srv l)) (app_gateway a)\<rparr>"

text \<open>\<open>gateway-eui\<close>: what it prints, and the store it leaves.\<close>

definition gateway_eui_cmd :: "viper \<Rightarrow> aes_lib \<Rightarrow> (string \<Rightarrow> store res) \<Rightarrow> string \<Rightarrow> string res \<Rightarrow> string \<Rightarrow> string res \<times> store option" where
  "gateway_eui_cmd v A opened key flag set_eui =
     (case loadConfig v flag of
        Inl e \<Rightarrow> (Inl e, None)
      | Inr cfg \<Rightarrow>
          (case opened (StorePath (cfg_Store cfg)) of
             Inl e \<Rightarrow> (Inl e, None)
           | Inr st \<Rightarrow>
               (case newCipher A key of
                  Inl e \<Rightarrow> (Inl e, Some st)
                | Inr cipher \<Rightarrow>
                    (case (if set_eui \<noteq> [] then SetEUI set_eui (st\<lparr>st_cipher := cipher\<rparr>)
                           else EnsureEUI (cfg_EUI (cfg_Gateway cfg)) (cfg_EUIPrefix (cfg_Gateway cfg)) (st\<lparr>st_cipher := cipher\<rparr>)) of
                       (r, st) \<Rightarrow> (mapE g_eui r, Some st)))))"

section \<open>Properties\<close>

lemma parse_flag_Inr: "parse_flag n msg s = Inr b \<longleftrightarrow> hex_DecodeString s = Inr b \<and> length b = n"
  by (auto simp: parse_flag_def split: sum.splits)

lemma startGateway_Inl: "startGateway w tcp ver eui = Some (Inl e, l, rs) \<Longrightarrow> ln_closed l"
  by (auto simp: startGateway_def ListenTCP_def net_Listen_def lns_Close_def dest: ConnectLNS_Inl split: option.splits sum.splits prod.splits)

lemma startGateway_Inr:
  "startGateway w tcp ver eui = Some (Inr (gw, srv), l, rs) \<Longrightarrow>
     gw = gateway_New eui \<and> srv = Listen \<and> \<not> ln_closed l \<and> ln_config l \<noteq> None"
  using ConnectLNS_Inr [of "lw_dial w" "lw_faults w" "station_version ver" "lw_reads w"]
  by (auto simp: startGateway_def ListenTCP_def net_Listen_def split: option.splits sum.splits prod.splits)

lemma send_loop_unjoined:
  assumes "\<not> cl_joined c" and "0 \<le> count" and "rounds \<noteq> []"
  shows "\<exists>c'. send_loop L M count 0 rounds c st = (Some (Inl (Wrap ''uplink'' (Err ''cannot send uplink before join''))), c', st) \<and>
    cl_out c' = cl_out c"
proof -
  obtain envs w stop rs where r: "rounds = (envs, w, stop) # rs" using assms(3) by (cases rounds) auto
  obtain hs c1 st1 where d: "dispatch_all L envs c st = (hs, c1, st1)" by (rule prod_cases3)
  have "st1 = st" using dispatch_unjoined_store [OF assms(1) d] by simp
  moreover have "\<not> cl_joined c1 \<and> cl_out c1 = cl_out c"
    using dispatch_all_frame [OF d] assms(1) by simp
  ultimately show ?thesis
    using assms(2) by (simp add: r d SendUplink_def)
qed

text \<open>The standalone end-device cannot be run twice. With a session that an earlier run has joined and
  stored, the program skips the join, and its first uplink is then refused by the client, which only
  knows of joins of its own: the program ends with that error, has sent nothing but its
  announcement, and has changed nothing in the store.\<close>

theorem tag_program_rerun:
  assumes "tf_devEUI f \<noteq> []" and "tf_joinEUI f \<noteq> []" and "tf_appKey f \<noteq> []"
    and "newCipher A key = Inr cipher" and "provision f (st\<lparr>st_cipher := cipher\<rparr>) = (Inr tg, st1)" and "NewDevice tg = Inr dev"
    and "sessions_Get (t_ID tg) st1 = (Inr sess, st2)" and "s_Joined sess"
    and "ne_dial net = None" and "ne_hello net = None" and "0 \<le> tf_count f" and "rounds \<noteq> []"
  shows "\<exists>c. tag_run A L M net rounds key (Inr st) f =
      (Some (Inl (Wrap ''uplink'' (Err ''cannot send uplink before join''))), Some c, Some st2) \<and>
    cl_out c = conn_line (hello_envelope (NewClient dev)) \<and> same_db st1 st2"
proof -
  let ?c = "(NewClient dev)\<lparr>cl_out := conn_line (hello_envelope (NewClient dev))\<rparr>"
  have "\<not> cl_joined ?c" by (simp add: NewClient_def)
  then obtain c' where l: "send_loop L M (tf_count f) 0 rounds ?c st2 =
      (Some (Inl (Wrap ''uplink'' (Err ''cannot send uplink before join''))), c', st2)" and out: "cl_out c' = cl_out ?c"
    using send_loop_unjoined [OF _ assms(11,12)] by blast
  have h: "Hello None (NewClient dev) = (Inr (), ?c)"
    by (simp add: Hello_def) (simp add: NewClient_def)
  have "tag_run A L M net rounds key (Inr st) f = (Some (Inl (Wrap ''uplink'' (Err ''cannot send uplink before join''))), Some c', Some st2)"
    by (simp add: tag_run_def assms tag_session_def h l)
  moreover have "same_db st1 st2" using sessions_Get_same [of st1 "t_ID tg"] assms(7) by simp
  ultimately show ?thesis using out by simp
qed

definition example_flags :: tag_flags where
  "example_flags = default_tag_flags\<lparr>tf_devEUI := nt_DevEUI example_new_tag, tf_joinEUI := nt_JoinEUI example_new_tag,
     tf_appKey := nt_AppKey example_new_tag\<rparr>"

lemma provision_fleet:
  assumes "db_up ((fleet_store True)\<lparr>db_faults := fs\<rparr>)"
  shows "provision example_flags ((fleet_store True)\<lparr>db_faults := fs\<rparr>) = tags_Get 1 ((fleet_store True)\<lparr>db_faults := fs\<rparr>)"
proof -
  let ?st = "(fleet_store True)\<lparr>db_faults := fs\<rparr>"
  have f: "find (\<lambda>r. tr_dev_eui r = nt_DevEUI example_new_tag) (db_tags (fleet_store True)) = find_tag 1 (fleet_store True)"
    by (simp add: fleet_store_def Let_def find_tag_def insert_tag_def store_New_def upd_session_def tag_row_of_def)
  have "tags_GetByDevEUI (nt_DevEUI example_new_tag) ?st = tags_Get 1 ?st"
    by (cases "''scanning tag''" ?st rule: sql_wrap_cases) (simp_all add: tags_GetByDevEUI_def tags_Get_def f)
  moreover obtain tg st1 where "tags_Get 1 ?st = (Inr tg, st1)" by (rule fleet_store [OF assms])
  ultimately show ?thesis by (simp add: provision_def example_flags_def default_tag_flags_def)
qed

theorem tag_program_rerun_witness:
  "\<exists>c st. tag_run toy_aes toy_lorawan toy_math quiet_net [([], None, False)] [] (Inr (fleet_store True)) example_flags =
     (Some (Inl (Wrap ''uplink'' (Err ''cannot send uplink before join''))), Some c, Some st) \<and> db_sessions st = db_sessions (fleet_store True)"
proof -
  let ?st = "(fleet_store True)\<lparr>db_faults := []\<rparr>"
  obtain tg dev sess st1 fs' where f: "tags_Get 1 ?st = (Inr tg, st1)" "NewDevice tg = Inr dev"
    "sessions_Get 1 st1 = (Inr sess, (fleet_store True)\<lparr>db_faults := fs'\<rparr>)" "s_Joined sess"
    by (rule fleet_store [OF fleet_store_up(1)])
  have c: "(fleet_store True)\<lparr>st_cipher := NewInsecureDisabled\<rparr> = ?st"
    by (simp add: fleet_store_up(2)) (simp add: fleet_store_def Let_def insert_tag_def store_New_def upd_session_def)
  have p: "provision example_flags ((fleet_store True)\<lparr>st_cipher := NewInsecureDisabled\<rparr>) = (Inr tg, st1)"
    unfolding c by (simp add: provision_fleet [OF fleet_store_up(1)] f(1))
  have t: "t_ID tg = 1"
    using f(1) by (cases "1 :: int" ?st rule: tags_Get_cases) (auto dest!: scanTag_id simp: find_tag_def find_Some_iff)
  have flags: "tf_devEUI example_flags \<noteq> []" "tf_joinEUI example_flags \<noteq> []" "tf_appKey example_flags \<noteq> []" "0 \<le> tf_count example_flags"
    by (simp_all add: example_flags_def default_tag_flags_def example_new_tag_def)
  have "sessions_Get (t_ID tg) st1 = (Inr sess, (fleet_store True)\<lparr>db_faults := fs'\<rparr>)" using f(3) t by simp
  from tag_program_rerun [OF flags(1-3) _ p f(2) this f(4) _ _ flags(4), of toy_aes "[]" quiet_net "[([], None, False)]"]
  show ?thesis by (fastforce simp: newCipher_def quiet_net_def)
qed

lemma gateway_Get_stored: "gateway_Get st = (Inr g, st') \<Longrightarrow> db_gateway st' = Some g"
  by (cases st rule: gateway_Get_cases) auto

lemma gateway_create_stored: "gateway_create e st = (Inr g, st') \<Longrightarrow> db_gateway st' = Some g"
  by (cases "''inserting gateway''" st rule: sql_wrap_cases)
    (auto simp: gateway_create_def Let_def dest: gateway_Get_stored split: option.splits)

lemma SetEUI_stored: "SetEUI e st = (Inr g, st') \<Longrightarrow> db_gateway st' = Some g"
proof (cases st rule: gateway_Get_cases)
  case (some g' fs)
  assume "SetEUI e st = (Inr g, st')"
  with some show ?thesis
    by (cases "''updating gateway eui''" "st\<lparr>db_faults := fs\<rparr>" rule: sql_wrap_cases)
      (auto simp: SetEUI_def Let_def dest: gateway_Get_stored split: sum.splits)
qed (auto simp: SetEUI_def dest: gateway_create_stored split: sum.splits)

lemma EnsureEUI_stored: "EnsureEUI c p st = (Inr g, st') \<Longrightarrow> db_gateway st' = Some g"
  by (cases st rule: gateway_Get_cases)
    (auto simp: EnsureEUI_def dest: SetEUI_stored gateway_create_stored split: if_splits sum.splits prod.splits)


definition example_config :: config where
  "example_config = Default\<lparr>cfg_Gateway := (cfg_Gateway Default)\<lparr>cfg_EUI := ''0102030405060708'', LNSURL := ''ws://127.0.0.1:7000''\<rparr>\<rparr>"

definition example_viper :: viper where
  "example_viper = \<lparr>v_ReadInConfig = (\<lambda>_. Inr ()), v_Unmarshal = (\<lambda>_ _. Inr example_config)\<rparr>"

definition example_router_config :: router_config where
  "example_router_config = \<lparr>rc_MsgType = TypeRouterConfig, rc_NetID = [1], rc_JoinEui = [[0, - 1]], rc_Region = ''EU863'',
     rc_HwSpec = ''sx1301/1'', rc_FreqRange = [863000000, 870000000], rc_DRs = [[12, 125, 0]], rc_Sx1301Conf = None,
     rc_NoCCA = True, rc_NoDC = True, rc_NoDwell = True, rc_MaxEIRP = 16\<rparr>"

definition example_world :: lns_world where
  "example_world = \<lparr>lw_dial = None, lw_faults = [], lw_reads = [Inr (json_print (enc_message (MRouterConfig example_router_config)))],
     lw_listen = None\<rparr>"

lemma example_startGateway: "\<exists>l rs. startGateway example_world tcp ver eui = Some (Inr (gateway_New eui, Listen), l, rs)"
proof -
  have "message_ok (MRouterConfig example_router_config)"
    by (simp add: message_ok_def router_config_ok_def example_router_config_def ascii_def int64_ok_def conf_ok_def TypeRouterConfig_def)
  then have "Decode (json_print (enc_message (MRouterConfig example_router_config))) = Inr (MRouterConfig example_router_config)"
    by (rule Decode_Encode) (simp add: Encode_def)
  then show ?thesis
    by (simp add: startGateway_def ListenTCP_def net_Listen_def ConnectLNS_def example_world_def lns_send_ok)
qed

lemma example_load: "loadConfig example_viper (Inr []) = Inr example_config"
proof -
  have "Validate example_config = Inr ()" by code_simp
  then show ?thesis by (simp add: loadConfig_def Load_def example_viper_def)
qed

lemma example_serve:
  obtains a where "cylon_serve example_viper toy_aes (\<lambda>_. Inr (store_New NewInsecureDisabled)) example_world ''127.0.0.1:6000'' ''dev'' [] (Inr []) =
    Some (Inr a)"
proof -
  have c: "(store_New NewInsecureDisabled)\<lparr>st_cipher := NewInsecureDisabled\<rparr> = store_New NewInsecureDisabled"
    by (simp add: store_New_def)
  have n: "NormalizeEUI ''0102030405060708'' = Inr ''0102030405060708''" by code_simp
  obtain g st1 where g: "SetEUI ''0102030405060708'' (store_New NewInsecureDisabled) = (Inr g, st1)"
    using SetEUI_up [OF db_up_New n] by blast
  obtain l rs where s: "startGateway example_world (TCPListen (cfg_Gateway example_config)) ''dev'' (g_eui g) = Some (Inr (gateway_New (g_eui g), Listen), l, rs)"
    using example_startGateway by blast
  have conf: "cfg_EUI (cfg_Gateway example_config) = ''0102030405060708''" "LNSURL (cfg_Gateway example_config) \<noteq> []"
    by (simp_all add: example_config_def)
  show thesis
    by (rule that) (simp add: cylon_serve_def example_load newCipher_def c conf EnsureEUI_def g s)
qed


end
