(* ===== verification/Metrics.thy ===== *)
theory Metrics
  imports Cli
begin

text \<open>
  The collectors of the web app (\<open>internal/metrics\<close>) and the gauges \<open>serve\<close> binds to them. The Prometheus
  registry is an argument: \<open>MustRegister\<close> panics (\<open>None\<close>) where it cannot register. What is relied on is its
  documented behaviour, that valid collectors with names of their own register. How the three counters
  that the program updates count is in \<open>Hub\<close>.
\<close>

section \<open>Collectors\<close>

datatype collector =
    CounterVec (co_name: string) (co_help: string) (co_labels: "string list")
  | Counter (co_name: string) (co_help: string)
  | Histogram (co_name: string) (co_help: string)
  | GaugeFunc (co_name: string) (co_help: string)

record 'r prom_lib =
  NewRegistry :: 'r
  MustRegister :: "collector list \<Rightarrow> 'r \<Rightarrow> 'r option"

record 'r metrics =
  me_reg :: 'r
  me_Uplinks :: collector
  me_Downlinks :: collector
  me_Joins :: collector
  me_JoinLatency :: collector
  me_RXWindowHits :: collector
  me_TxErrors :: collector
  me_DBWrites :: collector
  me_WSReconnects :: collector

definition metrics_New :: "'r prom_lib \<Rightarrow> 'r metrics option" where
  "metrics_New P =
     (let m = \<lparr>me_reg = NewRegistry P,
          me_Uplinks = CounterVec ''cylon_uplinks_total'' ''Uplinks sent by simulated tags.'' [''type''],
          me_Downlinks = CounterVec ''cylon_downlinks_total'' ''Downlinks delivered to tags.'' [''class''],
          me_Joins = CounterVec ''cylon_joins_total'' ''OTAA join attempts by result.'' [''result''],
          me_JoinLatency = Histogram ''cylon_join_latency_seconds'' ''OTAA join latency.'',
          me_RXWindowHits = CounterVec ''cylon_rx_window_hits_total'' ''Downlinks delivered per RX window.'' [''window''],
          me_TxErrors = Counter ''cylon_tx_errors_total'' ''Transmit errors.'',
          me_DBWrites = Counter ''cylon_db_writes_total'' ''Database write operations.'',
          me_WSReconnects = Counter ''cylon_ws_reconnects_total'' ''LNS WebSocket reconnects.''\<rparr>
      in case MustRegister P [me_Uplinks m, me_Downlinks m, me_Joins m, me_JoinLatency m, me_RXWindowHits m,
                              me_TxErrors m, me_DBWrites m, me_WSReconnects m] (me_reg m) of
           None \<Rightarrow> None
         | Some r \<Rightarrow> Some (m\<lparr>me_reg := r\<rparr>))"

definition BindGauge :: "'r prom_lib \<Rightarrow> string \<Rightarrow> string \<Rightarrow> 'r metrics \<Rightarrow> 'r metrics option" where
  "BindGauge P name help m = map_option (\<lambda>r. m\<lparr>me_reg := r\<rparr>) (MustRegister P [GaugeFunc name help] (me_reg m))"

text \<open>The gauges one after the other; \<open>gauges\<close> (\<open>Cli\<close>) has the values they read.\<close>

definition bindGauges :: "'r prom_lib \<Rightarrow> 'r metrics \<Rightarrow> 'r metrics option" where
  "bindGauges P m =
     (case BindGauge P ''cylon_ws_clients'' ''Connected WebSocket clients.'' m of
        None \<Rightarrow> None
      | Some m \<Rightarrow>
          (case BindGauge P ''cylon_active_tags'' ''Running simulated tags.'' m of
             None \<Rightarrow> None
           | Some m \<Rightarrow> BindGauge P ''cylon_tag_conns'' ''Tag TCP connections at the gateway.'' m))"

section \<open>What is relied on\<close>

definition metric_char :: "char \<Rightarrow> bool" where
  "metric_char c = (let n = of_char c :: nat in c = CHR ''_'' \<or> (97 \<le> n \<and> n \<le> 122) \<or> (65 \<le> n \<and> n \<le> 90) \<or> (48 \<le> n \<and> n \<le> 57))"

definition metric_name :: "string \<Rightarrow> bool" where
  "metric_name s = (s \<noteq> [] \<and> list_all metric_char s \<and> \<not> (48 \<le> (of_char (hd s) :: nat) \<and> (of_char (hd s) :: nat) \<le> 57))"

definition label_names :: "collector \<Rightarrow> string list" where
  "label_names c = (case c of CounterVec _ _ ls \<Rightarrow> ls | _ \<Rightarrow> [])"

definition collector_ok :: "collector \<Rightarrow> bool" where
  "collector_ok c = (metric_name (co_name c) \<and> list_all metric_name (label_names c) \<and> distinct (label_names c))"

definition prom_ok :: "'r prom_lib \<Rightarrow> ('r \<Rightarrow> string set) \<Rightarrow> bool" where
  "prom_ok P names =
     (names (NewRegistry P) = {} \<and>
      (\<forall>cs r. list_all collector_ok cs \<and> distinct (map co_name cs) \<and> set (map co_name cs) \<inter> names r = {} \<longrightarrow>
         (\<exists>r'. MustRegister P cs r = Some r' \<and> names r' = names r \<union> set (map co_name cs))))"

lemma prom_okD:
  assumes "prom_ok P names" and "list_all collector_ok cs" and "distinct (map co_name cs)" and "set (map co_name cs) \<inter> names r = {}"
  obtains r' where "MustRegister P cs r = Some r'" "names r' = names r \<union> set (map co_name cs)"
  using assms unfolding prom_ok_def by blast

lemma BindGauge_ok:
  assumes "prom_ok P names" and "metric_name n" and "n \<notin> names (me_reg m)"
  obtains m' where "BindGauge P n h m = Some m'" "names (me_reg m') = insert n (names (me_reg m))"
proof -
  obtain r' where "MustRegister P [GaugeFunc n h] (me_reg m) = Some r'" "names r' = names (me_reg m) \<union> {n}"
    by (rule prom_okD [OF assms(1), of "[GaugeFunc n h]" "me_reg m"]) (use assms(2,3) in \<open>simp_all add: collector_ok_def label_names_def\<close>)
  then show thesis by (intro that [of "m\<lparr>me_reg := r'\<rparr>"]) (simp_all add: BindGauge_def)
qed

section \<open>Registration never panics\<close>

definition counter_names :: "string list" where
  "counter_names = [''cylon_uplinks_total'', ''cylon_downlinks_total'', ''cylon_joins_total'', ''cylon_join_latency_seconds'',
     ''cylon_rx_window_hits_total'', ''cylon_tx_errors_total'', ''cylon_db_writes_total'', ''cylon_ws_reconnects_total'']"

definition gauge_names :: "string list" where
  "gauge_names = [''cylon_ws_clients'', ''cylon_active_tags'', ''cylon_tag_conns'']"

lemma names_ok: "list_all metric_name (counter_names @ gauge_names @ [''type'', ''class'', ''result'', ''window''])" "distinct (counter_names @ gauge_names)"
  by code_simp+

text \<open>The registered gauges are those whose values \<open>gauges\<close> lists.\<close>

lemma gauge_names: "map fst (gauges h gw orch) = gauge_names"
  by (simp add: gauges_def gauge_names_def)

lemma metrics_New_ok:
  assumes "prom_ok P names"
  obtains m where "metrics_New P = Some m" "names (me_reg m) = set counter_names"
proof -
  let ?cs = "[CounterVec ''cylon_uplinks_total'' ''Uplinks sent by simulated tags.'' [''type''],
      CounterVec ''cylon_downlinks_total'' ''Downlinks delivered to tags.'' [''class''],
      CounterVec ''cylon_joins_total'' ''OTAA join attempts by result.'' [''result''],
      Histogram ''cylon_join_latency_seconds'' ''OTAA join latency.'',
      CounterVec ''cylon_rx_window_hits_total'' ''Downlinks delivered per RX window.'' [''window''],
      Counter ''cylon_tx_errors_total'' ''Transmit errors.'', Counter ''cylon_db_writes_total'' ''Database write operations.'',
      Counter ''cylon_ws_reconnects_total'' ''LNS WebSocket reconnects.'']"
  have n: "map co_name ?cs = counter_names" by (simp add: counter_names_def)
  have ok: "list_all collector_ok ?cs"
    using names_ok(1) by (simp add: collector_ok_def label_names_def counter_names_def)
  have e: "names (NewRegistry P) = {}" using assms by (simp add: prom_ok_def)
  obtain r where "MustRegister P ?cs (NewRegistry P) = Some r" "names r = set counter_names"
    by (rule prom_okD [OF assms ok, of "NewRegistry P"]) (use names_ok(2) in \<open>simp_all only: n e, simp_all\<close>)
  then show thesis by (intro that) (simp add: metrics_New_def, simp)
qed

lemma bindGauges_ok:
  assumes "prom_ok P names" and "names (me_reg m) = set counter_names"
  obtains m' where "bindGauges P m = Some m'" "names (me_reg m') = set (counter_names @ gauge_names)"
proof -
  have v: "metric_name ''cylon_ws_clients''" "metric_name ''cylon_active_tags''" "metric_name ''cylon_tag_conns''"
    using names_ok(1) by (simp_all add: gauge_names_def)
  have d: "''cylon_ws_clients'' \<notin> set counter_names" "''cylon_active_tags'' \<notin> insert ''cylon_ws_clients'' (set counter_names)"
    "''cylon_tag_conns'' \<notin> insert ''cylon_active_tags'' (insert ''cylon_ws_clients'' (set counter_names))"
    by (simp_all add: counter_names_def)
  obtain m1 where 1: "BindGauge P ''cylon_ws_clients'' ''Connected WebSocket clients.'' m = Some m1"
    "names (me_reg m1) = insert ''cylon_ws_clients'' (set counter_names)"
    by (rule BindGauge_ok [OF assms(1) v(1), of m]) (use assms(2) d(1) in simp_all)
  obtain m2 where 2: "BindGauge P ''cylon_active_tags'' ''Running simulated tags.'' m1 = Some m2"
    "names (me_reg m2) = insert ''cylon_active_tags'' (insert ''cylon_ws_clients'' (set counter_names))"
    by (rule BindGauge_ok [OF assms(1) v(2), of m1]) (use 1(2) d(2) in simp_all)
  obtain m3 where 3: "BindGauge P ''cylon_tag_conns'' ''Tag TCP connections at the gateway.'' m2 = Some m3"
    "names (me_reg m3) = insert ''cylon_tag_conns'' (names (me_reg m2))"
    by (rule BindGauge_ok [OF assms(1) v(3), of m2]) (use 2(2) d(3) in simp_all)
  show thesis
    by (rule that [of m3]) (auto simp: bindGauges_def 1(1) 2 3 gauge_names_def)
qed

section \<open>An instance\<close>

text \<open>A registry that keeps the names it has, and refuses a name twice.\<close>

definition name_registry :: "string list prom_lib" where
  "name_registry = \<lparr>NewRegistry = [],
     MustRegister = (\<lambda>cs r. if list_all collector_ok cs \<and> distinct (map co_name cs) \<and> set (map co_name cs) \<inter> set r = {}
       then Some (map co_name cs @ r) else None)\<rparr>"

lemma name_registry_ok: "prom_ok name_registry set"
  by (auto simp: prom_ok_def name_registry_def)

end
