(* ===== verification/Shell.thy ===== *)
theory Shell
  imports Cli
begin

text \<open>
  Around the web app: opening the database file and running its migrations (\<open>internal/db\<close>, the
  \<open>migrate\<close> command), and the file server of the user interface (\<open>internal/api/spa.go\<close>). The SQLite
  driver, goose, the file system and \<open>http.FileServer\<close> are arguments.
\<close>

section \<open>Paths\<close>

text \<open>\<open>path.Clean\<close> over the segments between slashes; the segments kept so far are in reverse.\<close>

fun split_at :: "char \<Rightarrow> string \<Rightarrow> string list" where
  "split_at d [] = [[]]"
| "split_at d (c # s) =
     (if c = d then [] # split_at d s
      else case split_at d s of [] \<Rightarrow> [[c]] | w # ws \<Rightarrow> (c # w) # ws)"

fun clean_segs :: "bool \<Rightarrow> string list \<Rightarrow> string list \<Rightarrow> string list" where
  "clean_segs rooted kept [] = rev kept"
| "clean_segs rooted kept (s # ss) =
     (if s = [] \<or> s = ''.'' then clean_segs rooted kept ss
      else if s = ''..'' then
        (case kept of
           [] \<Rightarrow> clean_segs rooted (if rooted then [] else [s]) ss
         | k # ks \<Rightarrow> clean_segs rooted (if k = ''..'' then s # kept else ks) ss)
      else clean_segs rooted (s # kept) ss)"

fun join_slash :: "string list \<Rightarrow> string" where
  "join_slash [] = []"
| "join_slash [s] = s"
| "join_slash (s # ss) = s @ CHR ''/'' # join_slash ss"

definition path_Clean :: "string \<Rightarrow> string" where
  "path_Clean p =
     (let rooted = strings_HasPrefix p ''/'';
          out = (if rooted then ''/'' else []) @ join_slash (clean_segs rooted [] (split_at (CHR ''/'') p))
      in if out = [] then ''.'' else out)"

text \<open>\<open>filepath.Dir\<close> on Unix: all up to the last slash, cleaned.\<close>

definition filepath_Dir :: "string \<Rightarrow> string" where
  "filepath_Dir p = path_Clean (rev (dropWhile (\<lambda>c. c \<noteq> CHR ''/'') (rev p)))"

section \<open>The database file\<close>

text \<open>Of the driver: making a directory, opening a data source, reaching it.\<close>

record 'h sqlite =
  os_MkdirAll :: "string \<Rightarrow> err option"
  sql_Open :: "string \<Rightarrow> 'h res"
  db_Ping :: "'h \<Rightarrow> err option"

definition pragmas :: string where
  "pragmas = ''?_pragma=journal_mode(WAL)&_pragma=busy_timeout(5000)&_pragma=foreign_keys(ON)''"

text \<open>The result, and the handles that were closed again.\<close>

definition db_Open :: "'h sqlite \<Rightarrow> string \<Rightarrow> 'h res \<times> 'h list" where
  "db_Open D path =
     (let dir = filepath_Dir path;
          made = (if path \<noteq> '':memory:'' \<and> path \<noteq> [] \<and> dir \<noteq> [] \<and> dir \<noteq> ''.'' then os_MkdirAll D dir else None)
      in case made of
           Some e \<Rightarrow> (Inl (Wrap ''creating db dir'' e), [])
         | None \<Rightarrow>
             (case sql_Open D (''file:'' @ path @ pragmas) of
                Inl e \<Rightarrow> (Inl (Wrap ''opening sqlite'' e), [])
              | Inr h \<Rightarrow>
                  (case db_Ping D h of
                     Some e \<Rightarrow> (Inl (Wrap ''pinging sqlite'' e), [h])
                   | None \<Rightarrow> (Inr h, []))))"

record 'h goose =
  goose_SetDialect :: "string \<Rightarrow> err option"
  goose_Up :: "'h \<Rightarrow> string \<Rightarrow> err option"
  goose_Down :: "'h \<Rightarrow> string \<Rightarrow> err option"
  goose_Status :: "'h \<Rightarrow> string \<Rightarrow> err option"

definition of_err :: "err option \<Rightarrow> unit res" where
  "of_err e = (case e of None \<Rightarrow> Inr () | Some e \<Rightarrow> Inl e)"

definition db_Migrate :: "'h goose \<Rightarrow> 'h \<Rightarrow> string \<Rightarrow> unit res" where
  "db_Migrate G h command =
     (case goose_SetDialect G ''sqlite3'' of
        Some e \<Rightarrow> Inl (Wrap ''setting goose dialect'' e)
      | None \<Rightarrow>
          if command = [] \<or> command = ''up'' then of_err (goose_Up G h ''migrations'')
          else if command = ''down'' then of_err (goose_Down G h ''migrations'')
          else if command = ''status'' then of_err (goose_Status G h ''migrations'')
          else Inl (Err ''unknown migrate command''))"

text \<open>
  \<open>cylon migrate\<close>, with what its argument check lets through: at most one argument, one of the three.
  The result, and the handles that are closed when it returns.
\<close>

definition migrate_args_ok :: "string list \<Rightarrow> bool" where
  "migrate_args_ok args = (length args \<le> 1 \<and> list_all (\<lambda>a. a = ''up'' \<or> a = ''down'' \<or> a = ''status'') args)"

definition migrate_cmd :: "viper \<Rightarrow> 'h sqlite \<Rightarrow> 'h goose \<Rightarrow> string res \<Rightarrow> string list \<Rightarrow> unit res \<times> 'h list" where
  "migrate_cmd v D G flag args =
     (if \<not> migrate_args_ok args then (Inl (Err ''invalid arguments''), [])
      else case loadConfig v flag of
        Inl e \<Rightarrow> (Inl e, [])
      | Inr cfg \<Rightarrow>
          (case db_Open D (StorePath (cfg_Store cfg)) of
             (Inl e, shut) \<Rightarrow> (Inl e, shut)
           | (Inr h, shut) \<Rightarrow>
               (db_Migrate G h (case args of [a] \<Rightarrow> a | _ \<Rightarrow> ''up''), shut @ [h])))"

section \<open>The user interface\<close>

text \<open>The answer to a request for a path: a notice, or what the file server serves for a path.\<close>

datatype served = NotBuilt | FileServer string

definition SPAHandler :: "(string \<Rightarrow> bool) \<Rightarrow> string \<Rightarrow> served" where
  "SPAHandler present url_path =
     (if \<not> present ''index.html'' then NotBuilt
      else
        let upath = strings_TrimPrefix (path_Clean url_path) ''/'';
            upath = (if upath = [] then ''index.html'' else upath)
        in if present upath then FileServer url_path else FileServer ''/'')"

section \<open>Properties\<close>

text \<open>A handle that was opened is either the one returned or closed again.\<close>

lemma db_Open_closes: "db_Open D path = (r, shut) \<Longrightarrow> shut = [] \<or> (\<exists>h. shut = [h] \<and> \<not> is_ok r \<and> sql_Open D (''file:'' @ path @ pragmas) = Inr h)"
  by (auto simp: db_Open_def Let_def split: option.splits sum.splits if_splits)

lemma migrate_cmd_closes:
  assumes "migrate_cmd v D G flag args = (r, shut)" and "loadConfig v flag = Inr cfg" and "migrate_args_ok args"
    and "fst (db_Open D (StorePath (cfg_Store cfg))) = Inr h"
  shows "h \<in> set shut \<and> r = db_Migrate G h (case args of [a] \<Rightarrow> a | _ \<Rightarrow> ''up'')"
  using assms by (auto simp: migrate_cmd_def split: prod.splits sum.splits)

text \<open>No argument that the command accepts is unknown to \<open>Migrate\<close>.\<close>

lemma migrate_known:
  assumes "migrate_args_ok args" and "goose_SetDialect G ''sqlite3'' = None"
  shows "db_Migrate G h (case args of [a] \<Rightarrow> a | _ \<Rightarrow> ''up'') \<in>
    {of_err (goose_Up G h ''migrations''), of_err (goose_Down G h ''migrations''), of_err (goose_Status G h ''migrations'')}"
  using assms by (cases args) (auto simp: migrate_args_ok_def db_Migrate_def)

lemma clean_segs_ordinary:
  "list_all (\<lambda>s. s \<noteq> [] \<and> s \<noteq> ''.'' \<and> s \<noteq> ''..'') kept \<Longrightarrow>
     list_all (\<lambda>s. s \<noteq> [] \<and> s \<noteq> ''.'' \<and> s \<noteq> ''..'') (clean_segs True kept ss)"
  by (induction True kept ss rule: clean_segs.induct) (auto split: list.splits)

lemma split_at_parts: "w \<in> set (split_at d s) \<Longrightarrow> d \<notin> set w"
  by (induction s arbitrary: w) (auto split: if_splits list.splits)

lemma clean_segs_parts: "set (clean_segs r kept ss) \<subseteq> set kept \<union> set ss"
  by (induction r kept ss rule: clean_segs.induct) (auto split: list.splits if_splits)

text \<open>
  A request never names a file outside the tree: on a path that begins with a slash, what is looked up
  is \<open>index.html\<close> or a path of ordinary segments, however many \<open>..\<close> the request has.
\<close>

theorem SPA_inside:
  assumes "strings_HasPrefix p ''/''"
  shows "\<exists>segs. strings_TrimPrefix (path_Clean p) ''/'' = join_slash segs \<and>
    list_all (\<lambda>s. s \<noteq> [] \<and> s \<noteq> ''.'' \<and> s \<noteq> ''..'' \<and> CHR ''/'' \<notin> set s) segs"
proof -
  let ?segs = "clean_segs True [] (split_at (CHR ''/'') p)"
  have "CHR ''/'' \<notin> set s" if "s \<in> set ?segs" for s
    using that clean_segs_parts [of True "[]" "split_at (CHR ''/'') p"] split_at_parts [of s "CHR ''/''" p] by auto
  moreover have "list_all (\<lambda>s. s \<noteq> [] \<and> s \<noteq> ''.'' \<and> s \<noteq> ''..'') ?segs"
    by (rule clean_segs_ordinary) simp
  ultimately have "list_all (\<lambda>s. s \<noteq> [] \<and> s \<noteq> ''.'' \<and> s \<noteq> ''..'' \<and> CHR ''/'' \<notin> set s) ?segs"
    by (simp add: list_all_iff)
  moreover have "strings_TrimPrefix (path_Clean p) ''/'' = join_slash ?segs"
    using assms by (simp add: path_Clean_def strings_TrimPrefix_def)
  ultimately show ?thesis by blast
qed

text \<open>With the interface built, a path of no file is answered like the start page.\<close>

lemma SPA_fallback:
  assumes "present ''index.html''" and "SPAHandler present p = FileServer q"
  shows "q = p \<and> (present (strings_TrimPrefix (path_Clean p) ''/'') \<or> strings_TrimPrefix (path_Clean p) ''/'' = []) \<or> q = ''/''"
  using assms by (auto simp: SPAHandler_def Let_def split: if_splits)

lemma SPA_examples:
  "path_Clean ''/a/../../etc/./passwd'' = ''/etc/passwd''" "path_Clean ''a//b/'' = ''a/b''" "path_Clean ''../x'' = ''../x''"
  "filepath_Dir ''cylon.db'' = ''.''" "filepath_Dir ''/var/lib/cylon.db'' = ''/var/lib''"
  by code_simp+

end
