(* ===== verification/Serve.thy ===== *)
theory Serve
  imports Metrics Shell
begin

text \<open>
  The life of the web app (\<open>cmd/cylon/serve.go\<close>): opening and migrating the database, starting, serving until a
  server fails or a signal comes, and cleaning up, whatever the way it ends; and the commands that
  only print, with the exit code of the program.
\<close>

section \<open>Serving\<close>

text \<open>What \<open>serve\<close> waits for: one of its two HTTP servers ends, or the context is done and \<open>srv\<close> shuts down.\<close>

datatype serve_event =
    ListenEnds "err option"
  | Signalled "err option"

definition ErrServerClosed :: err where
  "ErrServerClosed = Err ''http: Server closed''"

text \<open>\<open>select\<close> over what the two server goroutines put on \<open>errCh\<close>; \<open>None\<close> while both serve.\<close>

fun serve_wait :: "serve_event list \<Rightarrow> unit res option" where
  "serve_wait [] = None"
| "serve_wait (ListenEnds e # evs) =
     (case e of
        None \<Rightarrow> serve_wait evs
      | Some e \<Rightarrow> if errors_Is e ErrServerClosed then serve_wait evs else Some (Inl e))"
| "serve_wait (Signalled e # evs) = Some (of_err e)"

datatype serve_end = Waiting | Serving | Panicked | Returned "unit res"

text \<open>
  The whole command. \<open>content h\<close> is the store in the database behind \<open>h\<close>, \<open>during\<close> what requests and tags make of
  the app while it serves. The result, the app, and the database handles that were closed; the
  deferred clean-up runs on every way out, a panic included. The app is \<open>None\<close> where it never served.
\<close>

definition serve_cmd ::
  "viper \<Rightarrow> 'h sqlite \<Rightarrow> 'h goose \<Rightarrow> ('h \<Rightarrow> store) \<Rightarrow> 'r prom_lib \<Rightarrow> aes_lib \<Rightarrow> lns_world \<Rightarrow> string \<Rightarrow> string \<Rightarrow> string \<Rightarrow> string res \<Rightarrow>
    (app \<Rightarrow> app) \<Rightarrow> serve_event list \<Rightarrow> serve_end \<times> app option \<times> 'h list" where
  "serve_cmd v D G content P A w addr ver key flag during evs =
     (case loadConfig v flag of
        Inl e \<Rightarrow> (Returned (Inl e), None, [])
      | Inr cfg \<Rightarrow>
          (case db_Open D (StorePath (cfg_Store cfg)) of
             (Inl e, shut) \<Rightarrow> (Returned (Inl e), None, shut)
           | (Inr h, shut) \<Rightarrow>
               (case db_Migrate G h ''up'' of
                  Inl e \<Rightarrow> (Returned (Inl e), None, shut @ [h])
                | Inr _ \<Rightarrow>
                    (case cylon_serve v A (\<lambda>_. Inr (content h)) w addr ver key flag of
                       None \<Rightarrow> (Waiting, None, shut)
                     | Some (Inl e) \<Rightarrow> (Returned (Inl e), None, shut @ [h])
                     | Some (Inr a) \<Rightarrow>
                         (case Option.bind (metrics_New P) (bindGauges P) of
                            None \<Rightarrow> (Panicked, Some (serve_exit a), shut @ [h])
                          | Some m \<Rightarrow>
                              (case serve_wait evs of
                                 None \<Rightarrow> (Serving, Some (during a), shut)
                               | Some r \<Rightarrow> (Returned r, Some (serve_exit (during a)), shut @ [h])))))))"

section \<open>The commands that print, and the exit code\<close>

definition version_cmd :: "string \<Rightarrow> string" where
  "version_cmd ver = ver @ [CHR 0x0A]"

definition gen_config_cmd :: "string \<Rightarrow> string" where
  "gen_config_cmd example = example"

text \<open>What \<open>main\<close> prints to the standard error, and its exit code, for the error text it is given.\<close>

definition main_exit :: "(err \<Rightarrow> string) \<Rightarrow> unit res \<Rightarrow> string \<times> int" where
  "main_exit text r = (case r of Inr _ \<Rightarrow> ([], 0) | Inl e \<Rightarrow> (''error: '' @ text e @ [CHR 0x0A], 1))"

section \<open>What ends a run\<close>

definition goes_on :: "serve_event \<Rightarrow> bool" where
  "goes_on ev = (case ev of ListenEnds None \<Rightarrow> True | ListenEnds (Some e) \<Rightarrow> errors_Is e ErrServerClosed | Signalled _ \<Rightarrow> False)"

definition end_result :: "serve_event \<Rightarrow> unit res" where
  "end_result ev = (case ev of ListenEnds e \<Rightarrow> of_err e | Signalled e \<Rightarrow> of_err e)"

lemma serve_wait_step: "serve_wait (ev # evs) = (if goes_on ev then serve_wait evs else Some (end_result ev))"
  by (cases ev) (auto simp: goes_on_def end_result_def of_err_def split: option.splits)

lemma serve_wait_Some:
  "serve_wait evs = Some r \<Longrightarrow> \<exists>pre ev post. evs = pre @ ev # post \<and> list_all goes_on pre \<and> \<not> goes_on ev \<and> r = end_result ev"
proof (induction evs)
  case (Cons ev evs)
  show ?case
  proof (cases "goes_on ev")
    case True
    with Cons.prems have "serve_wait evs = Some r" by (simp only: serve_wait_step if_True)
    from Cons.IH [OF this] obtain pre ev' post where "evs = pre @ ev' # post" "list_all goes_on pre" "\<not> goes_on ev'" "r = end_result ev'"
      by blast
    with True show ?thesis by (intro exI [of _ "ev # pre"] exI [of _ ev'] exI [of _ post]) simp
  next
    case False
    with Cons.prems have "r = end_result ev" by (simp add: serve_wait_step del: serve_wait.simps)
    with False show ?thesis by (intro exI [of _ "[]"] exI [of _ ev] exI [of _ evs]) simp
  qed
qed simp

lemma end_ok: "\<not> goes_on ev \<Longrightarrow> is_ok (end_result ev) \<Longrightarrow> ev = Signalled None"
  by (cases ev) (auto simp: goes_on_def end_result_def of_err_def split: option.splits)

text \<open>The handles that were opened.\<close>

definition opened_handles :: "viper \<Rightarrow> 'h sqlite \<Rightarrow> string res \<Rightarrow> 'h list" where
  "opened_handles v D flag =
     (case loadConfig v flag of
        Inl e \<Rightarrow> []
      | Inr cfg \<Rightarrow> (case db_Open D (StorePath (cfg_Store cfg)) of (Inl e, shut) \<Rightarrow> shut | (Inr h, shut) \<Rightarrow> shut @ [h]))"

lemma db_Open_Inr: "db_Open D path = (Inr h, shut) \<Longrightarrow> shut = []"
  using db_Open_closes [of D path "Inr h" shut] by auto

text \<open>Everything is stopped: no tag runs, no tag connection is open, the gateway and its link are closed.\<close>

definition orchestrators_ok :: "app \<Rightarrow> bool" where
  "orchestrators_ok a = (\<forall>s. ap_orch (app_api a) = Some s \<longrightarrow> orch_inv s)"

definition stopped :: "app \<Rightarrow> bool" where
  "stopped a =
     ((\<forall>s. ap_orch (app_api a) = Some s \<longrightarrow> or_running s = Map.empty \<and> or_open s = {}) \<and>
      (\<forall>gw srv l. app_gateway a = Some (gw, srv, l) \<longrightarrow> sv_closed srv \<and> ln_closed l))"

lemma stopped_exit:
  assumes "orchestrators_ok a"
  shows "stopped (serve_exit a)"
proof -
  have "or_running (orch_StopAll s) = Map.empty" for s :: "publisher orch" by (simp add: orch_StopAll_def)
  then show ?thesis
    using assms orch_StopAll_inv
    by (auto simp: stopped_def orchestrators_ok_def serve_exit_def closeGW_def sv_Close_def lns_Close_def)
qed

lemma cylon_serve_orchestrators:
  assumes "cylon_serve v A opened w addr ver key flag = Some (Inr a)"
  shows "orchestrators_ok a"
  using assms
  by (auto simp: cylon_serve_def orchestrators_ok_def NewAPI_def orch_inv_New
      split: sum.splits prod.splits option.splits if_splits)

section \<open>Properties\<close>


definition example_sqlite :: "unit sqlite" where
  "example_sqlite = \<lparr>os_MkdirAll = (\<lambda>_. None), sql_Open = (\<lambda>_. Inr ()), db_Ping = (\<lambda>_. None)\<rparr>"

definition example_goose :: "unit goose" where
  "example_goose = \<lparr>goose_SetDialect = (\<lambda>_. None), goose_Up = (\<lambda>_ _. None), goose_Down = (\<lambda>_ _. None), goose_Status = (\<lambda>_ _. None)\<rparr>"


end
