(* ===== verification/JsonFuel.thy ===== *)
theory JsonFuel
  imports Json
begin

text \<open>
  The parser of \<open>Json\<close> never refuses a text for want of fuel.
\<close>

section \<open>The fuel is enough\<close>

lemma skip_ws_length: "length (skip_ws s) \<le> length s"
  by (induction s) auto

lemma skip_ws_Cons: "skip_ws s = c # r \<Longrightarrow> length r < length s"
  using skip_ws_length [of s] by simp

lemma parse_str_length: "parse_str s = Some (t, r) \<Longrightarrow> length r < length s"
proof (induction s arbitrary: t r rule: parse_str.induct)
  case (2 c s)
  have l: "length (snd (surrogate u (drop 4 xs))) \<le> length xs" for u xs
    using surrogate_length [of u "drop 4 xs"] by simp
  have "length (snd (surrogate u (drop 4 xs))) < Suc (Suc (length xs))" for u xs
    using l [of u xs] by simp
  with 2 show ?case
    by (auto split: if_splits list.splits option.splits prod.splits) (metis l less_SucI less_le_trans)+
qed simp

lemma num_literal_length: "json_num_ok (takeWhile is_num_char s) \<Longrightarrow> length (dropWhile is_num_char s) < length s"
proof -
  assume "json_num_ok (takeWhile is_num_char s)"
  then have "takeWhile is_num_char s \<noteq> []" by (auto simp: json_num_ok_def num_int_ok_def)
  moreover have "length s = length (takeWhile is_num_char s) + length (dropWhile is_num_char s)"
    by (metis length_append takeWhile_dropWhile_id)
  ultimately show ?thesis by (cases "takeWhile is_num_char s") simp_all
qed

text \<open>Whatever is read with some fuel is read with twice the length of the text.\<close>

lemma parse_value_step:
  assumes "parse_value (Suc n) s = Some (v, r)"
    and "\<And>s' vs r'. parse_elems n s' = Some (vs, r') \<Longrightarrow> length s' < length s \<Longrightarrow> length r' < length s' \<and> parse_elems m s' = Some (vs, r')"
    and "\<And>s' kvs r'. parse_members n s' = Some (kvs, r') \<Longrightarrow> length s' < length s \<Longrightarrow> length r' < length s' \<and> parse_members m s' = Some (kvs, r')"
  shows "length r < length s \<and> parse_value (Suc m) s = Some (v, r)"
proof (cases "skip_ws s")
  case (Cons c t)
  have t: "length t < length s" by (rule skip_ws_Cons [OF Cons])
  have tl: "length (tl (skip_ws t)) < length s" using skip_ws_length [of t] t by simp
  have le: "length t \<le> length s - 1" using t by simp
  have str: "length r' < length s" if "parse_str t = Some (x, r')" for x r'
    using parse_str_length [OF that] t by simp
  have elems: "length r' < length s \<and> parse_elems m t = Some (vs, r')" if "parse_elems n t = Some (vs, r')" for vs r'
    using assms(2) [OF that t] t by simp
  have members: "length r' < length s \<and> parse_members m t = Some (kvs, r')" if "parse_members n t = Some (kvs, r')" for kvs r'
    using assms(3) [OF that t] t by simp
  have num: "length (dropWhile is_num_char (c # t)) < length s" if "json_num_ok (takeWhile is_num_char (c # t))"
    using num_literal_length [OF that] t by simp
  show ?thesis
    using assms(1) Cons tl t le num
    by (auto simp: Let_def dest: str elems members split: if_splits simp del: takeWhile.simps dropWhile.simps)
qed (use assms(1) in simp)

lemma parse_elems_step:
  assumes "parse_elems (Suc n) s = Some (vs, r)"
    and "\<And>s' v r'. parse_value n s' = Some (v, r') \<Longrightarrow> length s' \<le> length s \<Longrightarrow> length r' < length s' \<and> parse_value m s' = Some (v, r')"
    and "\<And>s' vs r'. parse_elems n s' = Some (vs, r') \<Longrightarrow> length s' < length s \<Longrightarrow> length r' < length s' \<and> parse_elems m s' = Some (vs, r')"
  shows "length r < length s \<and> parse_elems (Suc m) s = Some (vs, r)"
proof -
  obtain v r1 where v: "parse_value n s = Some (v, r1)" using assms(1) by (auto split: option.splits)
  note v' = assms(2) [OF v order_refl]
  obtain c r2 where r1: "skip_ws r1 = c # r2" using assms(1) v by (auto split: list.splits)
  have r2: "length r2 < length s" using skip_ws_Cons [OF r1] v' by simp
  show ?thesis
  proof (cases "c = CHR '']''")
    case False
    with assms(1) v r1 obtain ws where "c = CHR '',''" "parse_elems n r2 = Some (ws, r)" "vs = v # ws"
      by (auto split: if_splits)
    with assms(3) [of r2 ws r] r2 v' r1 show ?thesis by simp
  qed (use assms(1) v v' r1 r2 in simp)
qed

lemma parse_members_step:
  assumes "parse_members (Suc n) s = Some (kvs, r)"
    and "\<And>s' v r'. parse_value n s' = Some (v, r') \<Longrightarrow> length s' \<le> length s \<Longrightarrow> length r' < length s' \<and> parse_value m s' = Some (v, r')"
    and "\<And>s' kvs r'. parse_members n s' = Some (kvs, r') \<Longrightarrow> length s' < length s \<Longrightarrow> length r' < length s' \<and> parse_members m s' = Some (kvs, r')"
  shows "length r < length s \<and> parse_members (Suc m) s = Some (kvs, r)"
proof -
  obtain s1 where s: "skip_ws s = CHR 0x22 # s1" using assms(1) by (auto split: list.splits if_splits)
  obtain k s2 where k: "parse_str s1 = Some (k, s2)" using assms(1) s by (auto split: option.splits)
  obtain s3 where s3: "skip_ws s2 = CHR '':'' # s3" using assms(1) s k by (auto split: list.splits if_splits)
  obtain v r1 where v: "parse_value n s3 = Some (v, r1)" using assms(1) s k s3 by (auto split: option.splits)
  have l3: "length s3 < length s" using skip_ws_Cons [OF s] parse_str_length [OF k] skip_ws_Cons [OF s3] by simp
  note v' = assms(2) [OF v less_imp_le [OF l3]]
  obtain c r2 where r1: "skip_ws r1 = c # r2" using assms(1) s k s3 v by (auto split: list.splits)
  have r2: "length r2 < length s" using skip_ws_Cons [OF r1] v' l3 by simp
  show ?thesis
  proof (cases "c = CHR ''}''")
    case False
    with assms(1) s k s3 v r1 obtain ks where "c = CHR '',''" "parse_members n r2 = Some (ks, r)" "kvs = (k, v) # ks"
      by (auto split: if_splits)
    with assms(3) [of r2 ks r] r2 v' s k s3 r1 show ?thesis by simp
  qed (use assms(1) s k s3 v v' r1 r2 in simp)
qed

lemma parse_fuel:
  "parse_value n s = Some (v, r) \<Longrightarrow> 2 * length s \<le> m \<Longrightarrow> length r < length s \<and> parse_value m s = Some (v, r)"
  "parse_elems n s = Some (vs, r) \<Longrightarrow> 2 * length s < m \<Longrightarrow> length r < length s \<and> parse_elems m s = Some (vs, r)"
  "parse_members n s = Some (kvs, r) \<Longrightarrow> 2 * length s < m \<Longrightarrow> length r < length s \<and> parse_members m s = Some (kvs, r)"
proof (induction n arbitrary: s v vs kvs r m)
  case (Suc n)
  {
    case 1
    then have "s \<noteq> []" by auto
    with 1 obtain k where k: "m = Suc k" "2 * length s \<le> Suc k" by (cases m; cases s) auto
    show ?case unfolding k(1)
      by (rule parse_value_step [OF 1(1)]; rule Suc.IH; use k(2) in simp)
  next
    case 2
    then obtain k where k: "m = Suc k" "2 * length s \<le> k" by (cases m) auto
    show ?case unfolding k(1)
      by (rule parse_elems_step [OF 2(1)]; rule Suc.IH; use k(2) in simp)
  next
    case 3
    then obtain k where k: "m = Suc k" "2 * length s \<le> k" by (cases m) auto
    show ?case unfolding k(1)
      by (rule parse_members_step [OF 3(1)]; rule Suc.IH; use k(2) in simp)
  }
qed simp_all

text \<open>So a text is refused only when no amount of fuel would read it.\<close>

theorem json_parse_complete:
  assumes "parse_value n s = Some (j, r)" and "skip_ws r = []"
  shows "json_parse s = Inr j"
  using parse_fuel(1) [OF assms(1), of "2 * length s + 2"] assms(2) by (simp add: json_parse_def)

end
